(* ===== verification/Sechat_Prelude.thy ===== *)
theory Sechat_Prelude
  imports Main "HOL-Library.Word" "HOL-Library.List_Lexorder" "HOL-Library.Signed_Division"
begin

text \<open>
  Shared vocabulary of the development: machine integers and byte strings, Rust's
  \<^verbatim>\<open>Result\<close> and the early-return operator \<^verbatim>\<open>?\<close> as combinators on sums, operations on
  an explicit state that may fail, the fixed-width little/big-endian encodings of
  64-bit integers, and the interfaces that several components implement: byte codecs
  (\<open>wire_codec\<close>, \<open>fixed_codec\<close>), transition systems with an invariant
  (\<open>invariant_system\<close>) and systems two runs of which look the same (\<open>unwinding\<close>).
\<close>

unbundle bit_operations_syntax

section \<open>Types and collections of facts\<close>

type_synonym byte = "8 word"
type_synonym bytes = "byte list"
type_synonym u64 = "64 word"
type_synonym i64 = "64 word"

text \<open>
  \<open>op_simps\<close> evaluates fallible state operations, \<open>disk_simps\<close> evaluates file-system
  operations, \<open>layout_simps\<close> computes lengths and slices of concatenated byte fields.
\<close>

named_theorems op_simps
named_theorems disk_simps
named_theorems layout_simps

section \<open>Results and fallible state operations\<close>

text \<open>Rust's \<^verbatim>\<open>Result<A, E>\<close> is the sum \<open>'e + 'a\<close> with \<open>Inl\<close> for \<^verbatim>\<open>Err\<close>.\<close>

definition and_then :: "'e + 'a \<Rightarrow> ('a \<Rightarrow> 'e + 'b) \<Rightarrow> 'e + 'b" where
  "and_then r f = (case r of Inl e \<Rightarrow> Inl e | Inr a \<Rightarrow> f a)"

definition map_err :: "('e \<Rightarrow> 'f) \<Rightarrow> 'e + 'a \<Rightarrow> 'f + 'a" where
  "map_err g r = (case r of Inl e \<Rightarrow> Inl (g e) | Inr a \<Rightarrow> Inr a)"

definition ok_or :: "'e \<Rightarrow> 'a option \<Rightarrow> 'e + 'a" where
  "ok_or e x = (case x of None \<Rightarrow> Inl e | Some a \<Rightarrow> Inr a)"

definition ok :: "'e + 'a \<Rightarrow> 'a option" where
  "ok r = (case r of Inl e \<Rightarrow> None | Inr a \<Rightarrow> Some a)"

definition is_ok :: "'e + 'a \<Rightarrow> bool" where
  "is_ok r = (case r of Inl e \<Rightarrow> False | Inr a \<Rightarrow> True)"

definition unwrap_or :: "'a \<Rightarrow> 'e + 'a \<Rightarrow> 'a" where
  "unwrap_or d r = (case r of Inl e \<Rightarrow> d | Inr a \<Rightarrow> a)"

lemma result_simps [simp, op_simps]:
  "and_then (Inl e) f = Inl e" "and_then (Inr a) f = f a"
  "map_err g (Inl e) = Inl (g e)" "map_err g (Inr a) = Inr a"
  "ok_or e None = Inl e" "ok_or e (Some a) = Inr a"
  "ok (Inl e) = None" "ok (Inr a) = Some a"
  "is_ok (Inl e) = False" "is_ok (Inr a) = True"
  "unwrap_or d (Inl e) = d" "unwrap_or d (Inr a) = a"
  by (simp_all add: and_then_def map_err_def ok_or_def ok_def is_ok_def unwrap_or_def)

lemma and_then_Inr: "and_then r f = Inr b \<longleftrightarrow> (\<exists>a. r = Inr a \<and> f a = Inr b)"
  by (cases r) simp_all

lemma map_err_Inr [simp]: "map_err g r = Inr a \<longleftrightarrow> r = Inr a"
  by (cases r) simp_all

lemma ok_or_Inr [simp]: "ok_or e x = Inr a \<longleftrightarrow> x = Some a"
  by (cases x) simp_all

lemma ok_Some [simp]: "ok r = Some a \<longleftrightarrow> r = Inr a"
  by (cases r) simp_all

text \<open>
  An operation on a state \<open>'s\<close>: the result of the call and the state it leaves. An
  early return keeps the effects made so far.
\<close>

type_synonym ('s, 'e, 'a) op = "'s \<Rightarrow> ('e + 'a) \<times> 's"

definition op_ret :: "'a \<Rightarrow> ('s, 'e, 'a) op" where
  "op_ret a s = (Inr a, s)"

definition op_lift :: "'e + 'a \<Rightarrow> ('s, 'e, 'a) op" where
  "op_lift r s = (r, s)"

definition op_get :: "('s \<Rightarrow> 'e + 'a) \<Rightarrow> ('s, 'e, 'a) op" where
  "op_get f s = (f s, s)"

definition op_bind :: "('s, 'e, 'a) op \<Rightarrow> ('a \<Rightarrow> ('s, 'e, 'b) op) \<Rightarrow> ('s, 'e, 'b) op" where
  "op_bind m f s = (case m s of (Inl e, s') \<Rightarrow> (Inl e, s') | (Inr a, s') \<Rightarrow> f a s')"

definition op_map_err :: "('e \<Rightarrow> 'f) \<Rightarrow> ('s, 'e, 'a) op \<Rightarrow> ('s, 'f, 'a) op" where
  "op_map_err g m s = (case m s of (r, s') \<Rightarrow> (map_err g r, s'))"

lemma op_basic [simp, op_simps]:
  "op_ret a s = (Inr a, s)" "op_lift r s = (r, s)" "op_get f s = (f s, s)"
  by (simp_all add: op_ret_def op_lift_def op_get_def)

lemma op_bind_Inl [simp, op_simps]: "m s = (Inl e, s') \<Longrightarrow> op_bind m f s = (Inl e, s')"
  by (simp add: op_bind_def)

lemma op_bind_Inr [simp, op_simps]: "m s = (Inr a, s') \<Longrightarrow> op_bind m f s = f a s'"
  by (simp add: op_bind_def)

lemma op_map_err_eq [simp, op_simps]: "m s = (r, s') \<Longrightarrow> op_map_err g m s = (map_err g r, s')"
  by (simp add: op_map_err_def)

text \<open>Inversion of a successful sequence: the rule every success proof uses.\<close>

text \<open>A transitive relation that both parts of a sequence keep is kept by the sequence.\<close>

lemma op_bind_keeps:
  assumes "transp R" and "R s (snd (m s))" and "\<And>a s'. R s' (snd (f a s'))"
  shows "R s (snd (op_bind m f s))"
  using assms by (cases "m s"; cases "fst (m s)") (auto simp: op_bind_def elim: transpE)

lemma op_bind_ok:
  "op_bind m f s = (Inr b, s'') \<longleftrightarrow> (\<exists>a s'. m s = (Inr a, s') \<and> f a s' = (Inr b, s''))"
  by (cases "m s"; cases "fst (m s)") (auto simp: op_bind_def)

lemma op_map_err_ok: "op_map_err g m s = (Inr a, s') \<longleftrightarrow> m s = (Inr a, s')"
  by (cases "m s") (simp add: op_map_err_def)

section \<open>Fixed-size arrays and slices\<close>

text \<open>\<^verbatim>\<open><[u8; 32]>::try_from(slice)\<close> succeeds exactly on slices of 32 bytes.\<close>

definition try32 :: "bytes \<Rightarrow> bytes option" where
  "try32 bs = (if length bs = 32 then Some bs else None)"

lemma try32_Some [simp]: "try32 bs = Some k \<longleftrightarrow> k = bs \<and> length bs = 32"
  by (auto simp: try32_def)

lemma try32_len: "length bs = 32 \<Longrightarrow> try32 bs = Some bs"
  by simp

text \<open>\<open>slice a b xs\<close> is Rust's \<^verbatim>\<open>xs[a..b]\<close> (the callers check the bounds first).\<close>

definition slice :: "nat \<Rightarrow> nat \<Rightarrow> 'a list \<Rightarrow> 'a list" where
  "slice a b xs = take (b - a) (drop a xs)"

lemma slice_length [simp, layout_simps]: "b \<le> length xs \<Longrightarrow> length (slice a b xs) = b - a"
  by (simp add: slice_def)

lemma slice_first [layout_simps]: "length xs = n \<Longrightarrow> slice 0 n (xs @ ys) = xs"
  by (simp add: slice_def)

lemma slice_skip [layout_simps]:
  "length xs = m \<Longrightarrow> m \<le> a \<Longrightarrow> slice a b (xs @ ys) = slice (a - m) (b - m) ys"
  by (simp add: slice_def)

lemma slice_all [layout_simps]: "length xs = n \<Longrightarrow> slice 0 n xs = xs"
  by (simp add: slice_def)

section \<open>64-bit integers on the wire\<close>

fun le_digits :: "nat \<Rightarrow> nat \<Rightarrow> bytes" where
  "le_digits 0 n = []"
| "le_digits (Suc k) n = word_of_nat (n mod 256) # le_digits k (n div 256)"

fun le_value :: "bytes \<Rightarrow> nat" where
  "le_value [] = 0"
| "le_value (b # bs) = unat b + 256 * le_value bs"

lemma length_le_digits [simp]: "length (le_digits k n) = k"
  by (induction k arbitrary: n) simp_all

lemma unat_byte [simp]: "n < 256 \<Longrightarrow> unat (word_of_nat n :: byte) = n"
  by (simp add: unat_of_nat)

lemma le_value_digits: "le_value (le_digits k n) = n mod 256 ^ k"
proof (induction k arbitrary: n)
  case (Suc k)
  have "n mod (256 * 256 ^ k) = 256 * (n div 256 mod 256 ^ k) + n mod 256"
    by (simp add: mod_mult2_eq)
  with Suc show ?case by simp
qed simp

lemma le_value_bound: "le_value bs < 256 ^ length bs"
proof (induction bs)
  case (Cons b bs)
  have "unat b < 256" using unsigned_less [of b, where ?'a = nat] by simp
  with Cons show ?case by simp
qed simp

text \<open>\<^verbatim>\<open>to_le_bytes\<close>, \<^verbatim>\<open>to_be_bytes\<close> and \<^verbatim>\<open>from_be_bytes\<close> of 64-bit integers.\<close>

definition to_le_bytes :: "64 word \<Rightarrow> bytes" where
  "to_le_bytes w = le_digits 8 (unat w)"

definition to_be_bytes :: "64 word \<Rightarrow> bytes" where
  "to_be_bytes w = rev (to_le_bytes w)"

definition from_be_bytes :: "bytes \<Rightarrow> 64 word option" where
  "from_be_bytes bs = (if length bs = 8 then Some (word_of_nat (le_value (rev bs))) else None)"

definition from_le_bytes :: "bytes \<Rightarrow> 64 word option" where
  "from_le_bytes bs = from_be_bytes (rev bs)"

lemma length_le_be [simp, layout_simps]:
  "length (to_le_bytes w) = 8" "length (to_be_bytes w) = 8"
  by (simp_all add: to_le_bytes_def to_be_bytes_def)

lemma le_value_to_le: "le_value (to_le_bytes w) = unat w"
proof -
  have "unat w < 2 ^ 64" using unsigned_less [of w, where ?'a = nat] by simp
  then show ?thesis by (simp add: to_le_bytes_def le_value_digits)
qed

lemma from_be_to_be [simp]: "from_be_bytes (to_be_bytes w) = Some w"
  by (simp add: from_be_bytes_def to_be_bytes_def le_value_to_le)

lemma from_le_to_le [simp]: "from_le_bytes (to_le_bytes w) = Some w"
  using from_be_to_be [of w] by (simp add: from_le_bytes_def to_be_bytes_def)

text \<open>
  Big-endian keys of equal length compare, byte by byte, as the numbers they encode: this
  is why \<^verbatim>\<open>to_be_bytes\<close> keys keep insertion order in an ordered key-value store.
\<close>

lemma le_value_snoc: "le_value (bs @ [b]) = le_value bs + 256 ^ length bs * unat b"
  by (induction bs) (simp_all add: algebra_simps)

lemma rev_lex_iff:
  "length xs = length ys \<Longrightarrow> rev xs < rev ys \<longleftrightarrow> le_value xs < le_value ys"
proof (induction "length xs" arbitrary: xs ys)
  case (Suc n)
  from Suc.hyps(2) obtain xs' x where xs: "xs = xs' @ [x]" by (cases xs rule: rev_cases) auto
  from Suc obtain ys' y where ys: "ys = ys' @ [y]" by (cases ys rule: rev_cases) auto
  have len: "length xs' = n" "length ys' = n" using Suc.hyps(2) Suc.prems xs ys by simp_all
  have ih: "rev xs' < rev ys' \<longleftrightarrow> le_value xs' < le_value ys'"
    using Suc.hyps(1) len by simp
  have b: "le_value xs' < 256 ^ n" "le_value ys' < 256 ^ n"
    using le_value_bound len by metis+
  have step: "256 ^ n * unat x + 256 ^ n \<le> 256 ^ n * unat y" if "unat x < unat y" for x y :: byte
  proof -
    have "256 ^ n * (unat x + 1) \<le> (256::nat) ^ n * unat y" using that by (intro mult_le_mono2) simp
    then show ?thesis by simp
  qed
  consider "x < y" | "x = y" | "y < x" by fastforce
  then show ?case
  proof cases
    case 1
    then have "unat x < unat y" by (simp add: word_less_nat_alt)
    from step [OF this] b 1 show ?thesis by (simp add: xs ys le_value_snoc len)
  next
    case 2
    then show ?thesis by (simp add: xs ys le_value_snoc len ih)
  next
    case 3
    then have "unat y < unat x" by (simp add: word_less_nat_alt)
    from step [OF this] b 3 show ?thesis by (auto simp: xs ys le_value_snoc len)
  qed
qed simp

lemma to_be_less_iff: "to_be_bytes v < to_be_bytes w \<longleftrightarrow> v < w"
  by (simp add: to_be_bytes_def rev_lex_iff le_value_to_le word_less_nat_alt)

section \<open>Signed arithmetic of release builds\<close>

text \<open>
  \<^verbatim>\<open>i64\<close> values are 64-bit words read by \<open>sint\<close>. Release builds wrap on overflow, so
  \<^verbatim>\<open>abs\<close> of the least value is that value again. Division truncates towards zero.
\<close>

definition i64_abs :: "i64 \<Rightarrow> i64" where
  "i64_abs w = (if sint w < 0 then - w else w)"

definition i64_div :: "i64 \<Rightarrow> int \<Rightarrow> i64" where
  "i64_div w d = word_of_int (sint w sdiv d)"

lemma sint64_bounds: "- (2 ^ 63) \<le> sint (w :: i64) \<and> sint w < 2 ^ 63"
  using sint_ge [of w] sint_lt [of w] by simp

lemma sint_word_of_int64:
  "- (2 ^ 63) \<le> n \<Longrightarrow> n < 2 ^ 63 \<Longrightarrow> sint (word_of_int n :: i64) = n"
  by (simp add: sint_sbintrunc' signed_take_bit_int_eq_self)

lemma sint_sub64:
  "- (2 ^ 63) \<le> sint a - sint b \<Longrightarrow> sint a - sint b < 2 ^ 63 \<Longrightarrow>
    sint (a - b :: i64) = sint a - sint b"
proof -
  assume h: "- (2 ^ 63) \<le> sint a - sint b" "sint a - sint b < 2 ^ 63"
  have "a - b = word_of_int (sint a - sint b)" by simp
  then show ?thesis using sint_word_of_int64 [OF h] by simp
qed

lemma sint_i64_abs: "sint w \<noteq> - (2 ^ 63) \<Longrightarrow> sint (i64_abs w) = \<bar>sint w\<bar>"
proof -
  assume h: "sint w \<noteq> - (2 ^ 63)"
  have "sint (- w) = - sint w" if "sint w < 0"
  proof -
    have "- w = word_of_int (- sint w)" by simp
    moreover have "- (2 ^ 63) \<le> - sint w" "- sint w < 2 ^ 63"
      using h sint64_bounds [of w] that by simp_all
    ultimately show ?thesis using sint_word_of_int64 by metis
  qed
  then show ?thesis by (simp add: i64_abs_def)
qed

lemma sdiv_nonneg: "0 \<le> x \<Longrightarrow> 0 < d \<Longrightarrow> x sdiv d = x div d" for x d :: int
  by (cases "x = 0") (simp_all add: signed_divide_int_def)

section \<open>Interfaces\<close>

text \<open>
  A codec between values and byte strings, on the values \<open>wf\<close> allows. What a client may
  use: decoding an encoding gives the value back, so encodings of distinct values differ.
\<close>

locale wire_codec =
  fixes wf :: "'a \<Rightarrow> bool"
    and enc :: "'a \<Rightarrow> bytes"
    and dec :: "bytes \<Rightarrow> 'a option"
  assumes dec_enc: "wf x \<Longrightarrow> dec (enc x) = Some x"
begin

lemma enc_eq_iff: "wf x \<Longrightarrow> wf y \<Longrightarrow> enc x = enc y \<longleftrightarrow> x = y"
  using dec_enc by (metis option.inject)

end

text \<open>
  A codec of constant width can stand first in a concatenation: the parts of a signed or
  stored byte string are determined by the whole.
\<close>

locale fixed_codec = wire_codec +
  fixes width :: nat
  assumes enc_width: "wf x \<Longrightarrow> length (enc x) = width"
begin

lemma enc_append_iff:
  "wf x \<Longrightarrow> wf y \<Longrightarrow> enc x @ r = enc y @ r' \<longleftrightarrow> x = y \<and> r = r'"
  by (simp add: enc_width enc_eq_iff append_eq_append_conv)

end

interpretation le64: fixed_codec "\<lambda>_. True" to_le_bytes from_le_bytes 8
  by unfold_locales simp_all

interpretation be64: fixed_codec "\<lambda>_. True" to_be_bytes from_be_bytes 8
  by unfold_locales simp_all

text \<open>
  A transition system with an invariant: initial states satisfy it and every step keeps
  it, so every state of every run does.
\<close>

inductive run_of :: "('s \<Rightarrow> 's \<Rightarrow> bool) \<Rightarrow> 's \<Rightarrow> 's \<Rightarrow> bool" for step where
  run_refl: "run_of step s s"
| run_step: "run_of step s t \<Longrightarrow> step t u \<Longrightarrow> run_of step s u"

locale invariant_system =
  fixes init :: "'s \<Rightarrow> bool"
    and step :: "'s \<Rightarrow> 's \<Rightarrow> bool"
    and inv :: "'s \<Rightarrow> bool"
  assumes inv_init: "init s \<Longrightarrow> inv s"
    and inv_step: "inv s \<Longrightarrow> step s t \<Longrightarrow> inv t"
begin

lemma inv_run:
  assumes "run_of step s t" and "inv s"
  shows "inv t"
  using assms by (induction rule: run_of.induct) (blast intro: inv_step)+

lemma inv_reachable: "init s \<Longrightarrow> run_of step s t \<Longrightarrow> inv t"
  using inv_run inv_init by blast

end

section \<open>Runs that look alike\<close>

text \<open>Feeding a list of inputs to a system that may stop.\<close>

primrec runs :: "('i \<Rightarrow> 's \<Rightarrow> 's option) \<Rightarrow> 'i list \<Rightarrow> 's \<Rightarrow> 's option" where
  "runs step [] s = Some s"
| "runs step (x # xs) s = Option.bind (step x s) (runs step xs)"

text \<open>Two lists of inputs that are alike at each point, in the states the runs have got to by then.\<close>

fun alike_runs :: "('i \<Rightarrow> 's \<Rightarrow> 's option) \<Rightarrow> ('s \<Rightarrow> 'i \<Rightarrow> 's \<Rightarrow> 'i \<Rightarrow> bool) \<Rightarrow> 's \<Rightarrow> 'i list \<Rightarrow> 's \<Rightarrow> 'i list \<Rightarrow> bool" where
  "alike_runs step like s [] s' [] \<longleftrightarrow> True"
| "alike_runs step like s (x # xs) s' (y # ys) \<longleftrightarrow> like s x s' y
     \<and> (case (step x s, step y s') of (Some t, Some t') \<Rightarrow> alike_runs step like t xs t' ys | _ \<Rightarrow> True)"
| "alike_runs step like s _ s' _ \<longleftrightarrow> False"

text \<open>
  Unwinding: a relation of states that inputs which are alike keep, and that cannot be seen. Then
  nothing that happens tells two runs apart.
\<close>

locale unwinding =
  fixes step :: "'i \<Rightarrow> 's \<Rightarrow> 's option"
    and like :: "'s \<Rightarrow> 'i \<Rightarrow> 's \<Rightarrow> 'i \<Rightarrow> bool"
    and rel :: "'s \<Rightarrow> 's \<Rightarrow> bool"
    and see :: "'s \<Rightarrow> 'o"
  assumes unwind: "rel s s' \<Longrightarrow> like s x s' y \<Longrightarrow> rel_option rel (step x s) (step y s')"
    and unseen: "rel s s' \<Longrightarrow> see s = see s'"
begin

lemma runs_related:
  assumes "rel s s'" and "alike_runs step like s xs s' ys"
  shows "rel_option rel (runs step xs s) (runs step ys s')"
  using assms
proof (induction xs arbitrary: s s' ys)
  case Nil
  then show ?case by (cases ys) simp_all
next
  case (Cons x xs)
  then obtain y zs where ys: "ys = y # zs" by (cases ys) auto
  have l: "like s x s' y" and k: "case (step x s, step y s') of (Some t, Some t') \<Rightarrow> alike_runs step like t xs t' zs | _ \<Rightarrow> True"
    using Cons.prems(2) by (simp_all add: ys)
  have "rel_option rel (step x s) (step y s')" using Cons.prems(1) l by (rule unwind)
  then show ?case
  proof (cases rule: option.rel_cases)
    case None
    then show ?thesis by (simp add: ys)
  next
    case (Some t t')
    then show ?thesis using k Cons.IH [of t t' zs] by (simp add: ys)
  qed
qed

lemma runs_look_alike:
  assumes "rel s s'" and "alike_runs step like s xs s' ys"
  shows "map_option see (runs step xs s) = map_option see (runs step ys s')"
  using runs_related [OF assms] by (cases rule: option.rel_cases) (simp_all add: unseen)

end

end
