(* ===== verification/Rust_Std.thy ===== *)
theory Rust_Std
  imports Sechat_Prelude "HOL-Library.Sublist"
begin

text \<open>
  The strings of Rust's standard library as the program uses them: Unicode scalar values
  with the UTF-8 encoding, \<^verbatim>\<open>trim\<close>, \<^verbatim>\<open>lines\<close>, \<^verbatim>\<open>split_once\<close>, \<^verbatim>\<open>rsplit_once\<close>,
  \<^verbatim>\<open>strip_prefix\<close> and decimal formatting.
\<close>

section \<open>Strings\<close>

text \<open>A string is its list of Unicode scalar values; \<open>lit\<close> writes ASCII literals.\<close>

type_synonym rstr = "nat list"

definition lit :: "string \<Rightarrow> rstr" where
  "lit s = map of_char s"

definition scalar :: "nat \<Rightarrow> bool" where
  "scalar c \<longleftrightarrow> c < 0xD800 \<or> 0xE000 \<le> c \<and> c < 0x110000"

definition rust_str :: "rstr \<Rightarrow> bool" where
  "rust_str s = list_all scalar s"

subsection \<open>UTF-8\<close>

definition byte_of :: "nat \<Rightarrow> byte" where
  "byte_of n = word_of_nat n"

lemma unat_byte_of [simp]: "n < 256 \<Longrightarrow> unat (byte_of n) = n"
  by (simp add: byte_of_def)

definition utf8_char :: "nat \<Rightarrow> bytes" where
  "utf8_char c =
     (if c < 0x80 then [byte_of c]
      else if c < 0x800 then [byte_of (0xC0 + c div 64), byte_of (0x80 + c mod 64)]
      else if c < 0x10000 then
        [byte_of (0xE0 + c div 4096), byte_of (0x80 + c div 64 mod 64), byte_of (0x80 + c mod 64)]
      else
        [byte_of (0xF0 + c div 262144), byte_of (0x80 + c div 4096 mod 64),
         byte_of (0x80 + c div 64 mod 64), byte_of (0x80 + c mod 64)])"

text \<open>\<^verbatim>\<open>str::as_bytes\<close>.\<close>

definition as_bytes :: "rstr \<Rightarrow> bytes" where
  "as_bytes s = concat (map utf8_char s)"

text \<open>A continuation byte and the six bits it carries.\<close>

definition cont :: "byte \<Rightarrow> nat option" where
  "cont b = (if 0x80 \<le> unat b \<and> unat b < 0xC0 then Some (unat b - 0x80) else None)"

text \<open>
  The first scalar value of a byte string and the bytes after it; overlong forms,
  surrogates and values above U+10FFFF are refused, as \<^verbatim>\<open>String::from_utf8\<close> refuses them.
\<close>

definition utf8_head :: "bytes \<Rightarrow> (nat \<times> bytes) option" where
  "utf8_head bs = (case bs of
     [] \<Rightarrow> None
   | b # r \<Rightarrow>
       (let n = unat b in
        if n < 0x80 then Some (n, r)
        else if n < 0xC2 then None
        else if n < 0xE0 then
          (case r of b1 # r1 \<Rightarrow>
             (case cont b1 of Some x \<Rightarrow> Some ((n - 0xC0) * 64 + x, r1) | None \<Rightarrow> None)
           | _ \<Rightarrow> None)
        else if n < 0xF0 then
          (case r of b1 # b2 # r2 \<Rightarrow>
             (case (cont b1, cont b2) of
                (Some x, Some y) \<Rightarrow>
                  (let c = (n - 0xE0) * 4096 + x * 64 + y in
                   if 0x800 \<le> c \<and> scalar c then Some (c, r2) else None)
              | _ \<Rightarrow> None)
           | _ \<Rightarrow> None)
        else if n < 0xF5 then
          (case r of b1 # b2 # b3 # r3 \<Rightarrow>
             (case (cont b1, cont b2, cont b3) of
                (Some x, Some y, Some z) \<Rightarrow>
                  (let c = (n - 0xF0) * 262144 + x * 4096 + y * 64 + z in
                   if 0x10000 \<le> c \<and> scalar c then Some (c, r3) else None)
              | _ \<Rightarrow> None)
           | _ \<Rightarrow> None)
        else None))"

lemma utf8_head_shorter: "utf8_head bs = Some (c, r) \<Longrightarrow> length r < length bs"
  by (auto simp: utf8_head_def Let_def split: list.splits if_splits option.splits)

text \<open>\<^verbatim>\<open>String::from_utf8\<close>: the whole input must decode.\<close>

function from_utf8 :: "bytes \<Rightarrow> rstr option" where
  "from_utf8 bs =
     (if bs = [] then Some []
      else case utf8_head bs of
             None \<Rightarrow> None
           | Some (c, r) \<Rightarrow> map_option (Cons c) (from_utf8 r))"
  by pat_completeness auto
termination
  by (relation "measure length") (auto dest: utf8_head_shorter)

declare from_utf8.simps [simp del]

lemma cont_byte: "x < 64 \<Longrightarrow> cont (byte_of (128 + x)) = Some x"
  by (simp add: cont_def)

lemma split64: "64 * (c div (k * 64)) + c div k mod 64 = c div k" for c k :: nat
  by (simp add: div_mult2_eq)

lemma utf8_head_char: "scalar c \<Longrightarrow> utf8_head (utf8_char c @ r) = Some (c, r)"
proof -
  assume sc: "scalar c"
  consider (one) "c < 0x80" | (two) "0x80 \<le> c" "c < 0x800"
    | (three) "0x800 \<le> c" "c < 0x10000" | (four) "0x10000 \<le> c" "c < 0x110000"
    using sc by (fastforce simp: scalar_def)
  then show ?thesis
  proof cases
    case one
    then show ?thesis by (simp add: utf8_char_def utf8_head_def)
  next
    case two
    define q where "q = c div 64"
    have h: "q < 32" using two unfolding q_def by (simp add: less_mult_imp_div_less)
    have h2: "2 \<le> q" using two div_le_mono [of 128 c 64] by (simp add: q_def)
    have "64 * q + c mod 64 = c" by (simp add: q_def)
    with two h h2 show ?thesis
      by (simp add: utf8_char_def utf8_head_def cont_byte Let_def flip: q_def)
  next
    case three
    then have h: "c div 4096 < 16" by (simp add: less_mult_imp_div_less)
    have "c div 4096 * 4096 + c div 64 mod 64 * 64 + c mod 64 = c"
      using split64 [of c 64, simplified] mult_div_mod_eq [of 64 c] by linarith
    with three h sc show ?thesis
      by (simp add: utf8_char_def utf8_head_def cont_byte Let_def)
  next
    case four
    then have h: "c div 262144 < 5" by (simp add: less_mult_imp_div_less)
    have "c div 262144 * 262144 + c div 4096 mod 64 * 4096 + c div 64 mod 64 * 64 + c mod 64 = c"
      using split64 [of c 4096, simplified] split64 [of c 64, simplified] mult_div_mod_eq [of 64 c] by linarith
    with four h sc show ?thesis
      by (simp add: utf8_char_def utf8_head_def cont_byte Let_def)
  qed
qed

lemma utf8_char_nonempty [simp]: "utf8_char c \<noteq> []"
  by (simp add: utf8_char_def)

lemma from_utf8_as_bytes: "rust_str s \<Longrightarrow> from_utf8 (as_bytes s) = Some s"
proof (induction s)
  case Nil
  then show ?case by (simp add: as_bytes_def from_utf8.simps)
next
  case (Cons c s)
  then have "utf8_head (utf8_char c @ as_bytes s) = Some (c, as_bytes s)"
    by (simp add: utf8_head_char rust_str_def)
  with Cons show ?case
    by (subst from_utf8.simps) (simp add: as_bytes_def rust_str_def)
qed

lemma utf8_head_scalar: "utf8_head bs = Some (c, r) \<Longrightarrow> scalar c"
  by (auto simp: utf8_head_def Let_def scalar_def cont_def
      split: list.splits if_splits option.splits)

lemma from_utf8_rust_str: "from_utf8 bs = Some s \<Longrightarrow> rust_str s"
proof (induction bs arbitrary: s rule: from_utf8.induct)
  case (1 bs)
  from "1.prems" show ?case
    using "1.IH" by (subst (asm) from_utf8.simps)
      (auto simp: rust_str_def dest: utf8_head_scalar split: if_splits option.splits)
qed

interpretation utf8: wire_codec rust_str as_bytes from_utf8
  by unfold_locales (rule from_utf8_as_bytes)

subsection \<open>Operations on strings\<close>

text \<open>Unicode White_Space, what \<^verbatim>\<open>str::trim\<close> removes at both ends.\<close>

definition is_white :: "nat \<Rightarrow> bool" where
  "is_white c \<longleftrightarrow> 9 \<le> c \<and> c \<le> 13 \<or> c = 32 \<or> c = 0x85 \<or> c = 0xA0 \<or> c = 0x1680 \<or>
     0x2000 \<le> c \<and> c \<le> 0x200A \<or> c = 0x2028 \<or> c = 0x2029 \<or> c = 0x202F \<or> c = 0x205F \<or>
     c = 0x3000"

definition trim :: "rstr \<Rightarrow> rstr" where
  "trim s = rev (dropWhile is_white (rev (dropWhile is_white s)))"

fun split_inclusive :: "rstr \<Rightarrow> rstr list" where
  "split_inclusive [] = []"
| "split_inclusive (c # cs) =
     (if c = 10 then [c] # split_inclusive cs
      else case split_inclusive cs of [] \<Rightarrow> [[c]] | l # ls \<Rightarrow> (c # l) # ls)"

text \<open>One line without its line feed and the carriage return before it.\<close>

definition strip_eol :: "rstr \<Rightarrow> rstr" where
  "strip_eol l =
     (if l \<noteq> [] \<and> last l = 10 then
        (let m = butlast l in if m \<noteq> [] \<and> last m = 13 then butlast m else m)
      else l)"

definition lines :: "rstr \<Rightarrow> rstr list" where
  "lines s = map strip_eol (split_inclusive s)"

fun split_once :: "nat \<Rightarrow> rstr \<Rightarrow> (rstr \<times> rstr) option" where
  "split_once d [] = None"
| "split_once d (c # cs) =
     (if c = d then Some ([], cs)
      else map_option (\<lambda>(a, b). (c # a, b)) (split_once d cs))"

definition rsplit_once :: "nat \<Rightarrow> rstr \<Rightarrow> (rstr \<times> rstr) option" where
  "rsplit_once d s = map_option (\<lambda>(a, b). (rev b, rev a)) (split_once d (rev s))"

definition strip_prefix :: "rstr \<Rightarrow> rstr \<Rightarrow> rstr option" where
  "strip_prefix p s = (if prefix p s then Some (drop (length p) s) else None)"

text \<open>Decimal formatting of an unsigned integer.\<close>

fun show_nat :: "nat \<Rightarrow> rstr" where
  "show_nat n = (if n < 10 then [48 + n] else show_nat (n div 10) @ [48 + n mod 10])"

declare show_nat.simps [simp del]

lemma split_once_append: "d \<notin> set a \<Longrightarrow> split_once d (a @ d # b) = Some (a, b)"
  by (induction a) auto

lemma split_once_None [simp]: "split_once d s = None \<longleftrightarrow> d \<notin> set s"
  by (induction s) auto

lemma split_once_Some: "split_once d s = Some (a, b) \<Longrightarrow> s = a @ d # b \<and> d \<notin> set a"
  by (induction s arbitrary: a) (auto split: if_splits)

lemma rsplit_once_append: "d \<notin> set b \<Longrightarrow> rsplit_once d (a @ d # b) = Some (a, b)"
  by (simp add: rsplit_once_def split_once_append)

lemma rsplit_once_None [simp]: "rsplit_once d s = None \<longleftrightarrow> d \<notin> set s"
  by (simp add: rsplit_once_def)

lemma rsplit_once_Some: "rsplit_once d s = Some (a, b) \<Longrightarrow> s = a @ d # b \<and> d \<notin> set b"
  by (auto simp: rsplit_once_def dest!: split_once_Some) (metis append.assoc append_Cons append_Nil
      rev.simps(2) rev_append rev_rev_ident)

text \<open>A text of newline-terminated lines is split back into those lines.\<close>

lemma split_inclusive_line:
  "10 \<notin> set l \<Longrightarrow> split_inclusive (l @ 10 # s) = (l @ [10]) # split_inclusive s"
  by (induction l) auto

lemma lines_line:
  "10 \<notin> set l \<Longrightarrow> l = [] \<or> last l \<noteq> 13 \<Longrightarrow> lines (l @ 10 # s) = l # lines s"
  by (auto simp: lines_def split_inclusive_line strip_eol_def Let_def butlast_append)

lemma lines_Nil [simp]: "lines [] = []"
  by (simp add: lines_def)

lemma trim_no_white_end: "trim s \<noteq> [] \<Longrightarrow> \<not> is_white (last (trim s))"
  using hd_dropWhile [of is_white "rev (dropWhile is_white s)"]
  by (auto simp: trim_def last_rev)

lemma set_trim: "set (trim s) \<subseteq> set s"
proof
  fix c
  assume "c \<in> set (trim s)"
  then have "c \<in> set (dropWhile is_white (rev (dropWhile is_white s)))" by (simp add: trim_def)
  then have "c \<in> set (rev (dropWhile is_white s))" by (rule set_dropWhileD)
  then have "c \<in> set (dropWhile is_white s)" by simp
  then show "c \<in> set s" by (rule set_dropWhileD)
qed

lemma trim_prefix: "prefix (trim s) (dropWhile is_white s)"
  using suffix_dropWhile [of is_white "rev (dropWhile is_white s)"]
  by (simp add: trim_def suffix_to_prefix)

lemma trim_fix:
  "s = [] \<or> \<not> is_white (hd s) \<and> \<not> is_white (last s) \<Longrightarrow> trim s = s"
proof -
  assume h: "s = [] \<or> \<not> is_white (hd s) \<and> \<not> is_white (last s)"
  have "dropWhile is_white s = s" using h by (cases s) auto
  moreover have "dropWhile is_white (rev s) = rev s" using h by (cases s rule: rev_cases) auto
  ultimately show ?thesis by (simp add: trim_def)
qed

lemma trim_no_white_start: "trim s \<noteq> [] \<Longrightarrow> \<not> is_white (hd (trim s))"
proof -
  assume ne: "trim s \<noteq> []"
  obtain z where z: "dropWhile is_white s = trim s @ z"
    using trim_prefix by (auto simp: prefix_def)
  then have "hd (dropWhile is_white s) = hd (trim s)" using ne by simp
  moreover have "\<not> is_white (hd (dropWhile is_white s))"
    using hd_dropWhile ne z by (metis append_is_Nil_conv)
  ultimately show ?thesis by simp
qed

lemma trim_trim [simp]: "trim (trim s) = trim s"
  using trim_fix trim_no_white_start trim_no_white_end by blast

end
