(* ===== verification/Rust_Fs.thy ===== *)
theory Rust_Fs
  imports Rust_Std "HOL-Library.AList"
begin

text \<open>
  The file system of \<^verbatim>\<open>std::fs\<close>, as far as the program uses it. A disk is a finite map from
  paths to nodes together with a table of faults: an operation with a fault fails with that
  error, so every I/O error branch of the program can be reached. A \<open>DbNode\<close> is the directory
  an embedded database lives in; its content is opaque to the file system.
\<close>

section \<open>Disks\<close>

datatype io_error =
  NotFoundKind | PermissionDeniedKind | UnexpectedEof | AlreadyExists | NotADirectoryKind
| IsADirectory | InvalidData | OtherKind

type_synonym path = "rstr list"

datatype 'd node = FileNode bytes | DirNode | DbNode 'd

datatype fs_op = OpenRead | ReadData | OpenWrite | WriteData | MakeDir | RemoveTree | ReadDir

record 'd disk =
  nodes :: "(path \<times> 'd node) list"
  fault :: "fs_op \<Rightarrow> path \<Rightarrow> io_error option"

definition node_at :: "'d disk \<Rightarrow> path \<Rightarrow> 'd node option" where
  "node_at d p = map_of (nodes d) p"

definition put_node :: "path \<Rightarrow> 'd node \<Rightarrow> 'd disk \<Rightarrow> 'd disk" where
  "put_node p n d = d\<lparr>nodes := AList.update p n (nodes d)\<rparr>"

definition remove_tree :: "path \<Rightarrow> 'd disk \<Rightarrow> 'd disk" where
  "remove_tree p d = d\<lparr>nodes := filter (\<lambda>(q, _). \<not> prefix p q) (nodes d)\<rparr>"

text \<open>The root directory always exists.\<close>

definition is_dir :: "'d disk \<Rightarrow> path \<Rightarrow> bool" where
  "is_dir d p \<longleftrightarrow> p = [] \<or> (case node_at d p of Some DirNode \<Rightarrow> True | Some (DbNode _) \<Rightarrow> True | _ \<Rightarrow> False)"

definition exists :: "'d disk \<Rightarrow> path \<Rightarrow> bool" where
  "exists d p \<longleftrightarrow> p = [] \<or> node_at d p \<noteq> None"

lemma node_at_put [simp, disk_simps]:
  "node_at (put_node p n d) q = (if q = p then Some n else node_at d q)"
  by (simp add: node_at_def put_node_def update_conv')

lemma fault_put [simp, disk_simps]: "fault (put_node p n d) = fault d"
  by (simp add: put_node_def)

lemma map_of_filter_key:
  "map_of (filter (\<lambda>(q, _). P q) ns) q = (if P q then map_of ns q else None)"
  by (induction ns) auto

lemma node_at_remove_tree [simp, disk_simps]:
  "node_at (remove_tree p d) q = (if prefix p q then None else node_at d q)"
  by (simp add: node_at_def remove_tree_def map_of_filter_key)

lemma fault_remove_tree [simp, disk_simps]: "fault (remove_tree p d) = fault d"
  by (simp add: remove_tree_def)

text \<open>The proper prefixes of a path and the path itself, shortest first, without the root.\<close>

definition ancestors :: "path \<Rightarrow> path list" where
  "ancestors p = tl (prefixes p)"

section \<open>Operations\<close>

definition faulty :: "fs_op \<Rightarrow> path \<Rightarrow> ('d disk, io_error, 'a) op \<Rightarrow> ('d disk, io_error, 'a) op" where
  "faulty k p act d = (case fault d k p of Some e \<Rightarrow> (Inl e, d) | None \<Rightarrow> act d)"

lemma faulty_simps [simp, disk_simps]:
  "fault d k p = None \<Longrightarrow> faulty k p act d = act d"
  "fault d k p = Some e \<Longrightarrow> faulty k p act d = (Inl e, d)"
  by (simp_all add: faulty_def)

text \<open>\<^verbatim>\<open>OpenOptions::new().read(true).open(p)\<close>: directories can be opened, not read.\<close>

definition fs_open_read :: "path \<Rightarrow> ('d disk, io_error, unit) op" where
  "fs_open_read p = faulty OpenRead p (\<lambda>d.
     if exists d p then (Inr (), d) else (Inl NotFoundKind, d))"

definition fs_contents :: "path \<Rightarrow> ('d disk, io_error, bytes) op" where
  "fs_contents p = faulty ReadData p (\<lambda>d. case node_at d p of
     Some (FileNode b) \<Rightarrow> (Inr b, d) | _ \<Rightarrow> (Inl IsADirectory, d))"

text \<open>\<^verbatim>\<open>read_exact\<close> on the open file: the first \<open>n\<close> bytes, or an error when there are fewer.\<close>

definition fs_read_exact :: "path \<Rightarrow> nat \<Rightarrow> ('d disk, io_error, bytes) op" where
  "fs_read_exact p n = op_bind (fs_contents p) (\<lambda>b.
     if length b < n then op_lift (Inl UnexpectedEof) else op_ret (take n b))"

text \<open>\<^verbatim>\<open>std::fs::read_to_string\<close>.\<close>

definition read_to_string :: "path \<Rightarrow> ('d disk, io_error, rstr) op" where
  "read_to_string p = op_bind (fs_open_read p) (\<lambda>_. op_bind (fs_contents p) (\<lambda>b.
     op_lift (ok_or InvalidData (from_utf8 b))))"

text \<open>\<^verbatim>\<open>options.write(true).truncate(true).create(true).open(p)\<close>: an empty file afterwards.\<close>

definition fs_open_trunc :: "path \<Rightarrow> ('d disk, io_error, unit) op" where
  "fs_open_trunc p = faulty OpenWrite p (\<lambda>d.
     if is_dir d p then (Inl IsADirectory, d)
     else if \<not> is_dir d (butlast p) then (Inl NotFoundKind, d)
     else (Inr (), put_node p (FileNode []) d))"

text \<open>\<^verbatim>\<open>write_all\<close> on the file just truncated.\<close>

definition fs_write_all :: "path \<Rightarrow> bytes \<Rightarrow> ('d disk, io_error, unit) op" where
  "fs_write_all p b = faulty WriteData p (\<lambda>d. (Inr (), put_node p (FileNode b) d))"

definition fs_write :: "path \<Rightarrow> bytes \<Rightarrow> ('d disk, io_error, unit) op" where
  "fs_write p b = op_bind (fs_open_trunc p) (\<lambda>_. fs_write_all p b)"

definition fs_create_dir_all :: "path \<Rightarrow> ('d disk, io_error, unit) op" where
  "fs_create_dir_all p = faulty MakeDir p (\<lambda>d.
     if list_all (\<lambda>q. is_dir d q \<or> \<not> exists d q) (ancestors p)
     then (Inr (), fold (\<lambda>q d'. if exists d' q then d' else put_node q DirNode d') (ancestors p) d)
     else (Inl AlreadyExists, d))"

definition fs_remove_dir_all :: "path \<Rightarrow> ('d disk, io_error, unit) op" where
  "fs_remove_dir_all p = faulty RemoveTree p (\<lambda>d.
     if \<not> exists d p then (Inl NotFoundKind, d)
     else if \<not> is_dir d p then (Inl NotADirectoryKind, d)
     else (Inr (), remove_tree p d))"

text \<open>The entries of a directory; the order is whatever the disk holds.\<close>

definition children :: "'d disk \<Rightarrow> path \<Rightarrow> path list" where
  "children d p = filter (\<lambda>q. q \<noteq> [] \<and> butlast q = p) (remdups (map fst (nodes d)))"

definition fs_read_dir :: "path \<Rightarrow> ('d disk, io_error, path list) op" where
  "fs_read_dir p = faulty ReadDir p (\<lambda>d.
     if \<not> exists d p then (Inl NotFoundKind, d)
     else case node_at d p of
            Some (FileNode _) \<Rightarrow> (Inl NotADirectoryKind, d)
          | _ \<Rightarrow> (Inr (children d p), d))"

section \<open>Laws\<close>

lemma in_children: "q \<in> set (children d p) \<longleftrightarrow> q \<noteq> [] \<and> butlast q = p \<and> node_at d q \<noteq> None"
  by (auto simp: children_def node_at_def map_of_eq_None_iff)

lemma distinct_children [simp]: "distinct (children d p)"
  by (simp add: children_def)

lemma ancestors_iff: "q \<in> set (ancestors p) \<longleftrightarrow> q \<noteq> [] \<and> prefix q p"
proof -
  have "prefixes p = [] # ancestors p"
    by (simp add: ancestors_def) (metis hd_prefixes list.collapse prefixes_not_Nil)
  moreover have "[] \<notin> set (ancestors p)"
    using calculation distinct_prefixes [of p] by (metis distinct.simps(2))
  ultimately show ?thesis by (metis in_set_prefixes set_ConsD list.set_intros(2))
qed

text \<open>The disk after the directories of a list were created where nothing existed.\<close>

lemma fold_mkdir:
  fixes d :: "'d disk"
  defines "mk \<equiv> \<lambda>q (d' :: 'd disk). if exists d' q then d' else put_node q DirNode d'"
  shows "node_at (fold mk qs d) q =
           (if q \<in> set qs \<and> q \<noteq> [] \<and> node_at d q = None then Some DirNode else node_at d q)
         \<and> fault (fold mk qs d) = fault d"
  by (induction qs arbitrary: d) (auto simp: mk_def exists_def)

lemma create_dir_all_ok:
  assumes "fs_create_dir_all p d = (Inr u, d')"
  shows "node_at d' q = (if q \<noteq> [] \<and> prefix q p \<and> node_at d q = None then Some DirNode else node_at d q)"
    and "fault d' = fault d" and "prefix q p \<Longrightarrow> is_dir d' q"
proof -
  have all: "\<forall>q. q \<noteq> [] \<and> prefix q p \<longrightarrow> is_dir d q \<or> \<not> exists d q"
    and d': "d' = fold (\<lambda>q d'. if exists d' q then d' else put_node q DirNode d') (ancestors p) d"
    using assms
    by (auto simp: fs_create_dir_all_def faulty_def list_all_iff ancestors_iff
        split: option.splits if_splits)
  show n: "node_at d' q = (if q \<noteq> [] \<and> prefix q p \<and> node_at d q = None then Some DirNode else node_at d q)" for q
    using fold_mkdir [of "ancestors p" d q] by (auto simp: d' ancestors_iff)
  show "fault d' = fault d" using fold_mkdir [of "ancestors p" d q] by (simp add: d')
  show "is_dir d' q" if "prefix q p"
    using all that by (auto simp: is_dir_def n exists_def split: option.splits node.splits)
qed

lemma fs_write_ok:
  assumes "fs_write p b d = (Inr u, d')"
  shows "d' = put_node p (FileNode b) (put_node p (FileNode []) d)" and "\<not> is_dir d p"
  using assms
  by (auto simp: fs_write_def op_bind_ok fs_open_trunc_def fs_write_all_def faulty_def
      split: option.splits if_splits)

end
