(* ===== verification/Crypto_Lib.thy ===== *)
theory Crypto_Lib
  imports Rust_Fs
begin

text \<open>
  The data of \<^verbatim>\<open>crates/crypto\<close> and the third-party code it calls. The primitives (SHA-256,
  HKDF, HMAC, Argon2, ChaCha20-Poly1305, X25519, Ed25519), the hex and MessagePack
  encoders, the home directory and the sled database are the fields of a record
  \<open>crypto_lib\<close> that every operation takes as its first argument. What the code relies on is
  stated in the predicates \<open>hkdf_ok\<close>, \<open>argon2_ok\<close>, \<open>aead_ok\<close>, \<open>dh_ok\<close>, \<open>ed_ok\<close>, \<open>hex_ok\<close>,
  \<open>msg_codec_ok\<close> and \<open>sled_ok\<close>, the named hypotheses of the properties. Random bytes drawn
  from the operating system are explicit arguments.
\<close>

section \<open>Data\<close>

datatype author = You | Peer

record message =
  msg_text :: rstr
  msg_author :: author
  msg_timestamp :: i64

definition from_parts :: "rstr \<Rightarrow> author \<Rightarrow> i64 \<Rightarrow> message" where
  "from_parts text a ts = \<lparr>msg_text = text, msg_author = a, msg_timestamp = ts\<rparr>"

text \<open>\<^verbatim>\<open>Message::new\<close>, at the time \<open>now\<close>.\<close>

definition new_message :: "i64 \<Rightarrow> rstr \<Rightarrow> author \<Rightarrow> message" where
  "new_message now text a = \<lparr>msg_text = text, msg_author = a, msg_timestamp = now\<rparr>"

record messages =
  ms_data :: "message list"
  ms_peer :: rstr

text \<open>Keys are the 32 bytes their Rust types wrap.\<close>

record peer_public =
  pk_public :: bytes
  pk_verifying :: bytes

definition wf_peer :: "peer_public \<Rightarrow> bool" where
  "wf_peer p \<longleftrightarrow> length (pk_public p) = 32 \<and> length (pk_verifying p) = 32"

record keys =
  x25519_priv :: bytes
  x25519_pub :: bytes
  ed25519_signing :: bytes
  ed25519_verifying :: bytes

record file_data =
  fd_salt :: bytes
  fd_nonce :: bytes
  fd_ciphertext :: bytes
  fd_pubkey :: bytes

datatype crypto_errors =
  CryptographicError | NotADirectory rstr | PermissionDenied | BadPermission | NotFound rstr
| Other io_error | CorruptedFile

section \<open>Third-party code\<close>

record 'd crypto_lib =
  home :: path
  io_display :: "io_error \<Rightarrow> rstr"
  sha256 :: "bytes \<Rightarrow> bytes"
  hkdf_expand :: "bytes \<Rightarrow> bytes \<Rightarrow> nat \<Rightarrow> bytes option"
  hmac_sha256 :: "bytes \<Rightarrow> bytes \<Rightarrow> bytes"
  argon2_hash :: "bytes \<Rightarrow> bytes \<Rightarrow> nat \<Rightarrow> bytes option"
  aead_encrypt :: "bytes \<Rightarrow> bytes \<Rightarrow> bytes \<Rightarrow> bytes option"
  aead_decrypt :: "bytes \<Rightarrow> bytes \<Rightarrow> bytes \<Rightarrow> bytes option"
  x25519_public :: "bytes \<Rightarrow> bytes"
  diffie_hellman :: "bytes \<Rightarrow> bytes \<Rightarrow> bytes"
  ed_public :: "bytes \<Rightarrow> bytes"
  ed_valid :: "bytes \<Rightarrow> bool"
  ed_sign :: "bytes \<Rightarrow> bytes \<Rightarrow> bytes"
  ed_sig_valid :: "bytes \<Rightarrow> bool"
  ed_verify :: "bytes \<Rightarrow> bytes \<Rightarrow> bytes \<Rightarrow> bool"
  hex_encode :: "bytes \<Rightarrow> rstr"
  hex_decode :: "rstr \<Rightarrow> bytes option"
  msg_to_vec :: "message \<Rightarrow> bytes option"
  msg_from_slice :: "bytes \<Rightarrow> message option"
  sled_open :: "path \<Rightarrow> 'd disk \<Rightarrow> 'd option \<times> 'd disk"
  sled_iter :: "'d \<Rightarrow> (bytes \<times> bytes) option list"
  sled_last :: "'d \<Rightarrow> (bytes \<times> bytes) option option"
  sled_insert :: "'d \<Rightarrow> bytes \<Rightarrow> bytes \<Rightarrow> 'd option"
  sled_remove :: "'d \<Rightarrow> bytes \<Rightarrow> 'd option"

text \<open>HKDF-SHA256 yields up to 255 blocks of 32 bytes and fails beyond that.\<close>

definition hkdf_ok :: "'d crypto_lib \<Rightarrow> bool" where
  "hkdf_ok L \<longleftrightarrow> (\<forall>ikm info n. n \<le> 8160 \<longrightarrow>
     (\<exists>k. hkdf_expand L ikm info n = Some k \<and> length k = n))"

text \<open>Argon2 fills the whole output buffer.\<close>

definition argon2_ok :: "'d crypto_lib \<Rightarrow> bool" where
  "argon2_ok L \<longleftrightarrow> (\<forall>p s n k. argon2_hash L p s n = Some k \<longrightarrow> length k = n)"

text \<open>
  ChaCha20-Poly1305 encrypts plaintexts of up to \<open>2 ^ 38 - 64\<close> bytes, decryption under the
  same key and nonce returns them, and a ciphertext is 16 bytes longer than its plaintext.
\<close>

definition aead_ok :: "'d crypto_lib \<Rightarrow> bool" where
  "aead_ok L \<longleftrightarrow>
     (\<forall>k n p. length k = 32 \<longrightarrow> length n = 12 \<longrightarrow> length p \<le> 274877906880 \<longrightarrow>
        (\<exists>c. aead_encrypt L k n p = Some c \<and> aead_decrypt L k n c = Some p))
     \<and> (\<forall>k n p c. length k = 32 \<longrightarrow> length n = 12 \<longrightarrow> aead_encrypt L k n p = Some c \<longrightarrow>
          aead_decrypt L k n c = Some p)
     \<and> (\<forall>k n p c. aead_encrypt L k n p = Some c \<longrightarrow> length c = length p + 16)
     \<and> (\<forall>k n p c. aead_decrypt L k n c = Some p \<longrightarrow> length c = length p + 16)"

text \<open>X25519: both sides of a key agreement compute the same 32 bytes.\<close>

definition dh_ok :: "'d crypto_lib \<Rightarrow> bool" where
  "dh_ok L \<longleftrightarrow> (\<forall>a b. length a = 32 \<longrightarrow> length b = 32 \<longrightarrow>
     diffie_hellman L a (x25519_public L b) = diffie_hellman L b (x25519_public L a)
     \<and> length (x25519_public L a) = 32)"

text \<open>Ed25519: signatures have 64 bytes and verify under the signer's verifying key.\<close>

definition ed_ok :: "'d crypto_lib \<Rightarrow> bool" where
  "ed_ok L \<longleftrightarrow> (\<forall>k m. length k = 32 \<longrightarrow>
     length (ed_public L k) = 32 \<and> ed_valid L (ed_public L k)
     \<and> length (ed_sign L k m) = 64 \<and> ed_sig_valid L (ed_sign L k m)
     \<and> ed_verify L (ed_public L k) m (ed_sign L k m))"

definition hex_digit :: "nat \<Rightarrow> bool" where
  "hex_digit c \<longleftrightarrow> 48 \<le> c \<and> c \<le> 57 \<or> 97 \<le> c \<and> c \<le> 102"

text \<open>Hex: two lower-case digits per byte, decoded back to the same bytes.\<close>

definition hex_ok :: "'d crypto_lib \<Rightarrow> bool" where
  "hex_ok L \<longleftrightarrow> (\<forall>b. hex_decode L (hex_encode L b) = Some b
     \<and> list_all hex_digit (hex_encode L b) \<and> length (hex_encode L b) = 2 * length b)"

text \<open>MessagePack: what was serialised deserialises to the same message.\<close>

definition msg_codec_ok :: "'d crypto_lib \<Rightarrow> bool" where
  "msg_codec_ok L \<longleftrightarrow> (\<forall>m b. msg_to_vec L m = Some b \<longrightarrow> msg_from_slice L b = Some m)"

definition sha_ok :: "'d crypto_lib \<Rightarrow> bool" where
  "sha_ok L \<longleftrightarrow> (\<forall>b. length (sha256 L b) = 32)"

text \<open>
  A sled tree is an ordered map from byte strings to byte strings: \<open>a d\<close> lists its entries
  by increasing key. \<^verbatim>\<open>open\<close> returns the tree stored at the path, an empty one where there was
  nothing, and touches nothing else but missing directories.
\<close>

definition sled_map_ok :: "'d crypto_lib \<Rightarrow> ('d \<Rightarrow> (bytes \<times> bytes) list) \<Rightarrow> bool" where
  "sled_map_ok L a \<longleftrightarrow> (\<forall>d.
     sorted (map fst (a d)) \<and> distinct (map fst (a d))
     \<and> sled_iter L d = map Some (a d)
     \<and> sled_last L d = Some (if a d = [] then None else Some (last (a d)))
     \<and> (\<forall>k v. \<exists>d'. sled_insert L d k v = Some d' \<and> map_of (a d') = (map_of (a d))(k \<mapsto> v))
     \<and> (\<forall>k. \<exists>d'. sled_remove L d k = Some d' \<and> map_of (a d') = (map_of (a d))(k := None)))"

definition sled_open_ok :: "'d crypto_lib \<Rightarrow> ('d \<Rightarrow> (bytes \<times> bytes) list) \<Rightarrow> bool" where
  "sled_open_ok L a \<longleftrightarrow> (\<forall>p s r s'. sled_open L p s = (r, s') \<longrightarrow>
     fault s' = fault s
     \<and> (\<forall>q n. q \<noteq> p \<longrightarrow> node_at s q = Some n \<longrightarrow> node_at s' q = Some n)
     \<and> (\<forall>q. q \<noteq> p \<longrightarrow> node_at s q = None \<longrightarrow> node_at s' q = None \<or> node_at s' q = Some DirNode)
     \<and> (\<forall>d. r = Some d \<longrightarrow> node_at s' p = Some (DbNode d))
     \<and> (\<forall>d. node_at s p = Some (DbNode d) \<longrightarrow> r = Some d)
     \<and> (\<forall>d. node_at s p = None \<longrightarrow> r = Some d \<longrightarrow> a d = []))"

definition sled_ok :: "'d crypto_lib \<Rightarrow> ('d \<Rightarrow> (bytes \<times> bytes) list) \<Rightarrow> bool" where
  "sled_ok L a \<longleftrightarrow> sled_map_ok L a \<and> sled_open_ok L a"

section \<open>Error messages\<close>

text \<open>\<^verbatim>\<open>impl Display for CryptoErrors\<close>.\<close>

fun show_crypto_errors :: "'d crypto_lib \<Rightarrow> crypto_errors \<Rightarrow> rstr" where
  "show_crypto_errors L CryptographicError = lit ''Cryptographic error''"
| "show_crypto_errors L (NotADirectory s) = lit ''Not a directory: '' @ s"
| "show_crypto_errors L PermissionDenied = lit ''Permission denied''"
| "show_crypto_errors L BadPermission = lit ''Bad file permission''"
| "show_crypto_errors L (NotFound s) = lit ''Not found: '' @ s"
| "show_crypto_errors L (Other e) = lit ''IO error: '' @ io_display L e"
| "show_crypto_errors L CorruptedFile = lit ''Corrupted file''"

section \<open>Directories\<close>

definition sechat_dir :: "'d crypto_lib \<Rightarrow> path" where
  "sechat_dir L = home L @ [lit ''.sechat'']"

definition peers_dir :: "'d crypto_lib \<Rightarrow> path" where
  "peers_dir L = sechat_dir L @ [lit ''peers'']"

definition pending_dir :: "'d crypto_lib \<Rightarrow> path" where
  "pending_dir L = sechat_dir L @ [lit ''pending'']"

text \<open>The directory of one peer, its key file and its conversation.\<close>

definition peer_path :: "'d crypto_lib \<Rightarrow> bytes \<Rightarrow> path" where
  "peer_path L h = peers_dir L @ [hex_encode L h]"

definition peer_pub_path :: "'d crypto_lib \<Rightarrow> bytes \<Rightarrow> path" where
  "peer_pub_path L h = peer_path L h @ [lit ''peer.pub'']"

definition chat_path :: "'d crypto_lib \<Rightarrow> bytes \<Rightarrow> path" where
  "chat_path L h = peer_path L h @ [lit ''chat.db'']"

section \<open>Facts shared by the crypto components\<close>

lemma lit_eq_iff [simp]: "lit a = lit b \<longleftrightarrow> a = b"
proof -
  have "inj (of_char :: char \<Rightarrow> nat)" by (rule inj_of_char)
  then show ?thesis by (simp add: lit_def inj_map_eq_map)
qed

lemma hkdf_okE:
  assumes "hkdf_ok L" and "n \<le> 8160"
  obtains k where "hkdf_expand L ikm info n = Some k" and "length k = n"
  using assms unfolding hkdf_ok_def by blast

lemma aead_okE:
  assumes "aead_ok L" and "length k = 32" and "length n = 12" and "length p \<le> 274877906880"
  obtains c where "aead_encrypt L k n p = Some c" and "aead_decrypt L k n c = Some p"
    and "length c = length p + 16"
  using assms unfolding aead_ok_def by blast

lemma aead_okD:
  "aead_ok L \<Longrightarrow> length k = 32 \<Longrightarrow> length n = 12 \<Longrightarrow> aead_encrypt L k n p = Some c \<Longrightarrow> aead_decrypt L k n c = Some p"
  unfolding aead_ok_def by blast

lemma hkdf_length: "hkdf_ok L \<Longrightarrow> n \<le> 8160 \<Longrightarrow> hkdf_expand L ikm info n = Some k \<Longrightarrow> length k = n"
  unfolding hkdf_ok_def by (metis option.inject)

lemma aead_dec_length:
  "aead_ok L \<Longrightarrow> aead_decrypt L k n c = Some p \<Longrightarrow> length c = length p + 16"
  unfolding aead_ok_def by blast

lemma hex_inj: "hex_ok L \<Longrightarrow> hex_encode L a = hex_encode L b \<longleftrightarrow> a = b"
  unfolding hex_ok_def by (metis option.inject)

lemma peer_path_eq: "hex_ok L \<Longrightarrow> peer_path L a = peer_path L b \<longleftrightarrow> a = b"
  by (simp add: peer_path_def hex_inj)

lemmas path_defs = sechat_dir_def peers_dir_def peer_path_def peer_pub_path_def chat_path_def

lemma ed_okD:
  assumes "ed_ok L" and "length k = 32"
  shows "length (ed_public L k) = 32" "ed_valid L (ed_public L k)" "length (ed_sign L k m) = 64"
    "ed_sig_valid L (ed_sign L k m)" "ed_verify L (ed_public L k) m (ed_sign L k m)"
  using assms unfolding ed_ok_def by blast+

lemma dh_comm:
  "dh_ok L \<Longrightarrow> length a = 32 \<Longrightarrow> length b = 32 \<Longrightarrow>
    diffie_hellman L a (x25519_public L b) = diffie_hellman L b (x25519_public L a)"
  unfolding dh_ok_def by blast

lemma sled_okD:
  assumes "sled_map_ok L a"
  shows "sorted (map fst (a d))" "distinct (map fst (a d))" "sled_iter L d = map Some (a d)"
    "sled_last L d = Some (if a d = [] then None else Some (last (a d)))"
  using assms unfolding sled_map_ok_def by blast+

end
