(* ===== verification/Crypto_Example.thy ===== *)
theory Crypto_Example
  imports Crypto_Lib
begin

text \<open>
  A concrete \<open>crypto_lib\<close> at which the witnesses of the development evaluate. It satisfies every
  law of \<open>Crypto_Lib\<close>; it is not cryptography, only a model of the hypotheses (so that
  they are seen to be satisfiable together).
\<close>

section \<open>Definitions\<close>

definition demo_pad :: "nat \<Rightarrow> bytes \<Rightarrow> bytes" where
  "demo_pad n b = take n (b @ replicate n 0)"

definition demo_tag :: "bytes \<Rightarrow> bytes \<Rightarrow> bytes" where
  "demo_tag k n = demo_pad 16 (take 8 k @ take 8 n)"

definition demo_decrypt :: "bytes \<Rightarrow> bytes \<Rightarrow> bytes \<Rightarrow> bytes option" where
  "demo_decrypt k n c =
     (if 16 \<le> length c \<and> drop (length c - 16) c = demo_tag k n
      then Some (take (length c - 16) c) else None)"

definition hex_char :: "nat \<Rightarrow> nat" where
  "hex_char n = (if n < 10 then 48 + n else 87 + n)"

definition hex_val :: "nat \<Rightarrow> nat option" where
  "hex_val c = (if 48 \<le> c \<and> c \<le> 57 then Some (c - 48)
                else if 97 \<le> c \<and> c \<le> 102 then Some (c - 87)
                else if 65 \<le> c \<and> c \<le> 70 then Some (c - 55) else None)"

fun demo_hex :: "bytes \<Rightarrow> rstr" where
  "demo_hex [] = []"
| "demo_hex (b # bs) = hex_char (unat b div 16) # hex_char (unat b mod 16) # demo_hex bs"

fun demo_unhex :: "rstr \<Rightarrow> bytes option" where
  "demo_unhex [] = Some []"
| "demo_unhex [c] = None"
| "demo_unhex (c # e # s) =
     (case (hex_val c, hex_val e, demo_unhex s) of
        (Some x, Some y, Some bs) \<Rightarrow> Some (byte_of (16 * x + y) # bs) | _ \<Rightarrow> None)"

definition demo_msg_enc :: "message \<Rightarrow> bytes option" where
  "demo_msg_enc m =
     (if rust_str (msg_text m)
      then Some ((if msg_author m = You then 0 else 1) # to_le_bytes (msg_timestamp m) @ as_bytes (msg_text m))
      else None)"

definition demo_msg_dec :: "bytes \<Rightarrow> message option" where
  "demo_msg_dec b =
     (if length b < 9 then None
      else case (from_le_bytes (take 8 (drop 1 b)), from_utf8 (drop 9 b)) of
             (Some ts, Some t) \<Rightarrow> Some (from_parts t (if hd b = 0 then You else Peer) ts)
           | _ \<Rightarrow> None)"

type_synonym demo_db = "(bytes \<times> bytes) list"

definition demo_entries :: "demo_db \<Rightarrow> (bytes \<times> bytes) list" where
  "demo_entries d = map (\<lambda>k. (k, the (map_of d k))) (sort (remdups (map fst d)))"

definition demo_open :: "path \<Rightarrow> demo_db disk \<Rightarrow> demo_db option \<times> demo_db disk" where
  "demo_open p s = (case node_at s p of
     None \<Rightarrow> (Some [], put_node p (DbNode []) s)
   | Some (DbNode d) \<Rightarrow> (Some d, s)
   | Some _ \<Rightarrow> (None, s))"

definition demo_lib :: "demo_db crypto_lib" where
  "demo_lib = \<lparr>
     home = [], io_display = (\<lambda>_. []),
     sha256 = demo_pad 32,
     hkdf_expand = (\<lambda>ikm info n. if n \<le> 8160 then Some (demo_pad n (info @ ikm)) else None),
     hmac_sha256 = (\<lambda>k m. demo_pad 32 (m @ k)),
     argon2_hash = (\<lambda>p s n. Some (demo_pad n (p @ s))),
     aead_encrypt = (\<lambda>k n p. Some (p @ demo_tag k n)),
     aead_decrypt = demo_decrypt,
     x25519_public = (\<lambda>k. k),
     diffie_hellman = (\<lambda>a b. map2 (XOR) a b),
     ed_public = (\<lambda>k. k), ed_valid = (\<lambda>v. length v = 32),
     ed_sign = (\<lambda>k m. demo_pad 64 (k @ m)), ed_sig_valid = (\<lambda>s. length s = 64),
     ed_verify = (\<lambda>v m s. s = demo_pad 64 (v @ m)),
     hex_encode = demo_hex, hex_decode = demo_unhex,
     msg_to_vec = demo_msg_enc, msg_from_slice = demo_msg_dec,
     sled_open = demo_open,
     sled_iter = (\<lambda>d. map Some (demo_entries d)),
     sled_last = (\<lambda>d. Some (if demo_entries d = [] then None else Some (last (demo_entries d)))),
     sled_insert = (\<lambda>d k v. Some ((k, v) # d)),
     sled_remove = (\<lambda>d k. Some (filter (\<lambda>e. fst e \<noteq> k) d)) \<rparr>"

section \<open>The laws hold\<close>

lemma length_demo_pad [simp]: "length (demo_pad n b) = n"
  by (simp add: demo_pad_def)

lemma length_demo_tag [simp]: "length (demo_tag k n) = 16"
  by (simp add: demo_tag_def)

lemma demo_hkdf: "hkdf_ok demo_lib"
  by (simp add: hkdf_ok_def demo_lib_def)

lemma demo_argon2: "argon2_ok demo_lib"
  by (simp add: argon2_ok_def demo_lib_def)

lemma demo_sha: "sha_ok demo_lib"
  by (simp add: sha_ok_def demo_lib_def)

lemma demo_aead: "aead_ok demo_lib"
  by (auto simp: aead_ok_def demo_lib_def demo_decrypt_def split: if_splits)

lemma demo_dh: "dh_ok demo_lib"
proof -
  have "map2 (XOR) a b = map2 (XOR) b (a :: bytes)" for a b
    by (induction a b rule: list_induct2') (simp_all add: xor.commute)
  then show ?thesis by (simp add: dh_ok_def demo_lib_def)
qed

lemma demo_ed: "ed_ok demo_lib"
  by (simp add: ed_ok_def demo_lib_def)

lemma hex_val_char: "n < 16 \<Longrightarrow> hex_val (hex_char n) = Some n"
  by (simp add: hex_val_def hex_char_def)

lemma hex_digit_char: "n < 16 \<Longrightarrow> hex_digit (hex_char n)"
  by (auto simp: hex_digit_def hex_char_def)

lemma unat_byte_lt: "unat (b :: byte) < 256"
  using unsigned_less [of b, where ?'a = nat] by simp

lemma demo_hex_laws:
  "demo_unhex (demo_hex b) = Some b \<and> list_all hex_digit (demo_hex b) \<and> length (demo_hex b) = 2 * length b"
proof (induction b)
  case (Cons x b)
  have "unat x div 16 < 16" using unat_byte_lt [of x] by (simp add: less_mult_imp_div_less)
  moreover have "unat x mod 16 < 16" by simp
  moreover have "byte_of (16 * (unat x div 16) + unat x mod 16) = x" by (simp add: byte_of_def)
  ultimately show ?case using Cons by (simp add: hex_val_char hex_digit_char)
qed simp

lemma demo_hex_ok: "hex_ok demo_lib"
  using demo_hex_laws by (simp add: hex_ok_def demo_lib_def)

lemma demo_msg_codec: "msg_codec_ok demo_lib"
proof -
  have "demo_msg_dec b = Some m" if "demo_msg_enc m = Some b" for m b
    using that
    by (cases m; cases "msg_author m")
      (auto simp: demo_msg_enc_def demo_msg_dec_def from_utf8_as_bytes from_parts_def split: if_splits)
  then show ?thesis by (simp add: msg_codec_ok_def demo_lib_def)
qed

lemma keys_demo_entries: "map fst (demo_entries d) = sort (remdups (map fst d))"
  by (simp add: demo_entries_def comp_def)

lemma map_of_demo_entries: "map_of (demo_entries d) = map_of d"
proof
  fix k
  have "map_of (demo_entries d) k = (if k \<in> fst ` set d then Some (the (map_of d k)) else None)"
    by (simp add: demo_entries_def map_of_map_restrict restrict_map_def)
  also have "\<dots> = map_of d k"
    by (metis map_of_eq_None_iff option.exhaust_sel)
  finally show "map_of (demo_entries d) k = map_of d k" .
qed

lemma demo_sled_map: "sled_map_ok demo_lib demo_entries"
proof -
  have "map_of (filter (\<lambda>e. fst e \<noteq> k) d) = (map_of d)(k := None)" for d :: demo_db and k
    by (induction d) auto
  then show ?thesis
    by (simp add: sled_map_ok_def keys_demo_entries map_of_demo_entries) (simp add: demo_lib_def map_of_demo_entries)
qed

lemma demo_sled_open: "sled_open_ok demo_lib demo_entries"
  by (auto simp: sled_open_ok_def demo_lib_def demo_open_def demo_entries_def
      split: option.splits node.splits)

lemma demo_sled: "sled_ok demo_lib demo_entries"
  by (simp add: sled_ok_def demo_sled_map demo_sled_open)

lemmas demo_laws = demo_hkdf demo_argon2 demo_sha demo_aead demo_dh demo_ed demo_hex_ok
  demo_msg_codec demo_sled

text \<open>An empty disk without faults, and a disk with given nodes.\<close>

definition demo_disk :: "(path \<times> demo_db node) list \<Rightarrow> demo_db disk" where
  "demo_disk ns = \<lparr>nodes = ns, fault = (\<lambda>_ _. None)\<rparr>"

lemma demo_disk_fault [simp]: "fault (demo_disk ns) = (\<lambda>_ _. None)"
  by (simp add: demo_disk_def)

text \<open>A 32-byte array with every byte equal.\<close>

definition key_of :: "nat \<Rightarrow> bytes" where
  "key_of n = replicate 32 (byte_of n)"

lemma length_key_of [simp]: "length (key_of n) = 32"
  by (simp add: key_of_def)

end
