(* ===== verification/Crypto_Identity.thy ===== *)
theory Crypto_Identity
  imports Crypto_Example
begin

text \<open>
  The user's identity on disk and the peers it knows (\<^verbatim>\<open>crates/crypto/src/lib.rs\<close>): the
  password-encrypted key file, identity hashes, adding, loading, listing and deleting peers.
  Every operation runs on the disk and reports the errors of the source. A \<open>None\<close> result of
  \<open>decrypt_keyfile\<close> is a Rust panic (slice out of range).
\<close>

section \<open>Key file\<close>

definition generate_x25519 :: "'d crypto_lib \<Rightarrow> bytes \<Rightarrow> bytes \<times> bytes" where
  "generate_x25519 L secret = (secret, x25519_public L secret)"

text \<open>\<^verbatim>\<open>Box<dyn Error>\<close> of \<open>encrypt_keyfile\<close>: which step failed.\<close>

datatype keyfile_error = Argon2Error | EncryptError | KeyfileIo io_error

definition identity_key_path :: "'d crypto_lib \<Rightarrow> path" where
  "identity_key_path L = sechat_dir L @ [lit ''identity.key'']"

definition identity_pub_path :: "'d crypto_lib \<Rightarrow> path" where
  "identity_pub_path L = sechat_dir L @ [lit ''identity.pub'']"

definition encrypt_keyfile ::
  "'d crypto_lib \<Rightarrow> rstr \<Rightarrow> bytes \<Rightarrow> bytes \<Rightarrow> bytes \<Rightarrow> bytes \<Rightarrow> bytes \<Rightarrow> ('d disk, keyfile_error, unit) op" where
  "encrypt_keyfile L passwdplain x_priv x_pub ed_signing salt nonce =
     op_bind (op_lift (ok_or Argon2Error (argon2_hash L (as_bytes passwdplain) salt 32))) (\<lambda>derived.
     op_bind (op_lift (ok_or EncryptError (aead_encrypt L derived nonce (x_priv @ ed_signing)))) (\<lambda>ciphertext.
     op_bind (op_map_err KeyfileIo (fs_create_dir_all (sechat_dir L))) (\<lambda>_.
     op_bind (op_map_err KeyfileIo (fs_create_dir_all (peers_dir L))) (\<lambda>_.
     op_bind (op_map_err KeyfileIo (fs_write (identity_key_path L) (salt @ nonce @ ciphertext))) (\<lambda>_.
     op_map_err KeyfileIo (fs_write (identity_pub_path L) (x_pub @ ed_public L ed_signing)))))))"

definition read_file_to_buffer :: "path \<Rightarrow> nat \<Rightarrow> ('d disk, crypto_errors, bytes) op" where
  "read_file_to_buffer p n =
     op_bind (op_map_err (\<lambda>e. if e = PermissionDeniedKind then PermissionDenied else Other e)
       (fs_open_read p)) (\<lambda>_.
     op_map_err (\<lambda>e. if e = UnexpectedEof then CorruptedFile
                     else if e = PermissionDeniedKind then PermissionDenied else Other e)
       (fs_read_exact p n))"

definition read_keyfile :: "'d crypto_lib \<Rightarrow> ('d disk, crypto_errors, file_data) op" where
  "read_keyfile L =
     op_bind (read_file_to_buffer (identity_key_path L) 124) (\<lambda>privkeybuf.
     op_bind (read_file_to_buffer (identity_pub_path L) 64) (\<lambda>pubkeybuf.
     op_ret \<lparr>fd_salt = slice 0 32 privkeybuf, fd_nonce = slice 32 44 privkeybuf,
             fd_ciphertext = slice 44 124 privkeybuf, fd_pubkey = pubkeybuf\<rparr>))"

definition decrypt_keyfile :: "'d crypto_lib \<Rightarrow> rstr \<Rightarrow> file_data \<Rightarrow> (crypto_errors + keys) option" where
  "decrypt_keyfile L password f =
     (case argon2_hash L (as_bytes password) (fd_salt f) 32 of
        None \<Rightarrow> Some (Inl CryptographicError)
      | Some derived \<Rightarrow>
          (case aead_decrypt L derived (fd_nonce f) (fd_ciphertext f) of
             None \<Rightarrow> Some (Inl PermissionDenied)
           | Some plaintext \<Rightarrow>
               if length plaintext < 64 then None
               else
                 (let x = slice 0 32 plaintext; e = slice 32 64 plaintext in
                  Some (Inr \<lparr>x25519_priv = x, x25519_pub = x25519_public L x,
                             ed25519_signing = e, ed25519_verifying = ed_public L e\<rparr>))))"

section \<open>Peers\<close>

definition identity_hash :: "'d crypto_lib \<Rightarrow> bytes \<Rightarrow> bytes \<Rightarrow> bytes" where
  "identity_hash L x v = sha256 L (x @ v)"

definition initialize_peer ::
  "'d crypto_lib \<Rightarrow> bytes \<Rightarrow> bytes \<Rightarrow> bytes \<Rightarrow> ('d disk, crypto_errors, bytes \<times> bytes) op" where
  "initialize_peer L peer_pub peer_verifying privkey =
     (let h = identity_hash L peer_pub peer_verifying;
          shared = diffie_hellman L privkey peer_pub in
      op_bind (op_map_err Other (fs_create_dir_all (peer_path L h))) (\<lambda>_.
      op_bind (op_map_err Other (fs_open_trunc (peer_pub_path L h))) (\<lambda>_.
      op_bind (op_map_err Other (fs_write_all (peer_pub_path L h) (peer_pub @ peer_verifying))) (\<lambda>_.
      op_bind (op_lift (ok_or CryptographicError (hkdf_expand L shared (as_bytes (lit ''session'')) 32))) (\<lambda>session_key.
      op_bind (op_lift (ok_or CryptographicError (hkdf_expand L shared (as_bytes (lit ''storage'')) 32))) (\<lambda>storage_key.
      op_ret (session_key, storage_key)))))))"

text \<open>The two keys in a 64-byte \<^verbatim>\<open>peer.pub\<close>, when the second is a valid verifying key.\<close>

definition parse_peer_pub :: "'d crypto_lib \<Rightarrow> bytes \<Rightarrow> crypto_errors + peer_public" where
  "parse_peer_pub L buf =
     (case (try32 (slice 0 32 buf), try32 (slice 32 64 buf)) of
        (Some p, Some v) \<Rightarrow>
          if ed_valid L v then Inr \<lparr>pk_public = p, pk_verifying = v\<rparr> else Inl CorruptedFile
      | _ \<Rightarrow> Inl CorruptedFile)"

definition load_peer_data :: "'d crypto_lib \<Rightarrow> bytes \<Rightarrow> ('d disk, crypto_errors, peer_public) op" where
  "load_peer_data L h d =
     (if \<not> is_dir d (peer_path L h) then (Inl (NotFound (hex_encode L h)), d)
      else op_bind (read_file_to_buffer (peer_pub_path L h) 64) (\<lambda>buf. op_lift (parse_peer_pub L buf)) d)"

definition path_str :: "path \<Rightarrow> rstr" where
  "path_str p = concat (map (\<lambda>c. 47 # c) p)"

text \<open>One directory entry of \<open>load_peers\<close>; the I/O errors are passed on unclassified.\<close>

definition load_peer_entry :: "'d crypto_lib \<Rightarrow> path \<Rightarrow> ('d disk, crypto_errors, peer_public) op" where
  "load_peer_entry L dir =
     op_bind (op_map_err Other (fs_open_read (dir @ [lit ''peer.pub'']))) (\<lambda>_.
     op_bind (op_map_err Other (fs_read_exact (dir @ [lit ''peer.pub'']) 64)) (\<lambda>buf.
     op_lift (parse_peer_pub L buf)))"

text \<open>\<^verbatim>\<open>collect::<Result<Vec<_>, _>>()\<close>: the first error ends the iteration.\<close>

fun load_peer_entries :: "'d crypto_lib \<Rightarrow> path list \<Rightarrow> ('d disk, crypto_errors, peer_public list) op" where
  "load_peer_entries L [] = op_ret []"
| "load_peer_entries L (p # ps) =
     op_bind (load_peer_entry L p) (\<lambda>k. op_bind (load_peer_entries L ps) (\<lambda>ks. op_ret (k # ks)))"

definition load_peers :: "'d crypto_lib \<Rightarrow> ('d disk, crypto_errors, peer_public list) op" where
  "load_peers L =
     op_bind (op_map_err (\<lambda>_. NotFound (path_str (peers_dir L))) (fs_read_dir (peers_dir L)))
       (load_peer_entries L)"

definition purge :: "'d crypto_lib \<Rightarrow> path option \<Rightarrow> ('d disk, crypto_errors, unit) op" where
  "purge L p = op_map_err Other (fs_remove_dir_all (case p of None \<Rightarrow> sechat_dir L | Some q \<Rightarrow> q))"

definition purge_peer_chat :: "'d crypto_lib \<Rightarrow> bytes \<Rightarrow> ('d disk, crypto_errors, unit) op" where
  "purge_peer_chat L h d =
     (if exists d (chat_path L h) then op_map_err Other (fs_remove_dir_all (chat_path L h)) d
      else (Inr (), d))"

definition delete_peer :: "'d crypto_lib \<Rightarrow> bytes \<Rightarrow> ('d disk, crypto_errors, unit) op" where
  "delete_peer L h d =
     (if exists d (peer_path L h) then op_map_err Other (fs_remove_dir_all (peer_path L h)) d
      else (Inr (), d))"

section \<open>Reading never changes the disk\<close>

lemma faulty_pure: "(\<And>d. snd (act d) = d) \<Longrightarrow> snd (faulty k p act d) = d"
  by (simp add: faulty_def split: option.splits)

lemma op_bind_pure: "(\<And>d. snd (m d) = d) \<Longrightarrow> (\<And>a d. snd (f a d) = d) \<Longrightarrow> snd (op_bind m f d) = d"
  by (cases "m d"; cases "fst (m d)") (auto simp: op_bind_def dest: arg_cong [of _ _ snd])

lemma op_map_err_pure: "(\<And>d. snd (m d) = d) \<Longrightarrow> snd (op_map_err g m d) = d"
  by (simp add: op_map_err_def case_prod_unfold)

lemmas op_pure = faulty_pure op_bind_pure op_map_err_pure

lemma fs_open_read_pure [simp]: "snd (fs_open_read p d) = d"
  unfolding fs_open_read_def by (rule faulty_pure) simp

lemma fs_contents_pure [simp]: "snd (fs_contents p d) = d"
  unfolding fs_contents_def by (rule faulty_pure) (simp split: option.splits node.splits)

lemma fs_read_exact_pure [simp]: "snd (fs_read_exact p n d) = d"
  unfolding fs_read_exact_def by (rule op_bind_pure) simp_all

lemma read_file_to_buffer_pure [simp]: "snd (read_file_to_buffer p n d) = d"
  unfolding read_file_to_buffer_def by (intro op_pure) simp_all

lemma read_keyfile_pure [simp]: "snd (read_keyfile L d) = d"
  unfolding read_keyfile_def by (intro op_pure) simp_all

lemma load_peer_data_pure [simp]: "snd (load_peer_data L h d) = d"
proof -
  have "snd (op_bind (read_file_to_buffer (peer_pub_path L h) 64) (\<lambda>buf. op_lift (parse_peer_pub L buf)) d) = d"
    by (intro op_pure) simp_all
  then show ?thesis by (simp add: load_peer_data_def)
qed

lemma load_peer_entry_pure [simp]: "snd (load_peer_entry L p d) = d"
  unfolding load_peer_entry_def by (intro op_pure) simp_all

lemma load_peer_entries_pure [simp]: "snd (load_peer_entries L ps d) = d"
proof (induction ps arbitrary: d)
  case (Cons p ps)
  then show ?case by (simp only: load_peer_entries.simps) (intro op_pure; simp)
qed simp

lemma fs_read_dir_pure [simp]: "snd (fs_read_dir p d) = d"
  unfolding fs_read_dir_def by (rule faulty_pure) (simp split: option.splits node.splits)

lemma load_peers_pure [simp]: "snd (load_peers L d) = d"
  unfolding load_peers_def by (intro op_pure) simp_all

text \<open>The result of a pure sequence, as a sequence of results.\<close>

lemma fst_pure_bind: "snd (m s) = s \<Longrightarrow> fst (op_bind m f s) = and_then (fst (m s)) (\<lambda>a. fst (f a s))"
  by (cases "m s"; cases "fst (m s)") (auto simp: op_bind_def)

lemma fst_op_map_err: "fst (op_map_err g m s) = map_err g (fst (m s))"
  by (simp add: op_map_err_def case_prod_unfold)

lemma fst_fs_read_exact:
  "fst (fs_read_exact p n d) =
     and_then (fst (fs_contents p d)) (\<lambda>b. if length b < n then Inl UnexpectedEof else Inr (take n b))"
  by (cases "fst (fs_contents p d)") (simp_all add: fs_read_exact_def fst_pure_bind)

text \<open>What a read of a healthy file returns.\<close>

lemma fs_contents_file:
  "fault d ReadData p = None \<Longrightarrow> node_at d p = Some (FileNode b) \<Longrightarrow> fs_contents p d = (Inr b, d)"
  by (simp add: fs_contents_def)

lemma fs_open_read_file:
  "fault d OpenRead p = None \<Longrightarrow> node_at d p = Some n \<Longrightarrow> fs_open_read p d = (Inr (), d)"
  by (simp add: fs_open_read_def exists_def)

lemma fs_read_exact_file:
  "fault d ReadData p = None \<Longrightarrow> node_at d p = Some (FileNode b) \<Longrightarrow>
    fs_read_exact p n d = (if length b < n then Inl UnexpectedEof else Inr (take n b), d)"
  by (simp add: fs_read_exact_def fs_contents_file)

lemma read_file_to_buffer_file:
  "fault d OpenRead p = None \<Longrightarrow> fault d ReadData p = None \<Longrightarrow> node_at d p = Some (FileNode b) \<Longrightarrow>
    read_file_to_buffer p n d = (if length b < n then Inl CorruptedFile else Inr (take n b), d)"
  by (simp add: read_file_to_buffer_def fs_open_read_file fs_read_exact_file)

lemma parse_peer_pub_ok:
  "length p = 32 \<Longrightarrow> length v = 32 \<Longrightarrow> ed_valid L v \<Longrightarrow>
    parse_peer_pub L (p @ v) = Inr \<lparr>pk_public = p, pk_verifying = v\<rparr>"
  by (simp add: parse_peer_pub_def layout_simps try32_len)

lemma parse_peer_pub_wf: "parse_peer_pub L buf = Inr k \<Longrightarrow> wf_peer k \<and> ed_valid L (pk_verifying k)"
  by (auto simp: parse_peer_pub_def wf_peer_def split: option.splits if_splits)

section \<open>Round trip of the key file\<close>

definition readable :: "'d disk \<Rightarrow> path \<Rightarrow> bool" where
  "readable d p \<longleftrightarrow> fault d OpenRead p = None \<and> fault d ReadData p = None"

lemma read_readable:
  "readable d p \<Longrightarrow> node_at d p = Some (FileNode b) \<Longrightarrow> n \<le> length b \<Longrightarrow>
    read_file_to_buffer p n d = (Inr (take n b), d)"
  by (simp add: readable_def read_file_to_buffer_file)

lemma encrypt_keyfile_ok:
  assumes "encrypt_keyfile L pw x xp e salt nonce d = (Inr u, d')"
  obtains k c where "argon2_hash L (as_bytes pw) salt 32 = Some k"
    and "aead_encrypt L k nonce (x @ e) = Some c"
    and "node_at d' (identity_key_path L) = Some (FileNode (salt @ nonce @ c))"
    and "node_at d' (identity_pub_path L) = Some (FileNode (xp @ ed_public L e))"
    and "fault d' = fault d"
proof -
  from assms obtain k c u1 d1 u2 d2 u3 d3 where k: "argon2_hash L (as_bytes pw) salt 32 = Some k"
    and c: "aead_encrypt L k nonce (x @ e) = Some c"
    and m1: "fs_create_dir_all (sechat_dir L) d = (Inr u1, d1)"
    and m2: "fs_create_dir_all (peers_dir L) d1 = (Inr u2, d2)"
    and w1: "fs_write (identity_key_path L) (salt @ nonce @ c) d2 = (Inr u3, d3)"
    and w2: "fs_write (identity_pub_path L) (xp @ ed_public L e) d3 = (Inr u, d')"
    unfolding encrypt_keyfile_def by (auto simp: op_bind_ok op_map_err_ok)
  have ne: "identity_key_path L \<noteq> identity_pub_path L"
    by (simp add: identity_key_path_def identity_pub_path_def)
  have "fault d' = fault d"
    using create_dir_all_ok(2) [OF m1] create_dir_all_ok(2) [OF m2] fs_write_ok(1) [OF w1] fs_write_ok(1) [OF w2]
    by simp
  then show ?thesis
    using that k c ne fs_write_ok(1) [OF w1] fs_write_ok(1) [OF w2] by auto
qed

text \<open>
  What \<open>encrypt_keyfile\<close> writes, \<open>read_keyfile\<close> and \<open>decrypt_keyfile\<close> with the same
  password give back: the same two private keys with the public keys derived from them, from
  the 32 + 12 + 80 byte layout of \<^verbatim>\<open>identity.key\<close>, whatever was on the disk before.
\<close>

lemma keyfile_roundtrip:
  assumes "aead_ok L" and "argon2_ok L" and "ed_ok L"
    and "length x = 32" and "length xp = 32" and "length e = 32"
    and "length salt = 32" and "length nonce = 12"
    and "readable d (identity_key_path L)" and "readable d (identity_pub_path L)"
    and "encrypt_keyfile L pw x xp e salt nonce d = (Inr (), d')"
  shows "\<exists>f. read_keyfile L d' = (Inr f, d') \<and> fd_pubkey f = xp @ ed_public L e
    \<and> decrypt_keyfile L pw f =
        Some (Inr \<lparr>x25519_priv = x, x25519_pub = x25519_public L x,
                   ed25519_signing = e, ed25519_verifying = ed_public L e\<rparr>)"
proof -
  from assms(11) obtain k c where k: "argon2_hash L (as_bytes pw) salt 32 = Some k"
    and c: "aead_encrypt L k nonce (x @ e) = Some c"
    and f1: "node_at d' (identity_key_path L) = Some (FileNode (salt @ nonce @ c))"
    and f2: "node_at d' (identity_pub_path L) = Some (FileNode (xp @ ed_public L e))"
    and flt: "fault d' = fault d"
    by (rule encrypt_keyfile_ok)
  have "length k = 32" using k assms(2) by (auto simp: argon2_ok_def)
  then obtain c' where "aead_encrypt L k nonce (x @ e) = Some c'"
    and dec: "aead_decrypt L k nonce c' = Some (x @ e)" and len: "length c' = length (x @ e) + 16"
    using aead_okE [OF assms(1), of k nonce "x @ e"] assms(4,6,8) by auto
  with c have [simp]: "c' = c" by simp
  have lc: "length c = 80" using len assms(4,6) by simp
  have v: "length (ed_public L e) = 32" using ed_okD(1) assms(3,6) by blast
  have r: "readable d' (identity_key_path L)" "readable d' (identity_pub_path L)"
    using assms(9,10) flt by (simp_all add: readable_def)
  have b1: "read_file_to_buffer (identity_key_path L) 124 d' = (Inr (salt @ nonce @ c), d')"
    using read_readable [OF r(1) f1, of 124] lc assms(7,8) by simp
  have b2: "read_file_to_buffer (identity_pub_path L) 64 d' = (Inr (xp @ ed_public L e), d')"
    using read_readable [OF r(2) f2, of 64] v assms(5) by simp
  show ?thesis
    using b1 b2 k dec lc assms(4-8) by (simp add: read_keyfile_def decrypt_keyfile_def layout_simps Let_def)
qed

lemma read_file_to_buffer_length:
  "read_file_to_buffer p n d = (Inr b, d') \<Longrightarrow> length b = n"
  by (auto simp: read_file_to_buffer_def fs_read_exact_def op_bind_ok op_map_err_ok split: if_splits)

text \<open>
  \<open>decrypt_keyfile\<close> never panics on a key file that \<open>read_keyfile\<close> accepted, whatever
  its bytes and the password: a wrong password or a damaged file is an error value, because a
  ciphertext of 80 bytes decrypts to nothing or to exactly 64 bytes.
\<close>

lemma decrypt_keyfile_no_panic:
  assumes "aead_ok L" and "read_keyfile L d = (Inr f, d')"
  shows "decrypt_keyfile L pw f \<noteq> None"
proof -
  from assms(2) have "length (fd_ciphertext f) = 80"
    by (auto simp: read_keyfile_def op_bind_ok dest!: read_file_to_buffer_length)
  then have "length p = 64" if "aead_decrypt L k n (fd_ciphertext f) = Some p" for k n p
    using aead_dec_length [OF assms(1) that] \<open>length (fd_ciphertext f) = 80\<close> by simp
  then show ?thesis
    by (auto simp: decrypt_keyfile_def Let_def split: option.splits)
qed

section \<open>Peers on disk\<close>

lemma prefix_snoc_snoc: "prefix (p @ [a]) (p @ b # q) \<longleftrightarrow> a = b"
  by simp

lemma peer_pub_under: "prefix (peer_path L h) (peer_pub_path L h)"
  by (simp add: peer_pub_path_def)

lemma peer_trees_disjoint:
  "hex_ok L \<Longrightarrow> h \<noteq> g \<Longrightarrow>
    \<not> prefix (peer_path L h) (peer_path L g) \<and> \<not> prefix (peer_path L h) (peer_pub_path L g)"
  by (simp add: peer_path_def peer_pub_path_def hex_inj)

text \<open>
  What reading depends on: a file on its node and the faults, \<open>load_peer_data\<close> on the peer's
  directory and key file, the identity on its two files.
\<close>

lemma read_file_to_buffer_cong:
  assumes "node_at d p = node_at d' p" and "fault d = fault d'"
  shows "fst (read_file_to_buffer p n d) = fst (read_file_to_buffer p n d')"
proof -
  have ex: "exists d p = exists d' p" using assms(1) by (simp add: exists_def)
  have c: "fst (fs_contents p d) = fst (fs_contents p d')"
    using assms by (simp add: fs_contents_def faulty_def split: option.splits node.splits)
  have o: "fst (fs_open_read p d) = fst (fs_open_read p d')"
    using ex assms(2) by (simp add: fs_open_read_def faulty_def split: option.splits)
  show ?thesis
    using c o by (simp add: read_file_to_buffer_def fst_fs_read_exact fst_pure_bind fst_op_map_err op_map_err_pure op_bind_pure)
qed

lemma load_peer_data_cong:
  assumes "is_dir d (peer_path L h) = is_dir d' (peer_path L h)"
    and "node_at d (peer_pub_path L h) = node_at d' (peer_pub_path L h)"
    and "fault d = fault d'"
  shows "fst (load_peer_data L h d) = fst (load_peer_data L h d')"
  using assms(1) read_file_to_buffer_cong [OF assms(2,3), of 64] by (simp add: load_peer_data_def fst_pure_bind)

lemma read_keyfile_cong:
  assumes "node_at d (identity_key_path L) = node_at d' (identity_key_path L)"
    and "node_at d (identity_pub_path L) = node_at d' (identity_pub_path L)" and "fault d = fault d'"
  shows "fst (read_keyfile L d) = fst (read_keyfile L d')"
  using read_file_to_buffer_cong [OF assms(1,3), of 124] read_file_to_buffer_cong [OF assms(2,3), of 64]
  by (simp add: read_keyfile_def fst_pure_bind op_bind_pure split: sum.split)

end
