(* ===== verification/Crypto_Peers.thy ===== *)
theory Crypto_Peers
  imports Crypto_Identity
begin

text \<open>
  The peers directory as a contact book. \<open>contact_book\<close> is the interface its clients rely on
  (what a lookup returns after an insertion or a removal, and the invariant both keep); the
  operations \<open>initialize_peer\<close>, \<open>load_peer_data\<close> and \<open>delete_peer\<close> on a disk implement it, and
  every sequence of them refines updates of a finite map from identity hashes to keys.
\<close>

section \<open>The interface\<close>

locale contact_book =
  fixes inv :: "'s \<Rightarrow> bool"
    and good :: "'s \<Rightarrow> 'p \<Rightarrow> bool"
    and key :: "'s \<Rightarrow> 'p \<Rightarrow> 'k"
    and find :: "'s \<Rightarrow> 'k \<Rightarrow> 'p option"
    and add :: "'p \<Rightarrow> 's \<Rightarrow> 's"
    and del :: "'k \<Rightarrow> 's \<Rightarrow> 's"
  assumes find_add: "inv s \<Longrightarrow> good s p \<Longrightarrow> find (add p s) = (find s)(key s p \<mapsto> p)"
    and find_del: "inv s \<Longrightarrow> find (del k s) = (find s)(k := None)"
    and inv_add: "inv s \<Longrightarrow> good s p \<Longrightarrow> inv (add p s)"
    and inv_del: "inv s \<Longrightarrow> inv (del k s)"
    and key_add: "key (add p s) = key s" and key_del: "key (del k s) = key s"
    and good_add: "good (add p s) = good s" and good_del: "good (del k s) = good s"
begin

text \<open>A sequence of insertions (\<open>Inl\<close>) and removals (\<open>Inr\<close>) updates the lookup map alike.\<close>

lemma run_refines:
  assumes "inv s" and "\<forall>p. Inl p \<in> set ops \<longrightarrow> good s p"
  shows "inv (fold (case_sum add del) ops s)
    \<and> find (fold (case_sum add del) ops s) =
        fold (case_sum (\<lambda>p m. m(key s p \<mapsto> p)) (\<lambda>k m. m(k := None))) ops (find s)"
  using assms
proof (induction ops arbitrary: s)
  case (Cons x ops)
  show ?case
  proof (cases x)
    case (Inl p)
    with Cons.prems have g: "good s p" by simp
    have "\<forall>p'. Inl p' \<in> set ops \<longrightarrow> good (add p s) p'" using Cons.prems(2) by (simp add: good_add)
    from Cons.IH [OF inv_add [OF Cons.prems(1) g] this, unfolded key_add find_add [OF Cons.prems(1) g]] Inl
    show ?thesis by (simp add: fun_upd_def)
  next
    case (Inr k)
    have "\<forall>p'. Inl p' \<in> set ops \<longrightarrow> good (del k s) p'" using Cons.prems(2) by (simp add: good_del)
    from Cons.IH [OF inv_del [OF Cons.prems(1)] this, unfolded key_del find_del [OF Cons.prems(1)]] Inr
    show ?thesis by (simp add: fun_upd_def)
  qed
qed simp

end

section \<open>The disk as a contact book\<close>

text \<open>
  The invariant of a healthy peers directory: no I/O faults, no file where a directory is
  expected, no directory where a key file is expected.
\<close>

definition peers_ok :: "'d crypto_lib \<Rightarrow> 'd disk \<Rightarrow> bool" where
  "peers_ok L d \<longleftrightarrow> (\<forall>k p. fault d k p = None)
     \<and> (\<forall>q. prefix q (peers_dir L) \<longrightarrow> is_dir d q \<or> \<not> exists d q)
     \<and> (\<forall>h. node_at d (peer_path L h) = None \<or> node_at d (peer_path L h) = Some DirNode)
     \<and> (\<forall>h. node_at d (peer_pub_path L h) = None \<or> (\<exists>b. node_at d (peer_pub_path L h) = Some (FileNode b)))"

definition book_inv :: "'d crypto_lib \<times> 'd disk \<Rightarrow> bool" where
  "book_inv s \<longleftrightarrow> hex_ok (fst s) \<and> peers_ok (fst s) (snd s)"

definition book_good :: "'d crypto_lib \<times> 'd disk \<Rightarrow> peer_public \<Rightarrow> bool" where
  "book_good s p \<longleftrightarrow> wf_peer p \<and> ed_valid (fst s) (pk_verifying p)"

definition book_key :: "'d crypto_lib \<times> 'd disk \<Rightarrow> peer_public \<Rightarrow> bytes" where
  "book_key s p = identity_hash (fst s) (pk_public p) (pk_verifying p)"

definition book_find :: "'d crypto_lib \<times> 'd disk \<Rightarrow> bytes \<Rightarrow> peer_public option" where
  "book_find s h = ok (fst (load_peer_data (fst s) h (snd s)))"

definition book_add :: "bytes \<Rightarrow> peer_public \<Rightarrow> 'd crypto_lib \<times> 'd disk \<Rightarrow> 'd crypto_lib \<times> 'd disk" where
  "book_add priv p s = (fst s, snd (initialize_peer (fst s) (pk_public p) (pk_verifying p) priv (snd s)))"

definition book_del :: "bytes \<Rightarrow> 'd crypto_lib \<times> 'd disk \<Rightarrow> 'd crypto_lib \<times> 'd disk" where
  "book_del h s = (fst s, snd (delete_peer (fst s) h (snd s)))"

lemma peer_path_not_under_peers_dir [simp]: "\<not> prefix (peer_path L h) (peers_dir L)"
  using prefix_length_le by (fastforce simp: peer_path_def)

lemma peer_pub_not_under_peers_dir [simp]: "\<not> prefix (peer_pub_path L h) (peers_dir L)"
  using prefix_length_le by (fastforce simp: peer_path_def peer_pub_path_def)

lemma prefix_peer_path:
  "prefix q (peer_path L h) \<longleftrightarrow> prefix q (peers_dir L) \<or> q = peer_path L h"
  by (auto simp: peer_path_def)

lemma peer_pub_eq: "hex_ok L \<Longrightarrow> peer_pub_path L h = peer_pub_path L g \<longleftrightarrow> h = g"
  by (simp add: peer_pub_path_def peer_path_eq)

lemma peer_pub_neq_peer [simp]: "peer_pub_path L h \<noteq> peer_path L g"
  using arg_cong [of _ _ length] by (fastforce simp: peer_pub_path_def peer_path_def)

lemma peer_paths_distinct [simp]:
  "peer_path L g \<noteq> peer_pub_path L h" "peer_path L h \<noteq> []" "peer_pub_path L h \<noteq> []"
  using peer_pub_neq_peer [of L h g] by (auto simp: peer_path_def peer_pub_path_def)

lemma peers_okD:
  assumes "peers_ok L d"
  shows "fault d k p = None"
    and "prefix q (peers_dir L) \<Longrightarrow> is_dir d q \<or> \<not> exists d q"
    and "node_at d (peer_path L h) = None \<or> node_at d (peer_path L h) = Some DirNode"
    and "\<not> is_dir d (peer_pub_path L h)"
    and "node_at d (peer_pub_path L h) = None \<or> (\<exists>b. node_at d (peer_pub_path L h) = Some (FileNode b))"
proof -
  show f: "node_at d (peer_pub_path L h) = None \<or> (\<exists>b. node_at d (peer_pub_path L h) = Some (FileNode b))"
    using assms by (simp add: peers_ok_def)
  show "\<not> is_dir d (peer_pub_path L h)" using f by (auto simp: is_dir_def)
qed (use assms in \<open>simp_all add: peers_ok_def\<close>)

text \<open>
  On a healthy disk \<open>initialize_peer\<close> creates the directory and writes the key file, even when
  deriving the session keys fails afterwards.
\<close>

lemma initialize_peer_disk:
  fixes L :: "'d crypto_lib" and pp pv :: bytes
  defines "h \<equiv> identity_hash L pp pv"
  assumes "peers_ok L d"
  obtains d1 where "fs_create_dir_all (peer_path L h) d = (Inr (), d1)"
    and "snd (initialize_peer L pp pv priv d) =
           put_node (peer_pub_path L h) (FileNode (pp @ pv)) (put_node (peer_pub_path L h) (FileNode []) d1)"
    and "hkdf_ok L \<Longrightarrow> is_ok (fst (initialize_peer L pp pv priv d))"
proof -
  have clear: "is_dir d q \<or> \<not> exists d q" if "prefix q (peer_path L h)" for q
    using that peers_okD(2) [OF assms(2)] peers_okD(3) [OF assms(2), of h]
    by (auto simp: prefix_peer_path is_dir_def exists_def)
  have flt: "fault d k p = None" for k p by (rule peers_okD(1) [OF assms(2)])
  define d1 where "d1 = snd (fs_create_dir_all (peer_path L h) d)"
  have m: "fs_create_dir_all (peer_path L h) d = (Inr (), d1)"
    using clear flt by (simp add: d1_def fs_create_dir_all_def list_all_iff ancestors_iff)
  note d1 = create_dir_all_ok [OF m]
  have pub: "node_at d1 (peer_pub_path L h) = node_at d (peer_pub_path L h)"
    by (simp add: d1(1) prefix_peer_path)
  have nd: "\<not> is_dir d1 (peer_pub_path L h)"
    using peers_okD(4) [OF assms(2)] pub by (simp add: is_dir_def)
  have par: "is_dir d1 (butlast (peer_pub_path L h))"
    using d1(3) by (simp add: peer_pub_path_def)
  have o: "fs_open_trunc (peer_pub_path L h) d1 = (Inr (), put_node (peer_pub_path L h) (FileNode []) d1)"
    using nd par d1(2) flt by (simp add: fs_open_trunc_def)
  have w: "fs_write_all (peer_pub_path L h) b s = (Inr (), put_node (peer_pub_path L h) (FileNode b) s)"
    if "fault s = fault d" for b s using that flt by (simp add: fs_write_all_def)
  show ?thesis
  proof (rule that [OF m])
    show "snd (initialize_peer L pp pv priv d) =
           put_node (peer_pub_path L h) (FileNode (pp @ pv)) (put_node (peer_pub_path L h) (FileNode []) d1)"
      using m o w [of "put_node (peer_pub_path L h) (FileNode []) d1"] d1(2)
      by (simp add: initialize_peer_def h_def Let_def)
        (cases "hkdf_expand L (diffie_hellman L priv pp) (as_bytes (lit ''session'')) 32";
         cases "hkdf_expand L (diffie_hellman L priv pp) (as_bytes (lit ''storage'')) 32"; simp)
    show "is_ok (fst (initialize_peer L pp pv priv d))" if "hkdf_ok L"
    proof -
      have "\<exists>k. hkdf_expand L x i 32 = Some k" for x i using that by (rule hkdf_okE [where n = 32]) auto
      then obtain a b where "hkdf_expand L (diffie_hellman L priv pp) (as_bytes (lit ''session'')) 32 = Some a"
        "hkdf_expand L (diffie_hellman L priv pp) (as_bytes (lit ''storage'')) 32 = Some b" by blast
      then show ?thesis
        using m o w [of "put_node (peer_pub_path L h) (FileNode []) d1"] d1(2) by (simp add: initialize_peer_def h_def Let_def)
    qed
  qed
qed

lemma peers_ok_add:
  assumes "hex_ok L" and ok: "peers_ok L d"
  shows "peers_ok L (snd (initialize_peer L pp pv priv d))"
proof -
  let ?h = "identity_hash L pp pv"
  obtain d1 where m: "fs_create_dir_all (peer_path L ?h) d = (Inr (), d1)"
    and e: "snd (initialize_peer L pp pv priv d) =
      put_node (peer_pub_path L ?h) (FileNode (pp @ pv)) (put_node (peer_pub_path L ?h) (FileNode []) d1)"
    using initialize_peer_disk [OF ok] by metis
  note d1 = create_dir_all_ok [OF m]
  have n: "node_at d1 (peer_path L g) = None \<or> node_at d1 (peer_path L g) = Some DirNode" for g
    using ok by (auto simp: d1(1) peers_ok_def)
  have b: "node_at d1 (peer_pub_path L g) = node_at d (peer_pub_path L g)" for g
    by (simp add: d1(1) prefix_peer_path)
  have c: "is_dir d1 q" if "prefix q (peers_dir L)" for q
    using d1(3) that by (simp add: prefix_peer_path)
  have ne: "peer_pub_path L ?h \<noteq> q" if "prefix q (peers_dir L)" for q
    using that peer_pub_not_under_peers_dir by metis
  show ?thesis
    unfolding e peers_ok_def
    using ok n b c ne peer_pub_neq_peer [of L ?h] d1(2)
    by (auto simp: peers_ok_def is_dir_def)
qed

lemma load_after_add:
  assumes "hex_ok L" and ok: "peers_ok L d" and "length pp = 32" and "length pv = 32" and "ed_valid L pv"
  shows "fst (load_peer_data L g (snd (initialize_peer L pp pv priv d))) =
    (if g = identity_hash L pp pv then Inr \<lparr>pk_public = pp, pk_verifying = pv\<rparr>
     else fst (load_peer_data L g d))"
proof -
  let ?h = "identity_hash L pp pv"
  let ?d' = "snd (initialize_peer L pp pv priv d)"
  obtain d1 where m: "fs_create_dir_all (peer_path L ?h) d = (Inr (), d1)"
    and e: "?d' = put_node (peer_pub_path L ?h) (FileNode (pp @ pv)) (put_node (peer_pub_path L ?h) (FileNode []) d1)"
    using initialize_peer_disk [OF ok] by metis
  note d1 = create_dir_all_ok [OF m]
  have flt: "fault ?d' = fault d" "fault ?d' k p = None" for k p
    using ok d1(2) by (simp_all add: e peers_ok_def)
  show ?thesis
  proof (cases "g = ?h")
    case True
    have dir: "is_dir ?d' (peer_path L ?h)"
      using d1(3) [of "peer_path L ?h"] peer_pub_neq_peer [of L ?h ?h] by (simp add: e is_dir_def)
    have "read_file_to_buffer (peer_pub_path L ?h) 64 ?d' = (Inr (pp @ pv), ?d')"
      using flt(2) assms(3,4) by (subst read_file_to_buffer_file) (auto simp: e)
    then show ?thesis
      using True dir assms(3-5) by (simp add: load_peer_data_def parse_peer_pub_ok)
  next
    case False
    have "node_at d1 (peer_path L g) = node_at d (peer_path L g)"
      using False assms(1) by (simp add: d1(1) prefix_peer_path peer_path_eq)
    moreover have "node_at d1 (peer_pub_path L g) = node_at d (peer_pub_path L g)"
      by (simp add: d1(1) prefix_peer_path)
    ultimately have "fst (load_peer_data L g ?d') = fst (load_peer_data L g d)"
      using False assms(1) peer_pub_neq_peer [of L ?h g] flt(1)
      by (intro load_peer_data_cong) (auto simp: e is_dir_def peer_pub_eq)
    then show ?thesis using False by simp
  qed
qed

lemma delete_peer_disk:
  assumes "peers_ok L d"
  shows "snd (delete_peer L h d) = (if exists d (peer_path L h) then remove_tree (peer_path L h) d else d)"
    and "fst (delete_peer L h d) = Inr ()"
proof -
  have "fs_remove_dir_all (peer_path L h) d = (Inr (), remove_tree (peer_path L h) d)"
    if "exists d (peer_path L h)"
    using peers_okD(1) [OF assms] peers_okD(3) [OF assms, of h] that
    by (auto simp: fs_remove_dir_all_def is_dir_def exists_def)
  then show "snd (delete_peer L h d) = (if exists d (peer_path L h) then remove_tree (peer_path L h) d else d)"
    "fst (delete_peer L h d) = Inr ()"
    by (simp_all add: delete_peer_def)
qed

lemma peers_ok_del:
  assumes "hex_ok L" and ok: "peers_ok L d"
  shows "peers_ok L (snd (delete_peer L h d))"
proof -
  have "is_dir (remove_tree (peer_path L h) d) q \<or> \<not> exists (remove_tree (peer_path L h) d) q"
    if "prefix q (peers_dir L)" for q
    using peers_okD(2) [OF ok that] by (auto simp: is_dir_def exists_def)
  then show ?thesis
    using ok by (auto simp: delete_peer_disk(1) [OF ok] peers_ok_def)
qed

lemma load_after_delete:
  assumes "hex_ok L" and ok: "peers_ok L d"
  shows "fst (load_peer_data L g (snd (delete_peer L h d))) =
    (if g = h then Inl (NotFound (hex_encode L h)) else fst (load_peer_data L g d))"
proof (cases "g = h")
  case True
  have "\<not> is_dir (snd (delete_peer L h d)) (peer_path L h)"
    by (auto simp: delete_peer_disk(1) [OF ok] is_dir_def exists_def)
  with True show ?thesis by (simp add: load_peer_data_def)
next
  case False
  then have "fst (load_peer_data L g (remove_tree (peer_path L h) d)) = fst (load_peer_data L g d)"
    using peer_trees_disjoint [OF assms(1), of h g]
    by (intro load_peer_data_cong) (auto simp: is_dir_def)
  with False show ?thesis by (simp add: delete_peer_disk(1) [OF ok])
qed

text \<open>The disk operations satisfy the contract.\<close>

interpretation peer_book: contact_book book_inv book_good book_key book_find "book_add priv" book_del
proof unfold_locales
  fix s :: "'a crypto_lib \<times> 'a disk" and p k
  assume inv: "book_inv s"
  show "book_find (book_del k s) = (book_find s)(k := None)"
    using inv by (auto simp: book_find_def book_del_def book_inv_def load_after_delete)
  show "book_inv (book_del k s)"
    using inv by (simp add: book_inv_def book_del_def peers_ok_del)
  assume good: "book_good s p"
  show "book_find (book_add priv p s) = (book_find s)(book_key s p \<mapsto> p)"
    using inv good
    by (auto simp: book_find_def book_add_def book_inv_def book_good_def wf_peer_def book_key_def load_after_add)
  show "book_inv (book_add priv p s)"
    using inv by (simp add: book_inv_def book_add_def peers_ok_add)
qed (simp_all add: book_key_def book_good_def book_add_def book_del_def fun_eq_iff)

text \<open>
  C10: Any sequence of adding peers (\<open>initialize_peer\<close>) and removing them (\<open>delete_peer\<close>) on a
  healthy disk refines the same updates of a map from identity hashes to key pairs:
  \<open>load_peer_data\<close> afterwards finds a hash exactly when the map does, with the same keys, and
  the peers directory stays healthy.
\<close>

theorem peers_refine_map:
  assumes "hex_ok L" and "peers_ok L d"
    and "\<forall>p. Inl p \<in> set ops \<longrightarrow> wf_peer p \<and> ed_valid L (pk_verifying p)"
  shows "peers_ok L (snd (fold (case_sum (book_add priv) book_del) ops (L, d)))
    \<and> (\<lambda>h. ok (fst (load_peer_data L h (snd (fold (case_sum (book_add priv) book_del) ops (L, d)))))) =
        fold (case_sum (\<lambda>p m. m(identity_hash L (pk_public p) (pk_verifying p) \<mapsto> p)) (\<lambda>h m. m(h := None)))
          ops (\<lambda>h. ok (fst (load_peer_data L h d)))"
proof -
  let ?s = "fold (case_sum (book_add priv) book_del) ops (L, d)"
  have lib: "fst (fold (case_sum (book_add priv) book_del) ops s) = fst s" for s :: "'a crypto_lib \<times> 'a disk"
    by (induction ops arbitrary: s) (auto simp: book_add_def book_del_def split: sum.splits)
  have "book_inv (L, d)" using assms(1,2) by (simp add: book_inv_def)
  moreover have "\<forall>p. Inl p \<in> set ops \<longrightarrow> book_good (L, d) p" using assms(3) by (simp add: book_good_def)
  ultimately have "book_inv ?s" "book_find ?s =
      fold (case_sum (\<lambda>p m. m(book_key (L, d) p \<mapsto> p)) (\<lambda>k m. m(k := None))) ops (book_find (L, d))"
    using peer_book.run_refines by blast+
  then show ?thesis by (simp add: book_inv_def lib book_find_def [abs_def] book_key_def)
qed

theorem peers_refine_map_witness:
  "peers_ok demo_lib (demo_disk [])
   \<and> (let p = \<lparr>pk_public = key_of 1, pk_verifying = key_of 2\<rparr> in
      ok (fst (load_peer_data demo_lib (key_of 1)
        (snd (fold (case_sum (book_add (key_of 9)) book_del) [Inl p] (demo_lib, demo_disk []))))) = Some p)"
proof -
  let ?p = "\<lparr>pk_public = key_of 1, pk_verifying = key_of 2\<rparr>"
  have ok: "peers_ok demo_lib (demo_disk [])"
    by (auto simp: peers_ok_def node_at_def demo_disk_def exists_def is_dir_def)
  have good: "\<forall>p. Inl p \<in> set [Inl ?p :: peer_public + bytes] \<longrightarrow> wf_peer p \<and> ed_valid demo_lib (pk_verifying p)"
    by (simp add: wf_peer_def demo_lib_def)
  have h: "identity_hash demo_lib (key_of 1) (key_of 2) = key_of 1"
    by code_simp
  from peers_refine_map [OF demo_hex_ok ok good, of "key_of 9"] h show ?thesis
    by (auto simp: ok Let_def dest: fun_cong [of _ _ "key_of 1"])
qed

section \<open>Listing the peers\<close>

text \<open>The keys in one peer directory, if its key file is there and well-formed.\<close>

definition entry_keys :: "'d crypto_lib \<Rightarrow> 'd disk \<Rightarrow> path \<Rightarrow> peer_public option" where
  "entry_keys L d q = (case node_at d (q @ [lit ''peer.pub'']) of
     Some (FileNode b) \<Rightarrow> if length b < 64 then None else ok (parse_peer_pub L (take 64 b))
   | _ \<Rightarrow> None)"

lemma load_peer_entry_ok:
  assumes "\<forall>k p. fault d k p = None"
  shows "ok (fst (load_peer_entry L q d)) = entry_keys L d q"
proof (cases "node_at d (q @ [lit ''peer.pub''])")
  case None
  then have "fs_open_read (q @ [lit ''peer.pub'']) d = (Inl NotFoundKind, d)"
    using assms by (simp add: fs_open_read_def exists_def)
  with None show ?thesis by (simp add: load_peer_entry_def entry_keys_def)
next
  case (Some n)
  have o: "fs_open_read (q @ [lit ''peer.pub'']) d = (Inr (), d)"
    using assms Some by (simp add: fs_open_read_file)
  show ?thesis
  proof (cases n)
    case (FileNode b)
    with Some have "fs_read_exact (q @ [lit ''peer.pub'']) 64 d =
        (if length b < 64 then Inl UnexpectedEof else Inr (take 64 b), d)"
      using assms by (simp add: fs_read_exact_file)
    with o Some FileNode show ?thesis by (simp add: load_peer_entry_def entry_keys_def)
  qed (use assms Some o in \<open>simp_all add: load_peer_entry_def entry_keys_def fs_read_exact_def fs_contents_def\<close>)
qed

lemma load_peer_entries_ok:
  assumes "\<forall>k p. fault d k p = None"
  shows "fst (load_peer_entries L qs d) = Inr ks \<longleftrightarrow> map (entry_keys L d) qs = map Some ks"
proof (induction qs arbitrary: ks)
  case (Cons q qs)
  have s: "snd (load_peer_entry L q d) = d" "snd (load_peer_entries L qs d) = d" by simp_all
  have "fst (load_peer_entries L (q # qs) d) = Inr ks \<longleftrightarrow>
      (\<exists>k ks'. fst (load_peer_entry L q d) = Inr k \<and> fst (load_peer_entries L qs d) = Inr ks' \<and> ks = k # ks')"
    using s by (cases "load_peer_entry L q d"; cases "fst (load_peer_entry L q d)";
        cases "load_peer_entries L qs d"; cases "fst (load_peer_entries L qs d)") auto
  also have "\<dots> \<longleftrightarrow> map (entry_keys L d) (q # qs) = map Some ks"
    using Cons.IH by (cases ks) (auto simp: load_peer_entry_ok [OF assms, of L q, symmetric])
  finally show ?case .
qed auto

text \<open>
  C32: \<open>load_peers\<close> is all or nothing. Without I/O faults it returns a list exactly when every
  entry under \<^verbatim>\<open>peers\<close> is a directory that holds a key file of at least 64 bytes with a valid verifying key, and
  the list then has one contact per entry, in directory order; a single entry without
  such a file, a stray file included, makes the whole call fail.
\<close>

theorem load_peers_iff:
  assumes "\<forall>k p. fault d k p = None" and "node_at d (peers_dir L) = Some DirNode"
  shows "load_peers L d = (Inr ks, d) \<longleftrightarrow>
    map (entry_keys L d) (children d (peers_dir L)) = map Some ks"
proof -
  have "fs_read_dir (peers_dir L) d = (Inr (children d (peers_dir L)), d)"
    using assms by (simp add: fs_read_dir_def exists_def)
  then have "fst (load_peers L d) = fst (load_peer_entries L (children d (peers_dir L)) d)"
    by (simp add: load_peers_def)
  moreover have "snd (load_peers L d) = d" by simp
  ultimately show ?thesis
    using load_peer_entries_ok [OF assms(1), of L "children d (peers_dir L)" ks] by (metis fst_conv prod.collapse)
qed

theorem load_peers_iff_witness:
  "let d = demo_disk [(peers_dir demo_lib, DirNode), (peer_path demo_lib [7], DirNode),
        (peer_pub_path demo_lib [7], FileNode (key_of 1 @ key_of 2))];
       ks = [\<lparr>pk_public = key_of 1, pk_verifying = key_of 2\<rparr>]
   in load_peers demo_lib d = (Inr ks, d)"
proof -
  let ?d = "demo_disk [(peers_dir demo_lib, DirNode), (peer_path demo_lib [7], DirNode),
        (peer_pub_path demo_lib [7], FileNode (key_of 1 @ key_of 2))]"
  let ?ks = "[\<lparr>pk_public = key_of 1, pk_verifying = key_of 2\<rparr>]"
  have dir: "node_at ?d (peers_dir demo_lib) = Some DirNode"
    by (simp add: node_at_def demo_disk_def)
  have "map (entry_keys demo_lib ?d) (children ?d (peers_dir demo_lib)) = map Some ?ks"
    by code_simp
  with load_peers_iff [OF _ dir, of ?ks] show ?thesis by simp
qed

text \<open>
  Deleting a conversation keeps the contact: after a successful \<open>purge_peer_chat\<close> the chat
  database of that peer is gone, while every peer, this one included, still loads with the
  same result as before.
\<close>

lemma purge_keeps_contacts:
  assumes "hex_ok L" and "purge_peer_chat L h d = (Inr u, d')"
  shows "\<not> exists d' (chat_path L h) \<and> fst (load_peer_data L g d') = fst (load_peer_data L g d)"
proof -
  have d': "d' = d \<and> \<not> exists d (chat_path L h) \<or> d' = remove_tree (chat_path L h) d"
    using assms(2)
    by (auto simp: purge_peer_chat_def op_map_err_ok fs_remove_dir_all_def faulty_def
        split: if_splits option.splits)
  have np: "\<not> prefix (chat_path L h) (peer_path L g)"
    using prefix_length_le by (fastforce simp: chat_path_def peer_path_def)
  have npp: "\<not> prefix (chat_path L h) (peer_pub_path L g)"
    by (auto simp: chat_path_def peer_pub_path_def peer_path_def)
  have "fst (load_peer_data L g (remove_tree (chat_path L h) d)) = fst (load_peer_data L g d)"
    using np npp by (intro load_peer_data_cong) (auto simp: is_dir_def)
  then show ?thesis using d' by (auto simp: exists_def chat_path_def)
qed

end
