(* ===== verification/Crypto_Message.thy ===== *)
theory Crypto_Message
  imports Crypto_Peers
begin

text \<open>
  Key derivation, signatures, presence tokens, the per-message encryption of a chat session
  and the envelope of offline blobs (\<^verbatim>\<open>crates/crypto/src/lib.rs\<close>). A \<open>None\<close> result where
  the source unwraps is a panic.
\<close>

unbundle bit_operations_syntax

section \<open>Definitions\<close>

definition info :: "string \<Rightarrow> bytes" where
  "info s = as_bytes (lit s)"

text \<open>The loop of \<^verbatim>\<open>nonce_for_message\<close>: byte \<open>4 + i\<close> is combined with byte \<open>i\<close> of the counter.\<close>

definition nonce_for_message :: "bytes \<Rightarrow> u64 \<Rightarrow> bytes" where
  "nonce_for_message base counter =
     foldl (\<lambda>n i. n[4 + i := (n ! (4 + i)) XOR (to_le_bytes counter ! i)]) base [0..<8]"

definition encrypt_message_for_chat :: "'d crypto_lib \<Rightarrow> rstr \<Rightarrow> bytes \<Rightarrow> u64 \<Rightarrow> bytes option" where
  "encrypt_message_for_chat L message sessionkey counter =
     (case (hkdf_expand L sessionkey (info ''message'') 32, hkdf_expand L sessionkey (info ''nonce'') 12) of
        (Some message_key, Some nonce) \<Rightarrow>
          aead_encrypt L message_key (nonce_for_message nonce counter) (as_bytes message)
      | _ \<Rightarrow> None)"

definition decrypt_message_from_chat ::
  "'d crypto_lib \<Rightarrow> bytes \<Rightarrow> bytes \<Rightarrow> u64 \<Rightarrow> (crypto_errors + rstr) option" where
  "decrypt_message_from_chat L message sessionkey counter =
     (case (hkdf_expand L sessionkey (info ''message'') 32, hkdf_expand L sessionkey (info ''nonce'') 12) of
        (Some message_key, Some nonce) \<Rightarrow>
          Some (case aead_decrypt L message_key (nonce_for_message nonce counter) message of
                  None \<Rightarrow> Inl CryptographicError
                | Some decrypted \<Rightarrow> ok_or CorruptedFile (from_utf8 decrypted))
      | _ \<Rightarrow> None)"

definition load_storage_key :: "'d crypto_lib \<Rightarrow> bytes \<Rightarrow> bytes \<Rightarrow> crypto_errors + bytes" where
  "load_storage_key L peer_pub privkey =
     ok_or CryptographicError (hkdf_expand L (diffie_hellman L privkey peer_pub) (info ''storage'') 32)"

definition presence_token :: "'d crypto_lib \<Rightarrow> bytes \<Rightarrow> bytes \<Rightarrow> i64 \<Rightarrow> crypto_errors + bytes" where
  "presence_token L privkey peer_pub timestamp =
     and_then
       (ok_or CryptographicError (hkdf_expand L (diffie_hellman L privkey peer_pub) (info ''presence'') 32))
       (\<lambda>presence_key. Inr (hmac_sha256 L presence_key (to_le_bytes (i64_div timestamp 15 * 15))))"

definition verify_challenge :: "'d crypto_lib \<Rightarrow> bytes \<Rightarrow> bytes \<Rightarrow> bytes \<Rightarrow> crypto_errors + unit" where
  "verify_challenge L verif bits signature =
     (if ed_verify L verif bits signature then Inr () else Inl CryptographicError)"

definition sign_challenge :: "'d crypto_lib \<Rightarrow> bytes \<Rightarrow> bytes \<Rightarrow> bytes" where
  "sign_challenge L signing bits = ed_sign L signing bits"

definition derive_session_key :: "'d crypto_lib \<Rightarrow> bytes \<Rightarrow> bytes \<Rightarrow> crypto_errors + bytes" where
  "derive_session_key L ephemeral_priv peer_ephemeral_pub =
     ok_or CryptographicError
       (hkdf_expand L (diffie_hellman L ephemeral_priv peer_ephemeral_pub) (info ''session'') 32)"

definition relay_session_key :: "'d crypto_lib \<Rightarrow> bytes \<Rightarrow> bytes \<Rightarrow> bytes option" where
  "relay_session_key L peer_pub my_priv =
     hkdf_expand L (diffie_hellman L my_priv peer_pub) (info ''relay-session'') 32"

definition derive_directional_key :: "'d crypto_lib \<Rightarrow> bytes \<Rightarrow> bytes \<Rightarrow> bytes option" where
  "derive_directional_key L session_key label = hkdf_expand L session_key label 32"

text \<open>The envelope of a blob: ephemeral public key, nonce, ciphertext.\<close>

definition encrypt_blob :: "'d crypto_lib \<Rightarrow> bytes \<Rightarrow> bytes \<Rightarrow> bytes \<Rightarrow> bytes \<Rightarrow> crypto_errors + bytes" where
  "encrypt_blob L recipient_pub plaintext eph_secret nonce =
     and_then
       (ok_or CryptographicError (hkdf_expand L (diffie_hellman L eph_secret recipient_pub) (info ''blob'') 32))
       (\<lambda>key. and_then (ok_or CryptographicError (aead_encrypt L key nonce plaintext))
         (\<lambda>ciphertext. Inr (x25519_public L eph_secret @ nonce @ ciphertext)))"

definition decrypt_blob :: "'d crypto_lib \<Rightarrow> bytes \<Rightarrow> bytes \<Rightarrow> crypto_errors + bytes" where
  "decrypt_blob L blob privkey =
     (if length blob < 44 then Inl CorruptedFile
      else
        (let eph_pub = slice 0 32 blob; nonce = slice 32 44 blob; ciphertext = drop 44 blob in
         and_then
           (ok_or CryptographicError (hkdf_expand L (diffie_hellman L privkey eph_pub) (info ''blob'') 32))
           (\<lambda>key. ok_or CryptographicError (aead_decrypt L key nonce ciphertext))))"

section \<open>Nonces\<close>

lemma nonce_loop:
  "m \<le> 8 \<Longrightarrow> length base = 12 \<Longrightarrow>
    length (foldl (\<lambda>n i. n[4 + i := (n ! (4 + i)) XOR (ks ! i)]) base [0..<m]) = 12
    \<and> (\<forall>j < 12. foldl (\<lambda>n i. n[4 + i := (n ! (4 + i)) XOR (ks ! i)]) base [0..<m] ! j =
         (if 4 \<le> j \<and> j < 4 + m then base ! j XOR ks ! (j - 4) else base ! j))"
  for base ks :: bytes
  by (induction m) (auto simp: nth_list_update)

lemma xor_cancel: "x XOR a = x XOR b \<longleftrightarrow> a = b" for x a b :: byte
proof
  assume "x XOR a = x XOR b"
  then have "x XOR (x XOR a) = x XOR (x XOR b)" by simp
  then show "a = b" by (simp flip: xor.assoc)
qed simp

text \<open>
  Within a session the nonce determines the message counter: two messages get the same
  nonce from the same 12-byte base only if their counters are equal, so counters that never
  repeat give nonces that never repeat.
\<close>

theorem nonce_for_message_inj:
  assumes "length base = 12"
  shows "nonce_for_message base c = nonce_for_message base c' \<longleftrightarrow> c = c'"
proof
  assume eq: "nonce_for_message base c = nonce_for_message base c'"
  have "to_le_bytes c ! i = to_le_bytes c' ! i" if "i < 8" for i
  proof -
    have "nonce_for_message base c ! (4 + i) = base ! (4 + i) XOR to_le_bytes c ! i" for c
      using nonce_loop [of 8 base "to_le_bytes c"] assms that by (simp add: nonce_for_message_def)
    then have "base ! (4 + i) XOR to_le_bytes c ! i = base ! (4 + i) XOR to_le_bytes c' ! i"
      using eq by metis
    then show ?thesis by (simp only: xor_cancel)
  qed
  then have "to_le_bytes c = to_le_bytes c'" by (intro nth_equalityI) simp_all
  then show "c = c'" by (simp add: le64.enc_eq_iff)
qed simp

theorem nonce_for_message_inj_witness:
  "length (replicate 12 7 :: bytes) = 12 \<and>
   nonce_for_message (replicate 12 7) 1 \<noteq> nonce_for_message (replicate 12 7) 2"
  using nonce_for_message_inj [of "replicate 12 7" 1 2] by simp

lemma length_nonce: "length base = 12 \<Longrightarrow> length (nonce_for_message base c) = 12"
  using nonce_loop [of 8 base "to_le_bytes c"] by (simp add: nonce_for_message_def)

section \<open>Round trips\<close>

lemma encrypt_then_decrypt:
  assumes "hkdf_ok L" and "aead_ok L" and "rust_str m" and "length (as_bytes m) \<le> 274877906880"
    and "encrypt_message_for_chat L m key ctr = Some c"
  shows "decrypt_message_from_chat L c key ctr = Some (Inr m) \<and> length c = length (as_bytes m) + 16"
proof -
  obtain mk where mk: "hkdf_expand L key (info ''message'') 32 = Some mk" "length mk = 32"
    using assms(1) by (rule hkdf_okE [where n = 32]) simp_all
  obtain nb where nb: "hkdf_expand L key (info ''nonce'') 12 = Some nb" "length nb = 12"
    using assms(1) by (rule hkdf_okE [where n = 12]) simp_all
  obtain c' where "aead_encrypt L mk (nonce_for_message nb ctr) (as_bytes m) = Some c'"
    "aead_decrypt L mk (nonce_for_message nb ctr) c' = Some (as_bytes m)"
    "length c' = length (as_bytes m) + 16"
    using assms(2) mk(2) length_nonce [OF nb(2)] assms(4) by (rule aead_okE)
  then show ?thesis
    using mk(1) nb(1) assms(3,5)
    by (simp add: encrypt_message_for_chat_def decrypt_message_from_chat_def from_utf8_as_bytes)
qed

lemma encrypt_exists:
  assumes "hkdf_ok L" and "aead_ok L" and "length (as_bytes m) \<le> 274877906880"
  shows "\<exists>c. encrypt_message_for_chat L m key ctr = Some c"
proof -
  obtain mk where mk: "hkdf_expand L key (info ''message'') 32 = Some mk" "length mk = 32"
    using assms(1) by (rule hkdf_okE [where n = 32]) simp_all
  obtain nb where nb: "hkdf_expand L key (info ''nonce'') 12 = Some nb" "length nb = 12"
    using assms(1) by (rule hkdf_okE [where n = 12]) simp_all
  obtain c' where "aead_encrypt L mk (nonce_for_message nb ctr) (as_bytes m) = Some c'"
    using assms(2) mk(2) length_nonce [OF nb(2)] assms(3) by (rule aead_okE)
  then show ?thesis using mk(1) nb(1) by (simp add: encrypt_message_for_chat_def)
qed

text \<open>
  A chat message encrypted under a session key and a counter decrypts, under the same key
  and counter, to the same text; neither call panics. (The length bound is that of the cipher.)
\<close>

theorem chat_roundtrip:
  assumes "hkdf_ok L" and "aead_ok L" and "rust_str text" and "length (as_bytes text) \<le> 274877906880"
  shows "\<exists>c. encrypt_message_for_chat L text key ctr = Some c
    \<and> length c = length (as_bytes text) + 16
    \<and> decrypt_message_from_chat L c key ctr = Some (Inr text)"
using encrypt_exists [OF assms(1,2,4)] encrypt_then_decrypt [OF assms] by blast

theorem chat_roundtrip_witness:
  "rust_str (lit ''Hi'') \<and> (\<exists>c. encrypt_message_for_chat demo_lib (lit ''Hi'') (key_of 5) 0 = Some c
     \<and> decrypt_message_from_chat demo_lib c (key_of 5) 0 = Some (Inr (lit ''Hi'')))"
proof -
  have s: "rust_str (lit ''Hi'')" "length (as_bytes (lit ''Hi'')) \<le> 274877906880"
    by (simp_all add: rust_str_def lit_def scalar_def as_bytes_def utf8_char_def)
  show ?thesis using chat_roundtrip [OF demo_hkdf demo_aead s] s(1) by blast
qed

lemma encrypt_blob_decrypts:
  assumes "hkdf_ok L" and "aead_ok L" and "dh_ok L" and "length eph = 32" and "length priv = 32" and "length nonce = 12"
    and "encrypt_blob L (x25519_public L priv) plaintext eph nonce = Inr b"
  shows "decrypt_blob L b priv = Inr plaintext"
proof -
  let ?shared = "diffie_hellman L eph (x25519_public L priv)"
  obtain k c where k: "hkdf_expand L ?shared (info ''blob'') 32 = Some k" "aead_encrypt L k nonce plaintext = Some c"
    and b: "b = x25519_public L eph @ nonce @ c"
    using assms(7) by (auto simp: encrypt_blob_def and_then_Inr)
  have "length k = 32" using hkdf_length [OF assms(1) _ k(1)] by simp
  then have "aead_decrypt L k nonce c = Some plaintext" using aead_okD [OF assms(2) _ assms(6) k(2)] by simp
  moreover have "length (x25519_public L eph) = 32" using assms(3,4) unfolding dh_ok_def by blast
  moreover have "diffie_hellman L priv (x25519_public L eph) = ?shared" using dh_comm [OF assms(3,5,4)] by simp
  ultimately show ?thesis
    using k(1) assms(6) by (simp add: decrypt_blob_def b layout_simps Let_def)
qed

text \<open>
  An envelope made by \<open>encrypt_blob\<close> for a recipient's public key has 60 bytes of overhead
  and the recipient's private key opens it to the same plaintext.
\<close>

theorem blob_roundtrip:
  assumes "hkdf_ok L" and "aead_ok L" and "dh_ok L" and "length eph = 32" and "length priv = 32"
    and "length nonce = 12" and "length plaintext \<le> 274877906880"
  shows "\<exists>b. encrypt_blob L (x25519_public L priv) plaintext eph nonce = Inr b
    \<and> length b = length plaintext + 60 \<and> decrypt_blob L b priv = Inr plaintext"
proof -
  let ?shared = "diffie_hellman L eph (x25519_public L priv)"
  have sh: "diffie_hellman L priv (x25519_public L eph) = ?shared"
    using dh_comm [OF assms(3,5,4)] by simp
  have lp: "length (x25519_public L eph) = 32" using assms(3,4) unfolding dh_ok_def by blast
  obtain k where k: "hkdf_expand L ?shared (info ''blob'') 32 = Some k" "length k = 32"
    using assms(1) by (rule hkdf_okE [where n = 32]) simp_all
  obtain c where "aead_encrypt L k nonce plaintext = Some c" "aead_decrypt L k nonce c = Some plaintext"
    "length c = length plaintext + 16"
    using assms(2) k(2) assms(6,7) by (rule aead_okE)
  then show ?thesis
    using k(1) sh lp assms(6) by (simp add: encrypt_blob_def decrypt_blob_def layout_simps Let_def)
qed

theorem blob_roundtrip_witness:
  "\<exists>b. encrypt_blob demo_lib (x25519_public demo_lib (key_of 3)) [1, 2, 3] (key_of 4) (replicate 12 6) = Inr b
    \<and> decrypt_blob demo_lib b (key_of 3) = Inr [1, 2, 3]"
  using blob_roundtrip [OF demo_hkdf demo_aead demo_dh, of "key_of 4" "key_of 3" "replicate 12 6" "[1, 2, 3]"]
  by auto

section \<open>Keys both sides agree on\<close>

text \<open>
  The two ends of a conversation derive the same keys from their own private key and the
  other's public key: the session key of an ephemeral handshake, the storage key of the chat
  database and the presence token of a given time.
\<close>

theorem shared_keys_agree:
  assumes "dh_ok L" and "length a = 32" and "length b = 32"
  shows "derive_session_key L a (x25519_public L b) = derive_session_key L b (x25519_public L a)
    \<and> load_storage_key L (x25519_public L b) a = load_storage_key L (x25519_public L a) b
    \<and> presence_token L a (x25519_public L b) t = presence_token L b (x25519_public L a) t
    \<and> relay_session_key L (x25519_public L b) a = relay_session_key L (x25519_public L a) b"
  using dh_comm [OF assms]
  by (simp_all add: derive_session_key_def load_storage_key_def presence_token_def relay_session_key_def)

theorem shared_keys_agree_witness:
  "derive_session_key demo_lib (key_of 1) (x25519_public demo_lib (key_of 2)) =
   derive_session_key demo_lib (key_of 2) (x25519_public demo_lib (key_of 1))"
  using shared_keys_agree [OF demo_dh, of "key_of 1" "key_of 2"] by simp

text \<open>
  Presence tokens rotate every 15 seconds. At times from the epoch on, both ends compute
  the same token whenever their clocks lie in the same 15-second slot.
\<close>

lemma presence_token_slot:
  assumes "dh_ok L" and "length a = 32" and "length b = 32"
    and "0 \<le> sint t" and "0 \<le> sint t'" and "sint t div 15 = sint t' div 15"
  shows "presence_token L a (x25519_public L b) t = presence_token L b (x25519_public L a) t'"
proof -
  have "i64_div t 15 = i64_div t' 15"
    using assms(4-6) by (simp add: i64_div_def sdiv_nonneg)
  then show ?thesis
    using dh_comm [OF assms(1-3)] by (simp add: presence_token_def)
qed

end
