(* ===== verification/Crypto_Store.thy ===== *)
theory Crypto_Store
  imports Crypto_Message
begin

text \<open>
  The encrypted conversation of a peer (\<^verbatim>\<open>chat.db\<close>): appending a message under the next
  counter, reading the history back in order, dropping entries that cannot be read
  (\<^verbatim>\<open>crates/crypto/src/lib.rs\<close>). An open database is named by its path; its content is the
  \<open>DbNode\<close> there. \<open>chat_log\<close> is the interface that the callers of the store rely on.
\<close>

section \<open>Definitions\<close>

definition decrypt_message_stored :: "'d crypto_lib \<Rightarrow> bytes \<Rightarrow> bytes \<Rightarrow> crypto_errors + bytes" where
  "decrypt_message_stored L data storagekey =
     (if length data < 12 then Inl CorruptedFile
      else ok_or CryptographicError (aead_decrypt L storagekey (slice 0 12 data) (drop 12 data)))"

definition encrypt_message_stored :: "'d crypto_lib \<Rightarrow> message \<Rightarrow> bytes \<Rightarrow> bytes \<Rightarrow> crypto_errors + bytes" where
  "encrypt_message_stored L msg storagekey nonce =
     and_then (ok_or CryptographicError (msg_to_vec L msg)) (\<lambda>b.
     and_then (ok_or CryptographicError (aead_encrypt L storagekey nonce b)) (\<lambda>ciphertext.
     Inr (nonce @ ciphertext)))"

definition find_counter :: "'d crypto_lib \<Rightarrow> 'd \<Rightarrow> crypto_errors + u64" where
  "find_counter L db =
     (case sled_last L db of
        None \<Rightarrow> Inl CorruptedFile
      | Some None \<Rightarrow> Inr 0
      | Some (Some (key, _)) \<Rightarrow>
          (case from_be_bytes key of None \<Rightarrow> Inl CorruptedFile | Some last_ctr \<Rightarrow> Inr (last_ctr + 1)))"

definition open_db :: "'d crypto_lib \<Rightarrow> path \<Rightarrow> ('d disk, crypto_errors, unit) op" where
  "open_db L p s = (case sled_open L p s of
     (Some d, s') \<Rightarrow> (Inr (), s') | (None, s') \<Rightarrow> (Inl CorruptedFile, s'))"

definition load_peer_chat_file :: "'d crypto_lib \<Rightarrow> bytes \<Rightarrow> ('d disk, crypto_errors, unit) op" where
  "load_peer_chat_file L h = open_db L (chat_path L h)"

text \<open>The database at a path; a handle whose directory is gone reads as a damaged one.\<close>

definition with_db :: "path \<Rightarrow> ('d \<Rightarrow> ('d disk, crypto_errors, 'a) op) \<Rightarrow> ('d disk, crypto_errors, 'a) op" where
  "with_db p f s = (case node_at s p of Some (DbNode d) \<Rightarrow> f d s | _ \<Rightarrow> (Inl CorruptedFile, s))"

definition db_insert :: "'d crypto_lib \<Rightarrow> path \<Rightarrow> bytes \<Rightarrow> bytes \<Rightarrow> ('d disk, crypto_errors, unit) op" where
  "db_insert L p k v = with_db p (\<lambda>d s. case sled_insert L d k v of
     None \<Rightarrow> (Inl CorruptedFile, s) | Some d' \<Rightarrow> (Inr (), put_node p (DbNode d') s))"

definition insert_blob_to_chat :: "'d crypto_lib \<Rightarrow> bytes \<Rightarrow> path \<Rightarrow> ('d disk, crypto_errors, unit) op" where
  "insert_blob_to_chat L blob p =
     op_bind (with_db p (\<lambda>d. op_lift (find_counter L d))) (\<lambda>counter. db_insert L p (to_be_bytes counter) blob)"

definition insert_message_stored ::
  "'d crypto_lib \<Rightarrow> message \<Rightarrow> bytes \<Rightarrow> bytes \<Rightarrow> path \<Rightarrow> ('d disk, crypto_errors, unit) op" where
  "insert_message_stored L msg storagekey nonce p =
     op_bind (op_lift (encrypt_message_stored L msg storagekey nonce)) (\<lambda>encrypted_data.
     op_bind (with_db p (\<lambda>d. op_lift (find_counter L d))) (\<lambda>counter.
     db_insert L p (to_be_bytes counter) encrypted_data))"

text \<open>One stored entry: the message in it, if it decrypts and parses.\<close>

definition read_entry :: "'d crypto_lib \<Rightarrow> bytes \<Rightarrow> bytes \<Rightarrow> message option" where
  "read_entry L storagekey value =
     (case decrypt_message_stored L value storagekey of
        Inl _ \<Rightarrow> None | Inr item \<Rightarrow> msg_from_slice L item)"

text \<open>The \<^verbatim>\<open>filter_map\<close> over the iterator: the messages read and the keys to remove.\<close>

fun scan_entries :: "'d crypto_lib \<Rightarrow> bytes \<Rightarrow> (bytes \<times> bytes) option list \<Rightarrow> message list \<times> bytes list" where
  "scan_entries L sk [] = ([], [])"
| "scan_entries L sk (None # es) = scan_entries L sk es"
| "scan_entries L sk (Some (k, v) # es) =
     (case scan_entries L sk es of (ms, ks) \<Rightarrow>
        (case read_entry L sk v of Some m \<Rightarrow> (m # ms, ks) | None \<Rightarrow> (ms, k # ks)))"

text \<open>\<^verbatim>\<open>db.remove(key).ok()\<close>: a failed removal is ignored.\<close>

definition remove_entry :: "'d crypto_lib \<Rightarrow> bytes \<Rightarrow> 'd \<Rightarrow> 'd" where
  "remove_entry L k d = (case sled_remove L d k of None \<Rightarrow> d | Some d' \<Rightarrow> d')"

definition load_peer_chat_messages ::
  "'d crypto_lib \<Rightarrow> peer_public \<Rightarrow> bytes \<Rightarrow> ('d disk, crypto_errors, messages) op" where
  "load_peer_chat_messages L peer storagekey =
     (let h = identity_hash L (pk_public peer) (pk_verifying peer); p = chat_path L h in
      op_bind (open_db L p) (\<lambda>_. with_db p (\<lambda>d s.
        case scan_entries L storagekey (sled_iter L d) of (ms, ks) \<Rightarrow>
          (Inr \<lparr>ms_data = ms, ms_peer = hex_encode L h\<rparr>,
           put_node p (DbNode (fold (remove_entry L) ks d)) s))))"

section \<open>The log inside a database\<close>

text \<open>
  A chat database is a log when its keys are big-endian counters; \<open>log_next\<close> is the counter
  the next message gets, \<open>log_msgs\<close> the messages read back.
\<close>

definition log_keys :: "(bytes \<times> bytes) list \<Rightarrow> bool" where
  "log_keys es \<longleftrightarrow> list_all (\<lambda>e. length (fst e) = 8) es"

definition log_msgs :: "'d crypto_lib \<Rightarrow> bytes \<Rightarrow> (bytes \<times> bytes) list \<Rightarrow> message list" where
  "log_msgs L sk es = List.map_filter (\<lambda>e. read_entry L sk (snd e)) es"

definition log_clean :: "'d crypto_lib \<Rightarrow> bytes \<Rightarrow> (bytes \<times> bytes) list \<Rightarrow> bool" where
  "log_clean L sk es \<longleftrightarrow> list_all (\<lambda>e. read_entry L sk (snd e) \<noteq> None) es"

lemma scan_log: "fst (scan_entries L sk (map Some es)) = log_msgs L sk es"
  by (induction es) (auto simp: log_msgs_def List.map_filter_simps split: prod.splits option.splits)

lemma scan_clean: "log_clean L sk es \<Longrightarrow> snd (scan_entries L sk (map Some es)) = []"
  by (induction es) (auto simp: log_clean_def split: prod.splits option.splits)

lemma log_msgs_append: "log_msgs L sk (es @ fs) = log_msgs L sk es @ log_msgs L sk fs"
  by (simp add: log_msgs_def List.map_filter_def)

text \<open>A sorted association list is determined by its map.\<close>

lemma sorted_alist_unique:
  fixes xs ys :: "('k :: linorder \<times> 'v) list"
  assumes "sorted (map fst xs)" "distinct (map fst xs)" "sorted (map fst ys)" "distinct (map fst ys)"
    and "map_of xs = map_of ys"
  shows "xs = ys"
proof -
  have rebuild: "map (\<lambda>k. (k, the (map_of zs k))) (map fst zs) = zs" if "distinct (map fst zs)"
    for zs :: "('k \<times> 'v) list"
    unfolding list.map_comp using that by (intro map_idI) (auto simp: map_of_is_SomeI)
  have "set xs = set ys" using map_of_inject_set [OF assms(2,4)] assms(5) by simp
  then have "map fst xs = map fst ys"
    using sorted_distinct_set_unique [OF assms(1,2,3,4)] by simp
  with assms(5) rebuild [OF assms(2)] rebuild [OF assms(4)] show ?thesis by metis
qed

lemma insert_at_end:
  fixes xs :: "('k :: linorder \<times> 'v) list"
  assumes "sorted (map fst xs)" "distinct (map fst xs)" "sorted (map fst ys)" "distinct (map fst ys)"
    and "map_of ys = (map_of xs)(k \<mapsto> v)" and "\<forall>x \<in> set xs. fst x < k"
  shows "ys = xs @ [(k, v)]"
proof -
  have nk: "k \<notin> fst ` set xs" using assms(6) by auto
  have "map_of xs k = None" using nk by (simp add: map_of_eq_None_iff)
  then have "map_of (xs @ [(k, v)]) = map_of ys"
    using assms(5) by (auto simp: map_add_def fun_eq_iff split: option.splits)
  moreover have "sorted (map fst (xs @ [(k, v)]))"
    using assms(1,6) by (auto simp: sorted_append)
  moreover have "distinct (map fst (xs @ [(k, v)]))"
    using assms(2) nk by simp
  ultimately show ?thesis using sorted_alist_unique assms(3,4) by metis
qed

section \<open>Appending\<close>

text \<open>
  How many messages the counter still has room for: the keys run up to \<open>2 ^ 64 - 1\<close>, and
  the next one after that would wrap around to 0.
\<close>

definition log_room :: "(bytes \<times> bytes) list \<Rightarrow> nat" where
  "log_room es = (if es = [] then 2 ^ 64 else 2 ^ 64 - 1 - le_value (rev (fst (last es))))"

lemma from_be_some: "length k = 8 \<Longrightarrow> from_be_bytes k = Some (word_of_nat (le_value (rev k)))"
  by (simp add: from_be_bytes_def)

lemma find_counter_log:
  assumes "sled_map_ok L a" and "log_keys (a d)"
  shows "find_counter L d =
    Inr (if a d = [] then 0 else word_of_nat (le_value (rev (fst (last (a d))))) + 1)"
proof (cases "a d = []")
  case True
  then show ?thesis using sled_okD(4) [OF assms(1), of d] by (simp add: find_counter_def)
next
  case False
  then have "length (fst (last (a d))) = 8" using assms(2) by (simp add: log_keys_def list_all_iff)
  with False show ?thesis
    using sled_okD(4) [OF assms(1), of d]
    by (cases "last (a d)") (simp add: find_counter_def from_be_some)
qed

text \<open>With room left, the next key is larger than every key in the log.\<close>

lemma next_key_largest:
  assumes "sorted (map fst es)" and "log_keys es" and "0 < log_room es" and "es \<noteq> []"
  defines "c \<equiv> word_of_nat (le_value (rev (fst (last es)))) + 1 :: u64"
  shows "\<forall>e \<in> set es. fst e < to_be_bytes c"
    and "le_value (rev (to_be_bytes c)) = le_value (rev (fst (last es))) + 1"
proof -
  let ?k = "fst (last es)"
  have lk: "length ?k = 8" using assms(2,4) by (simp add: log_keys_def list_all_iff)
  have v: "le_value (rev ?k) + 1 < 2 ^ 64" using assms(3,4) by (simp add: log_room_def)
  have u: "unat c = le_value (rev ?k) + 1"
    using v unfolding c_def by (simp add: unat_word_ariths unat_of_nat)
  show e: "le_value (rev (to_be_bytes c)) = le_value (rev ?k) + 1"
    using u by (simp add: to_be_bytes_def le_value_to_le)
  have "rev (rev ?k) < rev (to_le_bytes c)"
    using lk u by (subst rev_lex_iff) (simp_all add: le_value_to_le)
  then have lt: "?k < to_be_bytes c" by (simp add: to_be_bytes_def)
  show "\<forall>x \<in> set es. fst x < to_be_bytes c"
  proof
    fix x
    assume "x \<in> set es"
    then have "fst x \<le> ?k"
      using assms(1,4) by (cases es rule: rev_cases) (auto simp: sorted_append)
    with lt show "fst x < to_be_bytes c" by simp
  qed
qed

lemma room_after:
  assumes "0 < log_room es" and "es = [] \<Longrightarrow> k = to_be_bytes 0"
    and "es \<noteq> [] \<Longrightarrow> le_value (rev k) = le_value (rev (fst (last es))) + 1"
  shows "log_room (es @ [(k, v)]) = log_room es - 1"
  using assms by (cases "es = []") (simp_all add: log_room_def to_be_bytes_def le_value_to_le)

text \<open>The effect of \<open>db_insert\<close> under the next counter: the entry goes to the end.\<close>

lemma append_entry:
  assumes sl: "sled_map_ok L a" and lk: "log_keys (a d)" and room: "0 < log_room (a d)"
    and nd: "node_at s p = Some (DbNode d)"
  obtains c d' where "find_counter L d = Inr c"
    and "db_insert L p (to_be_bytes c) v s = (Inr (), put_node p (DbNode d') s)"
    and "a d' = a d @ [(to_be_bytes c, v)]" and "log_keys (a d')" and "log_room (a d') = log_room (a d) - 1"
proof -
  obtain c where c: "find_counter L d = Inr c" using find_counter_log [OF sl lk] by blast
  obtain d' where i: "sled_insert L d (to_be_bytes c) v = Some d'"
    and m: "map_of (a d') = (map_of (a d))(to_be_bytes c \<mapsto> v)"
    using sl unfolding sled_map_ok_def by blast
  note sd = sled_okD [OF sl]
  have big: "\<forall>e \<in> set (a d). fst e < to_be_bytes c"
    using next_key_largest(1) [OF sd(1) lk room] c find_counter_log [OF sl lk] by (cases "a d = []") auto
  have app: "a d' = a d @ [(to_be_bytes c, v)]"
    by (rule insert_at_end [OF sd(1) sd(2) sd(1) sd(2) m big])
  have "log_room (a d') = log_room (a d) - 1"
    unfolding app using next_key_largest(2) [OF sd(1) lk room] c find_counter_log [OF sl lk]
    by (intro room_after [OF room]) (auto split: if_splits)
  moreover have "log_keys (a d')" using lk by (simp add: app log_keys_def)
  moreover have "db_insert L p (to_be_bytes c) v s = (Inr (), put_node p (DbNode d') s)"
    using nd i by (simp add: db_insert_def with_db_def)
  ultimately show ?thesis using that c app by blast
qed

lemma read_entry_encrypted:
  assumes "aead_ok L" and "msg_codec_ok L" and "length sk = 32" and "length nonce = 12"
    and "msg_to_vec L m = Some b" and "length b \<le> 274877906880"
  shows "\<exists>v. encrypt_message_stored L m sk nonce = Inr v \<and> read_entry L sk v = Some m"
proof -
  obtain c where "aead_encrypt L sk nonce b = Some c" "aead_decrypt L sk nonce c = Some b"
    using assms(1,3,4,6) by (rule aead_okE)
  then show ?thesis
    using assms(2,4,5)
    by (simp add: encrypt_message_stored_def read_entry_def decrypt_message_stored_def layout_simps msg_codec_ok_def)
qed

lemma stored_decrypts:
  assumes "aead_ok L" and "msg_codec_ok L" and "length sk = 32" and "length nonce = 12"
    and "encrypt_message_stored L m sk nonce = Inr v"
  shows "\<exists>plain. decrypt_message_stored L v sk = Inr plain \<and> msg_from_slice L plain = Some m"
proof -
  obtain b c where "msg_to_vec L m = Some b" "aead_encrypt L sk nonce b = Some c" "v = nonce @ c"
    using assms(5) by (auto simp: encrypt_message_stored_def and_then_Inr)
  then show ?thesis
    using assms(2,4) aead_okD [OF assms(1,3,4)]
    by (simp add: decrypt_message_stored_def layout_simps msg_codec_ok_def)
qed

section \<open>The interface of the store\<close>

locale chat_log =
  fixes inv :: "'s \<Rightarrow> bool"
    and room :: "'s \<Rightarrow> nat"
    and accepts :: "'s \<Rightarrow> 'm \<Rightarrow> bool"
    and append :: "'m \<Rightarrow> 's \<Rightarrow> 's"
    and read :: "'s \<Rightarrow> 'r list"
    and view :: "'m \<Rightarrow> 'r"
  assumes read_append: "inv s \<Longrightarrow> 0 < room s \<Longrightarrow> accepts s m \<Longrightarrow> read (append m s) = read s @ [view m]"
    and inv_append: "inv s \<Longrightarrow> 0 < room s \<Longrightarrow> accepts s m \<Longrightarrow> inv (append m s)"
    and room_append: "inv s \<Longrightarrow> 0 < room s \<Longrightarrow> accepts s m \<Longrightarrow> room (append m s) = room s - 1"
    and accepts_append: "accepts (append m s) = accepts s"
begin

lemma read_run:
  assumes "inv s" and "length ms \<le> room s" and "\<forall>m \<in> set ms. accepts s m"
  shows "inv (fold append ms s) \<and> read (fold append ms s) = read s @ map view ms"
  using assms
proof (induction ms arbitrary: s)
  case (Cons m ms)
  then have pos: "0 < room s" "accepts s m" by simp_all
  have "inv (append m s)" "length ms \<le> room (append m s)" "\<forall>x \<in> set ms. accepts (append m s) x"
    using Cons.prems inv_append pos by (simp_all add: room_append accepts_append)
  from Cons.IH [OF this] show ?case
    using read_append [OF Cons.prems(1) pos] by simp
qed simp

end

text \<open>A conversation: the library, the view of its database, the storage key, the peer, the disk.\<close>

record 'd chat =
  ch_lib :: "'d crypto_lib"
  ch_abs :: "'d \<Rightarrow> (bytes \<times> bytes) list"
  ch_key :: bytes
  ch_peer :: peer_public
  ch_disk :: "'d disk"

definition ch_path :: "'d chat \<Rightarrow> path" where
  "ch_path c = chat_path (ch_lib c) (identity_hash (ch_lib c) (pk_public (ch_peer c)) (pk_verifying (ch_peer c)))"

definition ch_entries :: "'d chat \<Rightarrow> (bytes \<times> bytes) list" where
  "ch_entries c = (case node_at (ch_disk c) (ch_path c) of Some (DbNode d) \<Rightarrow> ch_abs c d | _ \<Rightarrow> [])"

definition chat_inv :: "'d chat \<Rightarrow> bool" where
  "chat_inv c \<longleftrightarrow> sled_ok (ch_lib c) (ch_abs c) \<and> aead_ok (ch_lib c) \<and> msg_codec_ok (ch_lib c)
     \<and> length (ch_key c) = 32 \<and> (\<exists>d. node_at (ch_disk c) (ch_path c) = Some (DbNode d))
     \<and> log_keys (ch_entries c) \<and> log_clean (ch_lib c) (ch_key c) (ch_entries c)"

definition chat_room :: "'d chat \<Rightarrow> nat" where
  "chat_room c = log_room (ch_entries c)"

text \<open>A message (with the random nonce drawn for it) that the serialiser and the cipher take.\<close>

definition chat_accepts :: "'d chat \<Rightarrow> message \<times> bytes \<Rightarrow> bool" where
  "chat_accepts c mn \<longleftrightarrow> length (snd mn) = 12 \<and>
     (\<exists>b. msg_to_vec (ch_lib c) (fst mn) = Some b \<and> length b \<le> 274877906880)"

text \<open>Opening the database and inserting one message, as the callers do it.\<close>

definition store_message :: "'d crypto_lib \<Rightarrow> bytes \<Rightarrow> message \<Rightarrow> bytes \<Rightarrow> bytes \<Rightarrow> ('d disk, crypto_errors, unit) op" where
  "store_message L h m sk nonce =
     op_bind (load_peer_chat_file L h) (\<lambda>_. insert_message_stored L m sk nonce (chat_path L h))"

definition chat_append :: "message \<times> bytes \<Rightarrow> 'd chat \<Rightarrow> 'd chat" where
  "chat_append mn c = c\<lparr>ch_disk := snd (store_message (ch_lib c)
     (identity_hash (ch_lib c) (pk_public (ch_peer c)) (pk_verifying (ch_peer c))) (fst mn) (ch_key c) (snd mn) (ch_disk c))\<rparr>"

definition chat_read :: "'d chat \<Rightarrow> message list" where
  "chat_read c = (case fst (load_peer_chat_messages (ch_lib c) (ch_peer c) (ch_key c) (ch_disk c)) of
     Inl _ \<Rightarrow> [] | Inr ms \<Rightarrow> ms_data ms)"

lemma open_existing:
  assumes "sled_open_ok L a" and "node_at s p = Some (DbNode d)"
  obtains s' where "open_db L p s = (Inr (), s')" and "node_at s' p = Some (DbNode d)" and "fault s' = fault s"
    and "\<And>q n. node_at s q = Some n \<Longrightarrow> node_at s' q = Some n"
proof -
  obtain r s' where o: "sled_open L p s = (r, s')" by (cases "sled_open L p s")
  note h = assms(1) [unfolded sled_open_ok_def, rule_format, OF o]
  have r: "r = Some d" using h assms(2) by blast
  show ?thesis
  proof (rule that)
    show "open_db L p s = (Inr (), s')" using o r by (simp add: open_db_def)
    show "node_at s' p = Some (DbNode d)" "fault s' = fault s" using h r by blast+
    show "node_at s' q = Some n" if "node_at s q = Some n" for q n
      using h r that assms(2) by (cases "q = p") auto
  qed
qed

lemma chat_append_effect:
  assumes inv: "chat_inv c" and room: "0 < chat_room c" and acc: "chat_accepts c mn"
  obtains k v where "ch_entries (chat_append mn c) = ch_entries c @ [(k, v)]" and "length k = 8"
    and "read_entry (ch_lib c) (ch_key c) v = Some (fst mn)"
    and "\<exists>d. node_at (ch_disk (chat_append mn c)) (ch_path c) = Some (DbNode d)"
    and "log_room (ch_entries (chat_append mn c)) = chat_room c - 1"
    and "fst (store_message (ch_lib c) (identity_hash (ch_lib c) (pk_public (ch_peer c)) (pk_verifying (ch_peer c)))
      (fst mn) (ch_key c) (snd mn) (ch_disk c)) = Inr ()"
proof -
  let ?L = "ch_lib c" and ?a = "ch_abs c" and ?p = "ch_path c"
  let ?h = "identity_hash ?L (pk_public (ch_peer c)) (pk_verifying (ch_peer c))"
  from inv have sl: "sled_map_ok ?L ?a" "sled_open_ok ?L ?a" "aead_ok ?L" "msg_codec_ok ?L" "length (ch_key c) = 32"
    by (simp_all add: chat_inv_def sled_ok_def)
  from inv obtain d where d: "node_at (ch_disk c) ?p = Some (DbNode d)" by (auto simp: chat_inv_def)
  have e: "ch_entries c = ?a d" using d by (simp add: ch_entries_def)
  obtain s' where o: "open_db ?L ?p (ch_disk c) = (Inr (), s')" and n: "node_at s' ?p = Some (DbNode d)"
    using sl(2) d by (rule open_existing)
  obtain v where v: "encrypt_message_stored ?L (fst mn) (ch_key c) (snd mn) = Inr v"
    and rv: "read_entry ?L (ch_key c) v = Some (fst mn)"
    using read_entry_encrypted [OF sl(3-5)] acc unfolding chat_accepts_def by blast
  have lk: "log_keys (?a d)" "0 < log_room (?a d)" using inv room e by (simp_all add: chat_inv_def chat_room_def)
  obtain k d' where c: "find_counter ?L d = Inr k"
    and i: "db_insert ?L ?p (to_be_bytes k) v s' = (Inr (), put_node ?p (DbNode d') s')"
    and app: "?a d' = ?a d @ [(to_be_bytes k, v)]" and rm: "log_room (?a d') = log_room (?a d) - 1"
    using sl(1) lk n by (rule append_entry)
  have st: "store_message ?L ?h (fst mn) (ch_key c) (snd mn) (ch_disk c) = (Inr (), put_node ?p (DbNode d') s')"
    using o n v c i
    by (simp add: store_message_def load_peer_chat_file_def insert_message_stored_def with_db_def ch_path_def)
  then have disk: "ch_disk (chat_append mn c) = put_node ?p (DbNode d') s'"
    by (simp add: chat_append_def)
  have "ch_path (chat_append mn c) = ?p" "ch_abs (chat_append mn c) = ?a"
    by (simp_all add: chat_append_def ch_path_def)
  then have "ch_entries (chat_append mn c) = ?a d'" by (simp add: ch_entries_def disk)
  then show ?thesis
    using app e rv rm disk st by (intro that [of "to_be_bytes k" v]) (simp_all add: chat_room_def)
qed

lemma load_messages_log:
  assumes "sled_ok L a" and h: "h = identity_hash L (pk_public peer) (pk_verifying peer)"
    and d: "node_at s (chat_path L h) = Some (DbNode d)"
  shows "fst (load_peer_chat_messages L peer sk s) =
    Inr \<lparr>ms_data = log_msgs L sk (a d), ms_peer = hex_encode L h\<rparr>"
proof -
  have sl: "sled_map_ok L a" "sled_open_ok L a" using assms(1) by (simp_all add: sled_ok_def)
  obtain s' where o: "open_db L (chat_path L h) s = (Inr (), s')"
    and n: "node_at s' (chat_path L h) = Some (DbNode d)"
    using sl(2) d by (rule open_existing)
  have "fst (scan_entries L sk (sled_iter L d)) = log_msgs L sk (a d)"
    using sled_okD(3) [OF sl(1), of d] by (simp add: scan_log)
  then show ?thesis
    using o n by (auto simp: load_peer_chat_messages_def Let_def with_db_def h split: prod.splits)
qed

lemma chat_read_log: "chat_inv c \<Longrightarrow> chat_read c = log_msgs (ch_lib c) (ch_key c) (ch_entries c)"
  using load_messages_log [of "ch_lib c" "ch_abs c" _ "ch_peer c" "ch_disk c"]
  by (auto simp: chat_inv_def chat_read_def ch_path_def ch_entries_def)

lemma chat_append_frame:
  "ch_lib (chat_append mn c) = ch_lib c" "ch_abs (chat_append mn c) = ch_abs c"
  "ch_key (chat_append mn c) = ch_key c" "ch_path (chat_append mn c) = ch_path c"
  by (simp_all add: chat_append_def ch_path_def)

lemma chat_inv_append:
  assumes "chat_inv c" and "0 < chat_room c" and "chat_accepts c mn"
  shows "chat_inv (chat_append mn c)"
proof -
  from assms obtain k v where "ch_entries (chat_append mn c) = ch_entries c @ [(k, v)]" "length k = 8"
    "read_entry (ch_lib c) (ch_key c) v = Some (fst mn)"
    "\<exists>d. node_at (ch_disk (chat_append mn c)) (ch_path c) = Some (DbNode d)"
    by (rule chat_append_effect)
  with assms(1) show ?thesis by (simp add: chat_inv_def chat_append_frame log_keys_def log_clean_def)
qed

interpretation chat_db: chat_log chat_inv chat_room chat_accepts chat_append chat_read fst
proof
  fix c :: "'a chat" and mn
  assume h: "chat_inv c" "0 < chat_room c" "chat_accepts c mn"
  then obtain k v where "ch_entries (chat_append mn c) = ch_entries c @ [(k, v)]"
    "read_entry (ch_lib c) (ch_key c) v = Some (fst mn)"
    and room: "log_room (ch_entries (chat_append mn c)) = chat_room c - 1"
    by (rule chat_append_effect)
  with h(1) chat_inv_append [OF h] show "chat_read (chat_append mn c) = chat_read c @ [fst mn]"
    by (simp add: chat_read_log chat_append_frame log_msgs_append)
      (simp add: log_msgs_def List.map_filter_simps)
  show "chat_room (chat_append mn c) = chat_room c - 1" using room by (simp add: chat_room_def)
  show "chat_inv (chat_append mn c)" using h by (rule chat_inv_append)
qed (simp add: chat_accepts_def fun_eq_iff chat_append_frame)

text \<open>
  C9: The conversation store is an append-only log. From a database whose entries are all
  readable, any sequence of messages stored one after another (fewer than the counter has room
  for) is read back after the earlier history, in the order stored, each with its text, author
  and timestamp; entries stay readable.
\<close>

theorem history_appends:
  assumes "chat_inv c" and "length ms \<le> chat_room c" and "\<forall>m \<in> set ms. chat_accepts c m"
  shows "chat_inv (fold chat_append ms c) \<and> chat_read (fold chat_append ms c) = chat_read c @ map fst ms"
  using assms by (rule chat_db.read_run)

definition demo_chat :: "demo_db chat" where
  "demo_chat = \<lparr>ch_lib = demo_lib, ch_abs = demo_entries, ch_key = key_of 8,
     ch_peer = \<lparr>pk_public = key_of 1, pk_verifying = key_of 2\<rparr>,
     ch_disk = demo_disk [(chat_path demo_lib (key_of 1), DbNode [])]\<rparr>"

lemma demo_chat_inv: "chat_inv demo_chat \<and> chat_room demo_chat = 2 ^ 64"
proof -
  have "ch_path demo_chat = chat_path demo_lib (key_of 1)"
    by code_simp
  then have "node_at (ch_disk demo_chat) (ch_path demo_chat) = Some (DbNode [])"
    by (simp add: demo_chat_def node_at_def demo_disk_def)
  then show ?thesis
    by (simp add: chat_inv_def chat_room_def ch_entries_def log_room_def)
      (simp add: demo_chat_def demo_laws demo_entries_def log_keys_def log_clean_def)
qed

theorem history_appends_witness:
  "chat_read (fold chat_append
     [(from_parts (lit ''hi'') You 5, replicate 12 1), (from_parts (lit ''yo'') Peer 6, replicate 12 2)] demo_chat) =
   chat_read demo_chat @ [from_parts (lit ''hi'') You 5, from_parts (lit ''yo'') Peer 6]"
proof -
  let ?ms = "[(from_parts (lit ''hi'') You 5, replicate 12 1), (from_parts (lit ''yo'') Peer 6, replicate 12 2)]"
  have acc: "\<forall>m \<in> set ?ms. chat_accepts demo_chat m"
    by (simp add: chat_accepts_def demo_chat_def demo_lib_def demo_msg_enc_def from_parts_def rust_str_def
        lit_def scalar_def as_bytes_def utf8_char_def)
  show ?thesis using history_appends [OF _ _ acc] demo_chat_inv by simp
qed

lemma scan_removed: "snd (scan_entries L sk (map Some es)) = map fst (filter (\<lambda>e. read_entry L sk (snd e) = None) es)"
  by (induction es) (auto split: prod.splits option.splits)

lemma entries_removed:
  assumes "sled_map_ok L a"
  shows "a (fold (remove_entry L) ks d) = filter (\<lambda>e. fst e \<notin> set ks) (a d)"
proof (induction ks arbitrary: d)
  case (Cons k ks)
  obtain d' where r: "sled_remove L d k = Some d'" and m: "map_of (a d') = (map_of (a d))(k := None)"
    using assms unfolding sled_map_ok_def by blast
  note sd = sled_okD [OF assms]
  have "map_of (filter (\<lambda>e. fst e \<noteq> k) es) = (map_of es)(k := None)" for es :: "(bytes \<times> bytes) list"
    by (induction es) auto
  then have "a d' = filter (\<lambda>e. fst e \<noteq> k) (a d)"
    using sd m by (intro sorted_alist_unique) (auto simp: sorted_filter distinct_map_filter)
  with Cons r show ?case by (simp add: remove_entry_def filter_filter conj_commute)
qed simp

text \<open>
  C33: Messages that cannot be read (wrong key, damaged ciphertext, not a message) never hide the
  others: \<open>load_peer_chat_messages\<close> returns exactly the readable entries in key order, and it
  removes the unreadable ones, so a second read returns the same messages.
\<close>

theorem unreadable_entries_dropped:
  assumes "sled_ok L a" and "h = identity_hash L (pk_public peer) (pk_verifying peer)"
    and "node_at s (chat_path L h) = Some (DbNode d)"
  shows "\<exists>d' s'. load_peer_chat_messages L peer sk s =
      (Inr \<lparr>ms_data = log_msgs L sk (a d), ms_peer = hex_encode L h\<rparr>, s')
    \<and> node_at s' (chat_path L h) = Some (DbNode d')
    \<and> a d' = filter (\<lambda>e. read_entry L sk (snd e) \<noteq> None) (a d)
    \<and> log_msgs L sk (a d') = log_msgs L sk (a d)"
proof -
  have sl: "sled_map_ok L a" "sled_open_ok L a" using assms(1) by (simp_all add: sled_ok_def)
  obtain s1 where o: "open_db L (chat_path L h) s = (Inr (), s1)"
    and n: "node_at s1 (chat_path L h) = Some (DbNode d)"
    using sl(2) assms(3) by (rule open_existing)
  let ?bad = "snd (scan_entries L sk (sled_iter L d))"
  let ?d' = "fold (remove_entry L) ?bad d"
  have it: "sled_iter L d = map Some (a d)" by (rule sled_okD(3) [OF sl(1)])
  have bad: "fst e \<in> set ?bad \<longleftrightarrow> read_entry L sk (snd e) = None" if "e \<in> set (a d)" for e
  proof -
    obtain k v where e: "e = (k, v)" by (cases e)
    show ?thesis
      using that sled_okD(2) [OF sl(1), of d] by (force simp: e it scan_removed dest: eq_key_imp_eq_value)
  qed
  have f: "a ?d' = filter (\<lambda>e. read_entry L sk (snd e) \<noteq> None) (a d)"
    unfolding entries_removed [OF sl(1)] using bad by (intro filter_cong) auto
  have "log_msgs L sk (filter (\<lambda>e. read_entry L sk (snd e) \<noteq> None) es) = log_msgs L sk es" for es
    by (simp add: log_msgs_def List.map_filter_def conj_commute)
  moreover have "load_peer_chat_messages L peer sk s =
      (Inr \<lparr>ms_data = log_msgs L sk (a d), ms_peer = hex_encode L h\<rparr>, put_node (chat_path L h) (DbNode ?d') s1)"
    using o n scan_log [of L sk "a d"]
    by (auto simp: load_peer_chat_messages_def Let_def with_db_def assms(2) it split: prod.splits)
  ultimately show ?thesis using f by auto
qed

theorem unreadable_entries_dropped_witness:
  "let s = demo_disk [(chat_path demo_lib (key_of 1), DbNode [(to_be_bytes 0, [1, 2, 3])])];
       peer = \<lparr>pk_public = key_of 1, pk_verifying = key_of 2\<rparr>
   in \<exists>d' s'. load_peer_chat_messages demo_lib peer (key_of 8) s = (Inr \<lparr>ms_data = [], ms_peer = demo_hex (key_of 1)\<rparr>, s')
     \<and> node_at s' (chat_path demo_lib (key_of 1)) = Some (DbNode d') \<and> demo_entries d' = []"
proof -
  let ?s = "demo_disk [(chat_path demo_lib (key_of 1), DbNode [(to_be_bytes 0, [1, 2, 3])])]"
  let ?peer = "\<lparr>pk_public = key_of 1, pk_verifying = key_of 2\<rparr>"
  have h: "key_of 1 = identity_hash demo_lib (pk_public ?peer) (pk_verifying ?peer)" by code_simp
  have n: "node_at ?s (chat_path demo_lib (key_of 1)) = Some (DbNode [(to_be_bytes 0, [1, 2, 3])])"
    by (simp add: node_at_def demo_disk_def)
  have e: "demo_entries [(to_be_bytes 0, [1, 2, 3])] = [(to_be_bytes 0, [1, 2, 3])]"
    by (simp add: demo_entries_def)
  have r: "read_entry demo_lib (key_of 8) [1, 2, 3] = None"
    by (simp add: read_entry_def decrypt_message_stored_def)
  have "hex_encode demo_lib = demo_hex" by (simp add: demo_lib_def)
  then show ?thesis
    using unreadable_entries_dropped [OF demo_sled h n, of "key_of 8"]
    by (auto simp: Let_def e r log_msgs_def List.map_filter_simps)
qed

end
