(* ===== verification/P2P_Frame.thy ===== *)
theory P2P_Frame
  imports Crypto_Store
begin

text \<open>
  The signed frames of a peer-to-peer conversation (\<^verbatim>\<open>crates/p2p/src/lib.rs\<close>): what is signed,
  how a received frame is verified, the freshness window, and the handling of one inbound
  frame of a session. The MessagePack encoders are the parameter \<open>p2p_codec\<close>. The clock is an
  argument.
\<close>

section \<open>Data\<close>

record ping =
  ping_pubkey :: bytes
  ping_timestamp :: u64

datatype p2p_error =
  CommunicationError | Timeout | StorageFailed rstr | P2PSerializationFailed | P2PDeserializationFailed
| P2PCryptographicError

datatype punch_hole_result = PunchSendError | PunchRecvError | PunchTimeout

datatype p2p_message =
  Init bytes
| ChatMessage i64 bytes
| HeartBeat
| SyncRequest i64
| SyncResponse bytes
| End

record peer_message =
  pm_timestamp :: i64
  pm_payload :: p2p_message
  pm_sender :: bytes
  pm_signature :: bytes

record stun_ping =
  sp_pub_key :: bytes
  sp_verif :: bytes
  sp_timestamp :: i64
  sp_signature :: bytes

record p2p_codec =
  ping_to_vec :: "ping \<Rightarrow> bytes option"
  ping_from_slice :: "bytes \<Rightarrow> ping option"
  pm_to_vec :: "peer_message \<Rightarrow> bytes option"
  pm_from_slice :: "bytes \<Rightarrow> peer_message option"
  stun_ping_to_vec :: "stun_ping \<Rightarrow> bytes option"
  stun_reply_from_slice :: "bytes \<Rightarrow> rstr option"

text \<open>The fixed-size arrays inside a frame have their sizes.\<close>

fun wf_payload :: "p2p_message \<Rightarrow> bool" where
  "wf_payload (Init ephermal) \<longleftrightarrow> length ephermal = 32"
| "wf_payload _ \<longleftrightarrow> True"

definition wf_frame :: "peer_message \<Rightarrow> bool" where
  "wf_frame m \<longleftrightarrow> length (pm_sender m) = 32 \<and> wf_payload (pm_payload m)"

text \<open>MessagePack: every frame serialises, and deserialises to itself.\<close>

definition frame_codec_ok :: "p2p_codec \<Rightarrow> bool" where
  "frame_codec_ok C \<longleftrightarrow>
     (\<forall>m. wf_frame m \<longrightarrow> (\<exists>b. pm_to_vec C m = Some b \<and> pm_from_slice C b = Some m))"

section \<open>Signing and verifying\<close>

fun payload_bytes :: "p2p_message \<Rightarrow> bytes" where
  "payload_bytes (Init ephermal) = ephermal"
| "payload_bytes (ChatMessage counter message_bytes) = to_le_bytes counter @ message_bytes"
| "payload_bytes End = as_bytes (lit ''EndOfConversation'')"
| "payload_bytes HeartBeat = as_bytes (lit ''Heartbeat'')"
| "payload_bytes (SyncRequest last_timestamp) = to_le_bytes last_timestamp"
| "payload_bytes (SyncResponse msgs) = msgs"

definition data_to_sign :: "bytes \<Rightarrow> i64 \<Rightarrow> p2p_message \<Rightarrow> bytes" where
  "data_to_sign sender timestamp payload = sender @ to_le_bytes timestamp @ payload_bytes payload"

definition peer_message_new :: "'d crypto_lib \<Rightarrow> i64 \<Rightarrow> p2p_message \<Rightarrow> bytes \<Rightarrow> bytes \<Rightarrow> peer_message" where
  "peer_message_new L now payload sender signing =
     \<lparr>pm_timestamp = now, pm_payload = payload, pm_sender = sender,
      pm_signature = sign_challenge L signing (data_to_sign sender now payload)\<rparr>"

definition verify :: "'d crypto_lib \<Rightarrow> peer_message \<Rightarrow> bytes \<Rightarrow> bytes \<Rightarrow> bool" where
  "verify L pm expected_x25519 expected_verifying =
     (if pm_sender pm \<noteq> expected_x25519 then False
      else if \<not> ed_sig_valid L (pm_signature pm) then False
      else is_ok (verify_challenge L expected_verifying
             (data_to_sign (pm_sender pm) (pm_timestamp pm) (pm_payload pm)) (pm_signature pm)))"

definition frame :: "'d crypto_lib \<Rightarrow> p2p_codec \<Rightarrow> i64 \<Rightarrow> p2p_message \<Rightarrow> bytes \<Rightarrow> bytes \<Rightarrow> bytes option" where
  "frame L C now payload my_pub signing = pm_to_vec C (peer_message_new L now payload my_pub signing)"

definition am_i_first :: "bytes \<Rightarrow> bytes \<Rightarrow> bool" where
  "am_i_first mypubkey remote_pubkey \<longleftrightarrow> remote_pubkey < mypubkey"

definition MAX_FRAME_AGE_SECS :: int where
  "MAX_FRAME_AGE_SECS = 120"

text \<open>\<^verbatim>\<open>(now - frame_ts).abs() <= MAX_FRAME_AGE_SECS\<close>, with the wrap-around of a release build.\<close>

definition frame_is_fresh :: "i64 \<Rightarrow> i64 \<Rightarrow> bool" where
  "frame_is_fresh frame_ts now \<longleftrightarrow> sint (i64_abs (now - frame_ts)) \<le> MAX_FRAME_AGE_SECS"

datatype session_event = SessionMessage rstr i64 | SessionClosed

text \<open>
  One inbound frame of a session: whether the session goes on, the last accepted counter, the
  event handed to the application. \<open>evt_ok\<close> tells whether the application still listens.
  \<open>None\<close> is a panic (a failed key derivation).
\<close>

definition handle_inbound_frame ::
  "'d crypto_lib \<Rightarrow> p2p_codec \<Rightarrow> i64 \<Rightarrow> bytes \<Rightarrow> bytes \<Rightarrow> bytes \<Rightarrow> bytes \<Rightarrow> i64 \<Rightarrow> bool
   \<Rightarrow> (bool \<times> i64 \<times> session_event option) option" where
  "handle_inbound_frame L C now bs recv_key peer_x verifying last_counter evt_ok =
     (case pm_from_slice C bs of
        None \<Rightarrow> Some (True, last_counter, None)
      | Some pm \<Rightarrow>
          if \<not> verify L pm peer_x verifying then Some (True, last_counter, None)
          else if \<not> frame_is_fresh (pm_timestamp pm) now then Some (True, last_counter, None)
          else
            (case pm_payload pm of
               ChatMessage counter message_bytes \<Rightarrow>
                 if sint counter \<le> sint last_counter then Some (True, last_counter, None)
                 else
                   (case decrypt_message_from_chat L message_bytes recv_key counter of
                      None \<Rightarrow> None
                    | Some (Inl _) \<Rightarrow> Some (True, last_counter, None)
                    | Some (Inr text) \<Rightarrow>
                        Some (evt_ok, counter,
                          if evt_ok then Some (SessionMessage text (pm_timestamp pm)) else None))
             | End \<Rightarrow> Some (False, last_counter, None)
             | _ \<Rightarrow> Some (True, last_counter, None)))"

section \<open>Properties of frames\<close>

lemma verify_signed:
  assumes "ed_ok L" and "length signing = 32"
  shows "verify L (peer_message_new L now payload sender signing) sender (ed_public L signing)"
  using ed_okD(4,5) [OF assms]
  by (simp add: verify_def peer_message_new_def verify_challenge_def sign_challenge_def)

text \<open>
  A frame an honest peer signs is accepted by \<open>verify\<close> under that peer's verifying key,
  whatever its payload and time, exactly when the expected sender is the one it names.
\<close>

lemma signed_frame_verifies:
  assumes "ed_ok L" and "length signing = 32"
  shows "verify L (peer_message_new L now payload sender signing) x (ed_public L signing) \<longleftrightarrow> x = sender"
proof
  show "x = sender" if "verify L (peer_message_new L now payload sender signing) x (ed_public L signing)"
    using that by (simp add: verify_def peer_message_new_def split: if_splits)
qed (simp add: verify_signed [OF assms])

lemma data_to_sign_eq:
  assumes "length s = 32" and "length s' = 32"
  shows "data_to_sign s t p = data_to_sign s' t' p' \<longleftrightarrow> s = s' \<and> t = t' \<and> payload_bytes p = payload_bytes p'"
  using assms by (simp add: data_to_sign_def le64.enc_append_iff le64.enc_eq_iff append_eq_append_conv)

text \<open>
  The signed bytes do not name the kind of payload. A frame signed for a chat message whose
  counter and ciphertext together have 32 bytes (a text of 8 bytes) is accepted, with the same
  signature, as an \<open>Init\<close> carrying those bytes as an ephemeral key: a party that relays frames
  can replace the one by the other.
\<close>

theorem payload_kind_not_signed:
  assumes "verify L \<lparr>pm_timestamp = t, pm_payload = ChatMessage ctr ct, pm_sender = s, pm_signature = sg\<rparr> x v"
  shows "verify L \<lparr>pm_timestamp = t, pm_payload = Init (to_le_bytes ctr @ ct), pm_sender = s, pm_signature = sg\<rparr> x v"
  using assms by (simp add: verify_def data_to_sign_def split: if_splits)

theorem payload_kind_not_signed_witness:
  "let ct = replicate 24 9; m = peer_message_new demo_lib 100 (ChatMessage 1 ct) (key_of 1) (key_of 2) in
   verify demo_lib \<lparr>pm_timestamp = 100, pm_payload = Init (to_le_bytes 1 @ ct), pm_sender = key_of 1,
     pm_signature = pm_signature m\<rparr> (key_of 1) (ed_public demo_lib (key_of 2))
   \<and> length (to_le_bytes 1 @ ct) = 32"
proof -
  let ?ct = "replicate 24 9 :: bytes"
  have "verify demo_lib (peer_message_new demo_lib 100 (ChatMessage 1 ?ct) (key_of 1) (key_of 2)) (key_of 1)
      (ed_public demo_lib (key_of 2))"
    by code_simp
  then have "verify demo_lib \<lparr>pm_timestamp = 100, pm_payload = ChatMessage 1 ?ct, pm_sender = key_of 1,
      pm_signature = pm_signature (peer_message_new demo_lib 100 (ChatMessage 1 ?ct) (key_of 1) (key_of 2))\<rparr>
      (key_of 1) (ed_public demo_lib (key_of 2))"
    by (simp add: peer_message_new_def)
  from payload_kind_not_signed [OF this] show ?thesis by simp
qed

section \<open>Freshness\<close>

lemma frame_is_fresh_diff:
  assumes "- (2 ^ 63) < sint now - sint ts" and "sint now - sint ts < 2 ^ 63"
  shows "frame_is_fresh ts now \<longleftrightarrow> \<bar>sint now - sint ts\<bar> \<le> 120"
proof -
  have d: "sint (now - ts) = sint now - sint ts"
    using assms by (intro sint_sub64) auto
  have "sint (now - ts) \<noteq> - (2 ^ 63)" using assms d by auto
  then show ?thesis
    by (simp add: frame_is_fresh_def MAX_FRAME_AGE_SECS_def sint_i64_abs d)
qed

text \<open>
  C39: For clocks from the epoch on and any timestamp except those more than \<open>2 ^ 63 - 1\<close> seconds
  away, a frame is fresh exactly when it is at most 120 seconds away from the receiver's clock,
  in either direction.
\<close>

theorem frame_is_fresh_iff:
  assumes "0 \<le> sint now" and "sint now - sint ts < 2 ^ 63"
  shows "frame_is_fresh ts now \<longleftrightarrow> \<bar>sint now - sint ts\<bar> \<le> 120"
using assms sint64_bounds [of ts] by (intro frame_is_fresh_diff) auto

theorem frame_is_fresh_iff_witness:
  "frame_is_fresh 1000 1120 \<and> \<not> frame_is_fresh 1000 1121"
  using frame_is_fresh_iff [of 1120 1000] frame_is_fresh_iff [of 1121 1000] by simp

text \<open>
  Outside that range the window has a hole: a frame stamped exactly \<open>2 ^ 63\<close> seconds before
  the receiver's clock is accepted as fresh, because the difference is the least 64-bit integer
  and its absolute value wraps to itself.
\<close>

theorem frame_fresh_overflow: "frame_is_fresh (now - 2 ^ 63) now"
proof -
  have "now - (now - 2 ^ 63) = (2 ^ 63 :: i64)" by simp
  moreover have "i64_abs (2 ^ 63) = 2 ^ 63" by (simp add: i64_abs_def)
  ultimately show ?thesis
    unfolding frame_is_fresh_def MAX_FRAME_AGE_SECS_def by simp
qed

section \<open>Who is first\<close>

text \<open>
  For two different public keys exactly one side is first, so the two ends always choose
  opposite roles; a client connecting to its own key is never first.
\<close>

lemma am_i_first_opposite: "am_i_first a b \<noteq> am_i_first b a \<longleftrightarrow> a \<noteq> b"
  by (auto simp: am_i_first_def)

end
