(* ===== verification/P2P_Example.thy ===== *)
theory P2P_Example
  imports P2P_Frame
begin

text \<open>
  A concrete \<open>p2p_codec\<close> at which the witnesses on frames evaluate: a self-delimiting byte
  encoding that satisfies \<open>frame_codec_ok\<close>.
\<close>

section \<open>Definitions\<close>

text \<open>A byte string that may be followed by others: each byte is announced by a 1, a 0 ends it.\<close>

fun demo_esc :: "bytes \<Rightarrow> bytes" where
  "demo_esc [] = [0]"
| "demo_esc (b # bs) = 1 # b # demo_esc bs"

fun demo_unesc :: "bytes \<Rightarrow> (bytes \<times> bytes) option" where
  "demo_unesc [] = None"
| "demo_unesc [f] = (if f = 0 then Some ([], []) else None)"
| "demo_unesc (f # b # bs) =
     (if f = 0 then Some ([], b # bs)
      else map_option (\<lambda>(x, r). (b # x, r)) (demo_unesc bs))"

fun demo_pay_enc :: "p2p_message \<Rightarrow> bytes" where
  "demo_pay_enc (Init e) = 0 # e"
| "demo_pay_enc (ChatMessage c b) = 1 # to_le_bytes c @ b"
| "demo_pay_enc HeartBeat = [2]"
| "demo_pay_enc (SyncRequest t) = 3 # to_le_bytes t"
| "demo_pay_enc (SyncResponse b) = 4 # b"
| "demo_pay_enc End = [5]"

fun demo_pay_dec :: "bytes \<Rightarrow> p2p_message option" where
  "demo_pay_dec [] = None"
| "demo_pay_dec (t # b) =
     (if t = 0 then (if length b = 32 then Some (Init b) else None)
      else if t = 1 then map_option (\<lambda>c. ChatMessage c (drop 8 b)) (from_le_bytes (take 8 b))
      else if t = 2 then Some HeartBeat
      else if t = 3 then map_option SyncRequest (from_le_bytes b)
      else if t = 4 then Some (SyncResponse b)
      else if t = 5 then Some End
      else None)"

definition demo_pm_enc :: "peer_message \<Rightarrow> bytes" where
  "demo_pm_enc m = demo_esc (pm_sender m) @ demo_esc (pm_signature m)
     @ to_le_bytes (pm_timestamp m) @ demo_pay_enc (pm_payload m)"

definition demo_pm_dec :: "bytes \<Rightarrow> peer_message option" where
  "demo_pm_dec b =
     (case demo_unesc b of None \<Rightarrow> None
      | Some (s, r) \<Rightarrow> (case demo_unesc r of None \<Rightarrow> None
        | Some (g, r') \<Rightarrow> (case (from_le_bytes (take 8 r'), demo_pay_dec (drop 8 r')) of
            (Some t, Some p) \<Rightarrow> Some \<lparr>pm_timestamp = t, pm_payload = p, pm_sender = s, pm_signature = g\<rparr>
          | _ \<Rightarrow> None)))"

definition demo_ping_enc :: "ping \<Rightarrow> bytes" where
  "demo_ping_enc p = to_le_bytes (ping_timestamp p) @ ping_pubkey p"

definition demo_ping_dec :: "bytes \<Rightarrow> ping option" where
  "demo_ping_dec b =
     (if length b \<noteq> 40 then None
      else map_option (\<lambda>t. \<lparr>ping_pubkey = drop 8 b, ping_timestamp = t\<rparr>) (from_le_bytes (take 8 b)))"

definition demo_codec :: p2p_codec where
  "demo_codec = \<lparr>
     ping_to_vec = (\<lambda>p. Some (demo_ping_enc p)), ping_from_slice = demo_ping_dec,
     pm_to_vec = (\<lambda>m. Some (demo_pm_enc m)), pm_from_slice = demo_pm_dec,
     stun_ping_to_vec = (\<lambda>p. Some (sp_pub_key p @ sp_verif p @ to_le_bytes (sp_timestamp p) @ sp_signature p)),
     stun_reply_from_slice = from_utf8\<rparr>"

section \<open>The codec law holds\<close>

lemma demo_unesc_esc: "demo_unesc (demo_esc b @ r) = Some (b, r)"
proof (induction b)
  case Nil
  then show ?case by (cases r) simp_all
qed simp

lemma demo_pay_dec_enc: "wf_payload p \<Longrightarrow> demo_pay_dec (demo_pay_enc p) = Some p"
  by (cases p) simp_all

lemma demo_pm_dec_enc: "wf_frame m \<Longrightarrow> demo_pm_dec (demo_pm_enc m) = Some m"
  by (simp add: demo_pm_dec_def demo_pm_enc_def demo_unesc_esc demo_pay_dec_enc wf_frame_def)

lemma demo_frame_codec: "frame_codec_ok demo_codec"
  by (simp add: frame_codec_ok_def demo_codec_def demo_pm_dec_enc)

end
