(* ===== verification/P2P_Session.thy ===== *)
theory P2P_Session
  imports P2P_Example "HOL-Library.Sublist"
begin

text \<open>
  A session between two peers (\<^verbatim>\<open>crates/p2p/src/lib.rs\<close>, \<^verbatim>\<open>start_session\<close>): the directional keys,
  the reader task and the writer task over either transport, as one step per received
  datagram and per writer event. The interleaving of the tasks, the network and the clock are
  the step relation \<open>link_step\<close>: an adversary may drop, delay, duplicate, reorder and inject
  frames.
\<close>

section \<open>The session and its two tasks\<close>

type_synonym socket_addr = rstr

datatype transport = Direct socket_addr | Relay

record session =
  s_transport :: transport
  s_my_pub :: bytes
  s_signing :: bytes
  s_peer_x :: bytes
  s_verifying :: bytes
  s_send_key :: bytes
  s_recv_key :: bytes
  s_counter :: i64
  s_writing :: bool
  s_last_counter :: i64
  s_reading :: bool

definition session_labels :: "bool \<Rightarrow> bytes \<times> bytes" where
  "session_labels am_first =
     (if am_first then (info ''a2b'', info ''b2a'') else (info ''b2a'', info ''a2b''))"

text \<open>\<open>None\<close> is the panic of a failed key derivation.\<close>

definition start_session ::
  "'d crypto_lib \<Rightarrow> transport \<Rightarrow> bytes \<Rightarrow> bytes \<Rightarrow> bytes \<Rightarrow> peer_public \<Rightarrow> bool \<Rightarrow> session option" where
  "start_session L tr session_key my_pub my_signing peer am_first =
     (case session_labels am_first of (send_label, recv_label) \<Rightarrow>
       (case (derive_directional_key L session_key send_label, derive_directional_key L session_key recv_label) of
          (Some send_key, Some recv_key) \<Rightarrow> Some
            \<lparr>s_transport = tr, s_my_pub = my_pub, s_signing = my_signing,
             s_peer_x = pk_public peer, s_verifying = pk_verifying peer,
             s_send_key = send_key, s_recv_key = recv_key,
             s_counter = 0, s_writing = True, s_last_counter = -1, s_reading = True\<rparr>
        | _ \<Rightarrow> None))"

text \<open>What the socket does with a datagram is \<open>sent\<close>; the datagram is returned when it went out.\<close>

definition send_peer_message ::
  "'d crypto_lib \<Rightarrow> p2p_codec \<Rightarrow> i64 \<Rightarrow> bool \<Rightarrow> p2p_message \<Rightarrow> bytes \<Rightarrow> bytes \<Rightarrow> p2p_error + bytes" where
  "send_peer_message L C now sent payload my_pub signing =
     and_then (ok_or P2PSerializationFailed (pm_to_vec C (peer_message_new L now payload my_pub signing)))
       (\<lambda>bytes. if sent then Inr bytes else Inl CommunicationError)"

text \<open>
  The writer: a text from the application, the application hanging up (\<open>Outgoing None\<close>) or a
  heartbeat tick. Results are the counter, the frames put on the wire and whether the loop
  goes on.
\<close>

datatype writer_event = Outgoing "rstr option" | HeartbeatTick

definition direct_write ::
  "'d crypto_lib \<Rightarrow> p2p_codec \<Rightarrow> i64 \<Rightarrow> bool \<Rightarrow> bytes \<Rightarrow> bytes \<Rightarrow> bytes \<Rightarrow> i64 \<Rightarrow> writer_event
   \<Rightarrow> (i64 \<times> bytes list \<times> bool) option" where
  "direct_write L C now sent send_key my_pub signing counter ev =
     (case ev of
        Outgoing (Some text) \<Rightarrow>
          (case encrypt_message_for_chat L text send_key (counter + 1) of
             None \<Rightarrow> None
           | Some cipher \<Rightarrow>
               (case send_peer_message L C now sent (ChatMessage (counter + 1) cipher) my_pub signing of
                  Inl _ \<Rightarrow> Some (counter + 1, [], False)
                | Inr b \<Rightarrow> Some (counter + 1, [b], True)))
      | Outgoing None \<Rightarrow>
          (case send_peer_message L C now sent End my_pub signing of
             Inl _ \<Rightarrow> Some (counter, [], False)
           | Inr b \<Rightarrow> Some (counter, [b], False))
      | HeartbeatTick \<Rightarrow>
          (case send_peer_message L C now sent HeartBeat my_pub signing of
             Inl _ \<Rightarrow> Some (counter, [], False)
           | Inr b \<Rightarrow> Some (counter, [b], True)))"

definition relay_write ::
  "'d crypto_lib \<Rightarrow> p2p_codec \<Rightarrow> i64 \<Rightarrow> bool \<Rightarrow> bytes \<Rightarrow> bytes \<Rightarrow> bytes \<Rightarrow> i64 \<Rightarrow> writer_event
   \<Rightarrow> (i64 \<times> bytes list \<times> bool) option" where
  "relay_write L C now sent send_key my_pub signing counter ev =
     (case ev of
        Outgoing (Some text) \<Rightarrow>
          (case encrypt_message_for_chat L text send_key (counter + 1) of
             None \<Rightarrow> None
           | Some cipher \<Rightarrow>
               (case frame L C now (ChatMessage (counter + 1) cipher) my_pub signing of
                  None \<Rightarrow> Some (counter + 1, [], True)
                | Some b \<Rightarrow> if sent then Some (counter + 1, [b], True) else Some (counter + 1, [], False)))
      | Outgoing None \<Rightarrow>
          (case frame L C now End my_pub signing of
             None \<Rightarrow> Some (counter, [], False)
           | Some b \<Rightarrow> Some (counter, if sent then [b] else [], False))
      | HeartbeatTick \<Rightarrow>
          (case frame L C now HeartBeat my_pub signing of
             None \<Rightarrow> Some (counter, [], True)
           | Some b \<Rightarrow> if sent then Some (counter, [b], True) else Some (counter, [], False)))"

definition session_write ::
  "'d crypto_lib \<Rightarrow> p2p_codec \<Rightarrow> i64 \<Rightarrow> bool \<Rightarrow> writer_event \<Rightarrow> session \<Rightarrow> (session \<times> bytes list) option" where
  "session_write L C now sent ev s =
     (if \<not> s_writing s then Some (s, [])
      else
        (let w = (case s_transport s of Direct _ \<Rightarrow> direct_write L C | Relay \<Rightarrow> relay_write L C) in
         map_option (\<lambda>(counter, frames, go). (s\<lparr>s_counter := counter, s_writing := go\<rparr>, frames))
           (w now sent (s_send_key s) (s_my_pub s) (s_signing s) (s_counter s) ev)))"

text \<open>
  The reader: a datagram (with its source address, which only the direct transport has), a
  socket error or closed channel, or 45 seconds of silence. A direct reader has a buffer of
  2048 bytes: the rest of a longer datagram is lost.
\<close>

datatype reader_event = Received bytes socket_addr | ChannelError | IdleTimeout

fun handed :: "transport \<Rightarrow> bytes \<Rightarrow> bytes" where
  "handed (Direct _) b = take 2048 b"
| "handed Relay b = b"

fun accepts_from :: "transport \<Rightarrow> socket_addr \<Rightarrow> bool" where
  "accepts_from (Direct remote) addr \<longleftrightarrow> addr = remote"
| "accepts_from Relay addr \<longleftrightarrow> True"

definition session_read ::
  "'d crypto_lib \<Rightarrow> p2p_codec \<Rightarrow> i64 \<Rightarrow> bool \<Rightarrow> reader_event \<Rightarrow> session
   \<Rightarrow> (session \<times> session_event list) option" where
  "session_read L C now evt_ok ev s =
     (if \<not> s_reading s then Some (s, [])
      else
        (case ev of
           Received b addr \<Rightarrow>
             if \<not> accepts_from (s_transport s) addr then Some (s, [])
             else
               map_option
                 (\<lambda>(go, last_counter, e).
                    (s\<lparr>s_last_counter := last_counter, s_reading := go\<rparr>,
                     (case e of None \<Rightarrow> [] | Some e \<Rightarrow> [e])
                     @ (if go then [] else if evt_ok then [SessionClosed] else [])))
                 (handle_inbound_frame L C now (handed (s_transport s) b) (s_recv_key s)
                    (s_peer_x s) (s_verifying s) (s_last_counter s) evt_ok)
         | _ \<Rightarrow> Some (s\<lparr>s_reading := False\<rparr>, if evt_ok then [SessionClosed] else [])))"

fun session_reads ::
  "'d crypto_lib \<Rightarrow> p2p_codec \<Rightarrow> (i64 \<times> bool \<times> reader_event) list \<Rightarrow> session
   \<Rightarrow> (session \<times> session_event list) option" where
  "session_reads L C [] s = Some (s, [])"
| "session_reads L C ((now, evt_ok, ev) # evs) s =
     (case session_read L C now evt_ok ev s of
        None \<Rightarrow> None
      | Some (s', es) \<Rightarrow> map_option (\<lambda>(s'', es'). (s'', es @ es')) (session_reads L C evs s'))"

fun session_writes ::
  "'d crypto_lib \<Rightarrow> p2p_codec \<Rightarrow> (i64 \<times> bool \<times> writer_event) list \<Rightarrow> session
   \<Rightarrow> (session \<times> bytes list) option" where
  "session_writes L C [] s = Some (s, [])"
| "session_writes L C ((now, sent, ev) # evs) s =
     (case session_write L C now sent ev s of
        None \<Rightarrow> None
      | Some (s', fs) \<Rightarrow> map_option (\<lambda>(s'', fs'). (s'', fs @ fs')) (session_writes L C evs s'))"

fun event_text :: "session_event \<Rightarrow> rstr option" where
  "event_text (SessionMessage text _) = Some text"
| "event_text SessionClosed = None"

definition texts :: "session_event list \<Rightarrow> rstr list" where
  "texts es = List.map_filter event_text es"

section \<open>Two ends and a network\<close>

text \<open>
  One direction of a conversation: the sending and the receiving end, every frame ever put on
  the wire, the texts sent with their counters, and the events the receiver has handed up.
\<close>

record 'd link =
  lk_lib :: "'d crypto_lib"
  lk_codec :: p2p_codec
  lk_tx :: session
  lk_rx :: session
  lk_wire :: "bytes list"
  lk_sent :: "(i64 \<times> rstr) list"
  lk_events :: "session_event list"

text \<open>
  What the network cannot do: make a chat frame of its own that decrypts under the receiving
  key. Everything else it may hand to the receiver, whenever and as often as it likes.
\<close>

definition unforged :: "'d link \<Rightarrow> bytes \<Rightarrow> bool" where
  "unforged k b \<longleftrightarrow> b \<in> set (lk_wire k) \<or>
     (case pm_from_slice (lk_codec k) b of
        Some pm \<Rightarrow>
          (case pm_payload pm of
             ChatMessage counter c \<Rightarrow>
               (case decrypt_message_from_chat (lk_lib k) c (s_recv_key (lk_rx k)) counter of
                  Some (Inr _) \<Rightarrow> False | _ \<Rightarrow> True)
           | _ \<Rightarrow> True)
      | None \<Rightarrow> True)"

fun sent_text :: "session \<Rightarrow> writer_event \<Rightarrow> (i64 \<times> rstr) list" where
  "sent_text s (Outgoing (Some text)) = (if s_writing s then [(s_counter s + 1, text)] else [])"
| "sent_text s _ = []"

text \<open>A string the cipher takes.\<close>

definition sendable :: "rstr \<Rightarrow> bool" where
  "sendable t \<longleftrightarrow> rust_str t \<and> length (as_bytes t) \<le> 274877906880"

inductive link_step :: "'d link \<Rightarrow> 'd link \<Rightarrow> bool" where
  link_write:
    "session_write (lk_lib k) (lk_codec k) now sent ev (lk_tx k) = Some (s, fs) \<Longrightarrow>
     sint (s_counter (lk_tx k)) < 2 ^ 63 - 1 \<Longrightarrow>
     (\<forall>text. ev = Outgoing (Some text) \<longrightarrow> sendable text) \<Longrightarrow>
     link_step k (k\<lparr>lk_tx := s, lk_wire := lk_wire k @ fs, lk_sent := lk_sent k @ sent_text (lk_tx k) ev\<rparr>)"
| link_read:
    "session_read (lk_lib k) (lk_codec k) now evt_ok ev (lk_rx k) = Some (s, es) \<Longrightarrow>
     (\<forall>b addr. ev = Received b addr \<longrightarrow> unforged k (handed (s_transport (lk_rx k)) b)) \<Longrightarrow>
     link_step k (k\<lparr>lk_rx := s, lk_events := lk_events k @ es\<rparr>)"

text \<open>Both ends start from the same session key, the first one in the role \<open>am_first\<close>.\<close>

definition link_init :: "'d link \<Rightarrow> bool" where
  "link_init k \<longleftrightarrow>
     hkdf_ok (lk_lib k) \<and> aead_ok (lk_lib k) \<and> frame_codec_ok (lk_codec k)
     \<and> length (s_my_pub (lk_tx k)) = 32
     \<and> s_send_key (lk_tx k) = s_recv_key (lk_rx k)
     \<and> s_counter (lk_tx k) = 0 \<and> s_last_counter (lk_rx k) = -1
     \<and> lk_wire k = [] \<and> lk_sent k = [] \<and> lk_events k = []"

section \<open>What one step of either task does\<close>

definition plain :: "p2p_message \<Rightarrow> bool" where
  "plain p \<longleftrightarrow> p = HeartBeat \<or> p = End"

lemma frame_decodes:
  assumes "frame_codec_ok C" and "length my_pub = 32" and "wf_payload p"
    and "pm_to_vec C (peer_message_new L now p my_pub signing) = Some b"
  shows "pm_from_slice C b = Some (peer_message_new L now p my_pub signing)"
proof -
  have "wf_frame (peer_message_new L now p my_pub signing)"
    using assms(2,3) by (simp add: wf_frame_def peer_message_new_def)
  then show ?thesis using assms(1,4) unfolding frame_codec_ok_def by fastforce
qed

lemma frame_exists:
  assumes "frame_codec_ok C" and "length my_pub = 32" and "wf_payload p"
  shows "\<exists>b. pm_to_vec C (peer_message_new L now p my_pub signing) = Some b
    \<and> pm_from_slice C b = Some (peer_message_new L now p my_pub signing)"
  using assms unfolding frame_codec_ok_def by (simp add: wf_frame_def peer_message_new_def)

lemma send_peer_message_Inr:
  "send_peer_message L C now sent p my_pub signing = Inr b \<longleftrightarrow>
     sent \<and> pm_to_vec C (peer_message_new L now p my_pub signing) = Some b"
  by (auto simp: send_peer_message_def and_then_def ok_or_def split: option.splits)

text \<open>Over a working channel both transports write the same frames and go on or stop alike.\<close>

lemma direct_write_eq_relay_write:
  assumes "frame_codec_ok C" and "length my_pub = 32"
  shows "direct_write L C now True key my_pub signing ctr ev = relay_write L C now True key my_pub signing ctr ev"
proof -
  have *: "\<exists>b. pm_to_vec C (peer_message_new L now p my_pub signing) = Some b" if "wf_payload p" for p
    using frame_exists [OF assms that] by blast
  obtain e where e: "pm_to_vec C (peer_message_new L now End my_pub signing) = Some e" using * [of End] by auto
  obtain h where h: "pm_to_vec C (peer_message_new L now HeartBeat my_pub signing) = Some h" using * [of HeartBeat] by auto
  have c: "pm_to_vec C (peer_message_new L now (ChatMessage c x) my_pub signing) = None \<longleftrightarrow> False" for c x
    using * [of "ChatMessage c x"] by auto
  show ?thesis
    using e h
    by (auto simp: direct_write_def relay_write_def frame_def send_peer_message_def and_then_def ok_or_def c
        split: writer_event.split option.split)
qed

text \<open>What a write puts on the wire: signed frames, with a payload that follows from the event.\<close>

definition wrote ::
  "'d crypto_lib \<Rightarrow> p2p_codec \<Rightarrow> i64 \<Rightarrow> bytes \<Rightarrow> bytes \<Rightarrow> bytes \<Rightarrow> i64 \<Rightarrow> writer_event \<Rightarrow> i64 \<Rightarrow> bytes list \<Rightarrow> bool" where
  "wrote L C now key my_pub signing ctr ev ctr' fs \<longleftrightarrow>
     ctr' = (case ev of Outgoing (Some _) \<Rightarrow> ctr + 1 | _ \<Rightarrow> ctr)
     \<and> (\<forall>b \<in> set fs. \<exists>p. pm_to_vec C (peer_message_new L now p my_pub signing) = Some b
          \<and> (plain p \<or> (\<exists>text c. ev = Outgoing (Some text) \<and> p = ChatMessage ctr' c
               \<and> encrypt_message_for_chat L text key ctr' = Some c)))"

lemma direct_write_wrote:
  "direct_write L C now sent key my_pub signing ctr ev = Some (ctr', fs, go) \<Longrightarrow>
    wrote L C now key my_pub signing ctr ev ctr' fs"
  by (auto simp: direct_write_def wrote_def plain_def send_peer_message_Inr
      split: writer_event.splits option.splits sum.splits)

lemma relay_write_wrote:
  "relay_write L C now sent key my_pub signing ctr ev = Some (ctr', fs, go) \<Longrightarrow>
    wrote L C now key my_pub signing ctr ev ctr' fs"
  by (auto simp: relay_write_def wrote_def plain_def frame_def
      split: writer_event.splits option.splits if_splits)

lemma session_write_SomeE:
  assumes "session_write L C now sent ev s = Some (s', fs)"
  obtains (stopped) "\<not> s_writing s" and "s' = s" and "fs = []"
  | (wrote) go ctr' where "s_writing s" and "s' = s\<lparr>s_counter := ctr', s_writing := go\<rparr>"
      and "wrote L C now (s_send_key s) (s_my_pub s) (s_signing s) (s_counter s) ev ctr' fs"
  using assms stopped
  by (auto simp: session_write_def split: if_splits transport.splits
      intro!: wrote intro: direct_write_wrote relay_write_wrote)

lemma handle_inbound_frame_SomeE:
  assumes "handle_inbound_frame L C now b key x v lc evt_ok = Some (go, lc', e)"
  obtains (ignored) "lc' = lc" and "e = None"
  | (accepted) pm ctr c t where "pm_from_slice C b = Some pm" and "verify L pm x v"
      and "frame_is_fresh (pm_timestamp pm) now" and "pm_payload pm = ChatMessage ctr c"
      and "sint lc < sint ctr" and "decrypt_message_from_chat L c key ctr = Some (Inr t)"
      and "lc' = ctr" and "go = evt_ok"
      and "e = (if evt_ok then Some (SessionMessage t (pm_timestamp pm)) else None)"
  using assms
  by (auto simp: handle_inbound_frame_def split: option.splits if_splits p2p_message.splits sum.splits)

lemma texts_simps [simp]:
  "texts [] = []"
  "texts (es @ es') = texts es @ texts es'"
  "texts (SessionClosed # es) = texts es"
  "texts (SessionMessage t ts # es) = t # texts es"
  by (simp_all add: texts_def map_filter_def)

lemma session_read_SomeE:
  assumes "session_read L C now evt_ok ev s = Some (s', es)"
  obtains (ignored) go where "s' = s\<lparr>s_reading := go\<rparr>" and "texts es = []"
  | (accepted) b addr pm ctr c t where "ev = Received b addr" and "s_reading s"
      and "pm_from_slice C (handed (s_transport s) b) = Some pm"
      and "verify L pm (s_peer_x s) (s_verifying s)"
      and "frame_is_fresh (pm_timestamp pm) now" and "pm_payload pm = ChatMessage ctr c"
      and "sint (s_last_counter s) < sint ctr"
      and "decrypt_message_from_chat L c (s_recv_key s) ctr = Some (Inr t)"
      and "s' = s\<lparr>s_last_counter := ctr, s_reading := evt_ok\<rparr>"
      and "texts es = (if evt_ok then [t] else [])"
proof (cases "s_reading s \<and> (\<exists>b addr. ev = Received b addr \<and> accepts_from (s_transport s) addr)")
  case False
  then have "(\<exists>go. s' = s\<lparr>s_reading := go\<rparr>) \<and> texts es = []"
    using assms by (cases s) (auto simp: session_read_def split: if_splits reader_event.splits)
  then show ?thesis using ignored by blast
next
  case True
  then obtain b addr where ev: "ev = Received b addr" "accepts_from (s_transport s) addr" and r: "s_reading s"
    by blast
  obtain go lc e where h: "handle_inbound_frame L C now (handed (s_transport s) b) (s_recv_key s)
      (s_peer_x s) (s_verifying s) (s_last_counter s) evt_ok = Some (go, lc, e)"
    and s': "s' = s\<lparr>s_last_counter := lc, s_reading := go\<rparr>"
    and es: "texts es = texts (case e of None \<Rightarrow> [] | Some e \<Rightarrow> [e])"
    using assms ev r by (auto simp: session_read_def split: if_splits)
  from h show ?thesis
  proof (cases rule: handle_inbound_frame_SomeE)
    case ignored
    then show ?thesis using that(1) [of go] s' es by simp
  next
    case (accepted pm ctr c t)
    then show ?thesis using that(2) [OF ev(1) r] s' es by (simp split: if_splits)
  qed
qed

section \<open>One text over a working link\<close>

text \<open>\<open>b\<close> is a frame that carries the text \<open>t\<close> under the counter \<open>ctr\<close>.\<close>

definition text_frame ::
  "'d crypto_lib \<Rightarrow> p2p_codec \<Rightarrow> i64 \<Rightarrow> bytes \<Rightarrow> bytes \<Rightarrow> bytes \<Rightarrow> i64 \<Rightarrow> rstr \<Rightarrow> bytes \<Rightarrow> bool" where
  "text_frame L C now key my_pub signing ctr t b \<longleftrightarrow>
     (\<exists>c. pm_from_slice C b = Some (peer_message_new L now (ChatMessage ctr c) my_pub signing)
        \<and> decrypt_message_from_chat L c key ctr = Some (Inr t))"

definition libs_ok :: "'d crypto_lib \<Rightarrow> p2p_codec \<Rightarrow> bool" where
  "libs_ok L C \<longleftrightarrow> hkdf_ok L \<and> aead_ok L \<and> ed_ok L \<and> frame_codec_ok C"

lemma write_text:
  assumes "libs_ok L C" and "length (s_my_pub s) = 32" and "s_writing s" and "sendable t"
  shows "\<exists>b. session_write L C now True (Outgoing (Some t)) s = Some (s\<lparr>s_counter := s_counter s + 1\<rparr>, [b])
    \<and> text_frame L C now (s_send_key s) (s_my_pub s) (s_signing s) (s_counter s + 1) t b"
proof -
  have ok: "hkdf_ok L" "aead_ok L" "frame_codec_ok C" "rust_str t" "length (as_bytes t) \<le> 274877906880"
    using assms(1,4) by (simp_all add: libs_ok_def sendable_def)
  obtain c where c: "encrypt_message_for_chat L t (s_send_key s) (s_counter s + 1) = Some c"
    using encrypt_exists ok by blast
  obtain b where b: "pm_to_vec C (peer_message_new L now (ChatMessage (s_counter s + 1) c) (s_my_pub s) (s_signing s)) = Some b"
    "pm_from_slice C b = Some (peer_message_new L now (ChatMessage (s_counter s + 1) c) (s_my_pub s) (s_signing s))"
    using frame_exists [OF ok(3) assms(2), of "ChatMessage (s_counter s + 1) c" L now "s_signing s"] by auto
  have "relay_write L C now True (s_send_key s) (s_my_pub s) (s_signing s) (s_counter s) (Outgoing (Some t))
      = Some (s_counter s + 1, [b], True)"
    using b(1) c by (simp add: relay_write_def frame_def)
  then have "session_write L C now True (Outgoing (Some t)) s = Some (s\<lparr>s_counter := s_counter s + 1, s_writing := True\<rparr>, [b])"
    using assms(3)
    by (cases "s_transport s") (simp_all add: session_write_def direct_write_eq_relay_write [OF ok(3) assms(2)])
  then have "session_write L C now True (Outgoing (Some t)) s = Some (s\<lparr>s_counter := s_counter s + 1\<rparr>, [b])"
    using assms(3) by (cases s) simp
  moreover have "text_frame L C now (s_send_key s) (s_my_pub s) (s_signing s) (s_counter s + 1) t b"
    unfolding text_frame_def using b(2) encrypt_then_decrypt [OF ok(1,2,4,5) c] by blast
  ultimately show ?thesis by blast
qed

lemma read_text:
  assumes "libs_ok L C" and "length signing = 32" and "s_verifying s = ed_public L signing" and "s_reading s"
    and "accepts_from (s_transport s) addr"
    and "text_frame L C sent_at (s_recv_key s) (s_peer_x s) signing ctr t (handed (s_transport s) b)"
    and "frame_is_fresh sent_at now" and "sint (s_last_counter s) < sint ctr"
  shows "session_read L C now True (Received b addr) s = Some (s\<lparr>s_last_counter := ctr\<rparr>, [SessionMessage t sent_at])"
proof -
  obtain c where c: "pm_from_slice C (handed (s_transport s) b) = Some (peer_message_new L sent_at (ChatMessage ctr c) (s_peer_x s) signing)"
    "decrypt_message_from_chat L c (s_recv_key s) ctr = Some (Inr t)"
    using assms(6) unfolding text_frame_def by blast
  have v: "verify L (peer_message_new L sent_at (ChatMessage ctr c) (s_peer_x s) signing) (s_peer_x s) (s_verifying s)"
    using verify_signed [of L signing] assms(1-3) by (simp add: libs_ok_def)
  have "handle_inbound_frame L C now (handed (s_transport s) b) (s_recv_key s) (s_peer_x s) (s_verifying s) (s_last_counter s) True
      = Some (True, ctr, Some (SessionMessage t sent_at))"
    using c v assms(7,8)
    by (simp add: handle_inbound_frame_def) (simp add: peer_message_new_def)
  then show ?thesis
    using assms(4,5) by (cases s) (simp add: session_read_def)
qed

lemma read_replayed:
  assumes "text_frame L C sent_at key pub signing ctr t (handed (s_transport s) b)"
    and "s_reading s" and "sint ctr \<le> sint (s_last_counter s)"
  shows "session_read L C now up (Received b addr) s = Some (s, [])"
proof -
  obtain c where c: "pm_from_slice C (handed (s_transport s) b) = Some (peer_message_new L sent_at (ChatMessage ctr c) pub signing)"
    using assms(1) unfolding text_frame_def by blast
  have "handle_inbound_frame L C now (handed (s_transport s) b) (s_recv_key s) (s_peer_x s) (s_verifying s) (s_last_counter s) up
      = Some (True, s_last_counter s, None)"
    using c assms(3) by (simp add: handle_inbound_frame_def) (simp add: peer_message_new_def)
  then show ?thesis using assms(2) by (cases s) (simp add: session_read_def)
qed

section \<open>Integrity against the network\<close>

lemma subseq_snoc_by_rank:
  fixes f :: "'a \<Rightarrow> int"
  assumes "subseq ds xs" and "sorted_wrt (<) (map f xs)" and "x \<in> set xs"
    and "\<forall>d \<in> set ds. f d < f x"
  shows "subseq (ds @ [x]) xs"
proof -
  obtain us vs where xs: "xs = us @ x # vs" using assms(3) by (meson split_list)
  obtain d1 d2 where ds: "ds = d1 @ d2" "subseq d1 us" "subseq d2 (x # vs)"
    using assms(1) unfolding xs by (auto elim: subseq_appendE)
  have "d2 = []"
  proof (rule ccontr)
    assume "d2 \<noteq> []"
    then obtain y where y: "y \<in> set d2" by (cases d2) auto
    then have "y \<in> set (x # vs)" using ds(3) by (auto elim!: list_emb_set)
    then have "f x \<le> f y" using assms(2) by (auto simp: xs sorted_wrt_append)
    moreover have "f y < f x" using assms(4) y ds(1) by simp
    ultimately show False by simp
  qed
  then have "subseq (ds @ [x]) (us @ [x])" using ds by simp
  then have "subseq (ds @ [x]) ((us @ [x]) @ vs)" by (rule list_emb_prefix)
  then show ?thesis unfolding xs by simp
qed

definition on_wire :: "'d link \<Rightarrow> bytes \<Rightarrow> bool" where
  "on_wire k b \<longleftrightarrow> (\<exists>pm. pm_from_slice (lk_codec k) b = Some pm \<and>
     (plain (pm_payload pm) \<or> (\<exists>ctr c t. pm_payload pm = ChatMessage ctr c \<and> (ctr, t) \<in> set (lk_sent k)
        \<and> decrypt_message_from_chat (lk_lib k) c (s_recv_key (lk_rx k)) ctr = Some (Inr t))))"

text \<open>
  The invariant: counters of the sent texts increase up to the writer's counter, every frame on
  the wire carries one of them, and what was handed up is a subsequence of what was sent, below
  the reader's counter.
\<close>

definition link_inv :: "'d link \<Rightarrow> bool" where
  "link_inv k \<longleftrightarrow>
     hkdf_ok (lk_lib k) \<and> aead_ok (lk_lib k) \<and> frame_codec_ok (lk_codec k)
     \<and> length (s_my_pub (lk_tx k)) = 32 \<and> s_send_key (lk_tx k) = s_recv_key (lk_rx k)
     \<and> sorted_wrt (<) (map (sint \<circ> fst) (lk_sent k))
     \<and> (\<forall>x \<in> set (lk_sent k). sint (fst x) \<le> sint (s_counter (lk_tx k)))
     \<and> (\<forall>b \<in> set (lk_wire k). on_wire k b)
     \<and> (\<exists>ds. subseq ds (lk_sent k) \<and> map snd ds = texts (lk_events k)
          \<and> (\<forall>d \<in> set ds. sint (fst d) \<le> sint (s_last_counter (lk_rx k))))"

lemma sint_plus_one: "sint c < 2 ^ 63 - 1 \<Longrightarrow> sint (c + 1 :: i64) = sint c + 1"
proof -
  assume h: "sint c < 2 ^ 63 - 1"
  have "c + 1 = word_of_int (sint c + 1)" by simp
  then show ?thesis using h sint64_bounds [of c] sint_word_of_int64 [of "sint c + 1"] by simp
qed

lemma on_wire_mono:
  assumes "on_wire k b"
  shows "on_wire (k\<lparr>lk_tx := s, lk_wire := w, lk_sent := lk_sent k @ xs\<rparr>) b"
  using assms unfolding on_wire_def by auto

lemma link_inv_write:
  assumes inv: "link_inv k"
    and w: "session_write (lk_lib k) (lk_codec k) now sent ev (lk_tx k) = Some (s, fs)"
    and small: "sint (s_counter (lk_tx k)) < 2 ^ 63 - 1"
    and str: "\<forall>text. ev = Outgoing (Some text) \<longrightarrow> sendable text"
  shows "link_inv (k\<lparr>lk_tx := s, lk_wire := lk_wire k @ fs, lk_sent := lk_sent k @ sent_text (lk_tx k) ev\<rparr>)"
    (is "link_inv ?k")
  using w
proof (cases rule: session_write_SomeE)
  case stopped
  moreover from stopped have "sent_text (lk_tx k) ev = []"
    by (cases "(lk_tx k, ev)" rule: sent_text.cases) simp_all
  ultimately show ?thesis using inv by simp
next
  case (wrote go ctr')
  let ?xs = "sent_text (lk_tx k) ev"
  have ctr: "?xs = (case ev of Outgoing (Some t) \<Rightarrow> [(ctr', t)] | _ \<Rightarrow> [])"
    "sint (s_counter (lk_tx k)) \<le> sint ctr'"
    "?xs \<noteq> [] \<Longrightarrow> sint (s_counter (lk_tx k)) < sint ctr'"
    using wrote(1,3) sint_plus_one [OF small]
    by (auto simp: wrote_def split: writer_event.splits option.splits)
  have old: "\<forall>x \<in> set (lk_sent k). sint (fst x) \<le> sint (s_counter (lk_tx k))"
    using inv by (simp add: link_inv_def)
  have "sorted_wrt (<) (map (sint \<circ> fst) (lk_sent k @ ?xs))"
    using inv old ctr(1,3)
    by (fastforce simp: link_inv_def sorted_wrt_append split: writer_event.splits option.splits)
  moreover have "\<forall>x \<in> set (lk_sent k @ ?xs). sint (fst x) \<le> sint ctr'"
    using old ctr(1,2) by (auto split: writer_event.splits option.splits)
  moreover have "on_wire ?k b" if b: "b \<in> set fs" for b
  proof -
    obtain p where p: "pm_to_vec (lk_codec k) (peer_message_new (lk_lib k) now p (s_my_pub (lk_tx k)) (s_signing (lk_tx k))) = Some b"
      and pc: "plain p \<or> (\<exists>t c. ev = Outgoing (Some t) \<and> p = ChatMessage ctr' c
                 \<and> encrypt_message_for_chat (lk_lib k) t (s_send_key (lk_tx k)) ctr' = Some c)"
      using wrote(3) b unfolding wrote_def by blast
    have wf: "wf_payload p" using pc by (auto simp: plain_def)
    have dec: "pm_from_slice (lk_codec k) b = Some (peer_message_new (lk_lib k) now p (s_my_pub (lk_tx k)) (s_signing (lk_tx k)))"
      using inv frame_decodes [OF _ _ wf p] by (simp add: link_inv_def)
    from pc show ?thesis
    proof
      assume "plain p"
      then show ?thesis using dec by (simp add: on_wire_def peer_message_new_def)
    next
      assume "\<exists>t c. ev = Outgoing (Some t) \<and> p = ChatMessage ctr' c
                \<and> encrypt_message_for_chat (lk_lib k) t (s_send_key (lk_tx k)) ctr' = Some c"
      then obtain t c where t: "ev = Outgoing (Some t)" "p = ChatMessage ctr' c"
        "encrypt_message_for_chat (lk_lib k) t (s_send_key (lk_tx k)) ctr' = Some c" by blast
      have "decrypt_message_from_chat (lk_lib k) c (s_recv_key (lk_rx k)) ctr' = Some (Inr t)"
        using inv str t encrypt_then_decrypt [of "lk_lib k" t] by (simp add: link_inv_def sendable_def)
      then show ?thesis using dec t ctr(1) by (auto simp: on_wire_def peer_message_new_def)
    qed
  qed
  moreover have "\<exists>ds. subseq ds (lk_sent k @ ?xs) \<and> map snd ds = texts (lk_events k)
      \<and> (\<forall>d \<in> set ds. sint (fst d) \<le> sint (s_last_counter (lk_rx k)))"
    using inv by (auto simp: link_inv_def intro: list_emb_prefix)
  ultimately show ?thesis
    using inv wrote(2) on_wire_mono [of k] by (auto simp: link_inv_def)
qed

lemma link_inv_read:
  assumes inv: "link_inv k"
    and r: "session_read (lk_lib k) (lk_codec k) now evt_ok ev (lk_rx k) = Some (s, es)"
    and un: "\<forall>b addr. ev = Received b addr \<longrightarrow> unforged k (handed (s_transport (lk_rx k)) b)"
  shows "link_inv (k\<lparr>lk_rx := s, lk_events := lk_events k @ es\<rparr>)" (is "link_inv ?k")
proof -
  obtain ds where ds: "subseq ds (lk_sent k)" "map snd ds = texts (lk_events k)"
    "\<forall>d \<in> set ds. sint (fst d) \<le> sint (s_last_counter (lk_rx k))"
    using inv by (auto simp: link_inv_def)
  have key: "s_recv_key s = s_recv_key (lk_rx k)"
    using r by (cases rule: session_read_SomeE) simp_all
  have wire: "on_wire ?k b" if "on_wire k b" for b
    using that key by (simp add: on_wire_def)
  from r have "\<exists>ds. subseq ds (lk_sent k) \<and> map snd ds = texts (lk_events k @ es)
      \<and> (\<forall>d \<in> set ds. sint (fst d) \<le> sint (s_last_counter s))"
  proof (cases rule: session_read_SomeE)
    case (ignored go)
    then show ?thesis using ds by auto
  next
    case (accepted b addr pm ctr c t)
    let ?b = "handed (s_transport (lk_rx k)) b"
    have "unforged k ?b" using un accepted(1) by blast
    then have "?b \<in> set (lk_wire k)" using accepted(3,6,8) by (simp add: unforged_def)
    then have "on_wire k ?b" using inv by (simp add: link_inv_def)
    then have sent: "(ctr, t) \<in> set (lk_sent k)"
      using accepted(3,6,8) by (auto simp: on_wire_def plain_def)
    have "subseq (ds @ [(ctr, t)]) (lk_sent k)"
      using ds(1) sent ds(3) accepted(7) inv
      by (intro subseq_snoc_by_rank [where f = "sint \<circ> fst"]) (auto simp: link_inv_def)
    moreover have "\<forall>d \<in> set (ds @ [(ctr, t)]). sint (fst d) \<le> sint ctr"
      using ds(3) accepted(7) by auto
    ultimately show ?thesis
      using ds accepted(7,9,10)
      by (intro exI [of _ "if evt_ok then ds @ [(ctr, t)] else ds"]) auto
  qed
  then show ?thesis using inv wire key by (auto simp: link_inv_def)
qed

lemma link_inv_step: "link_inv k \<Longrightarrow> link_step k k' \<Longrightarrow> link_inv k'"
  by (erule link_step.cases) (auto intro: link_inv_write link_inv_read)

interpretation session_link: invariant_system link_init link_step link_inv
proof
  show "link_inv k" if "link_init k" for k :: "'d link"
    using that by (auto simp: link_init_def link_inv_def intro!: exI [of _ "[]"])
qed (rule link_inv_step)

text \<open>
  C3: Integrity and replay protection of a conversation. Whatever the network drops, delays,
  repeats, reorders or injects, as long as it cannot forge ciphertexts for the session key,
  the texts handed to the receiving application are at every moment a subsequence of the texts
  the sender wrote: none is altered or invented, none comes twice, and their order is kept.
\<close>

theorem link_integrity:
  assumes "link_init k" and "run_of link_step k k'"
  shows "subseq (texts (lk_events k')) (map snd (lk_sent k'))"
proof -
  have "link_inv k'" using session_link.inv_reachable [OF assms] .
  then obtain ds where "subseq ds (lk_sent k')" "map snd ds = texts (lk_events k')"
    by (auto simp: link_inv_def)
  then show ?thesis using subseq_map [of ds "lk_sent k'" snd] by simp
qed


text \<open>A link on which one text is written and then read.\<close>

definition demo_end :: "nat \<Rightarrow> session" where
  "demo_end me =
     \<lparr>s_transport = Relay, s_my_pub = key_of me, s_signing = key_of me, s_peer_x = key_of 2,
      s_verifying = ed_public demo_lib (key_of 2), s_send_key = key_of 7, s_recv_key = key_of 7,
      s_counter = 0, s_writing = True, s_last_counter = -1, s_reading = True\<rparr>"

definition demo_link :: "demo_db link" where
  "demo_link = \<lparr>lk_lib = demo_lib, lk_codec = demo_codec, lk_tx = demo_end 2, lk_rx = demo_end 1,
     lk_wire = [], lk_sent = [], lk_events = []\<rparr>"

lemma demo_libs: "libs_ok demo_lib demo_codec"
  by (simp add: libs_ok_def demo_hkdf demo_aead demo_ed demo_frame_codec)

lemma demo_sendable: "sendable (lit ''Hi'')"
  by (simp add: sendable_def rust_str_def lit_def scalar_def as_bytes_def utf8_char_def)

lemma demo_link_init: "link_init demo_link"
  by (simp add: link_init_def demo_link_def demo_end_def demo_hkdf demo_aead demo_frame_codec)

lemma demo_exchange:
  obtains b where
    "session_write demo_lib demo_codec 100 True (Outgoing (Some (lit ''Hi''))) (demo_end 2) = Some ((demo_end 2)\<lparr>s_counter := 1\<rparr>, [b])"
    and "text_frame demo_lib demo_codec 100 (key_of 7) (key_of 2) (key_of 2) 1 (lit ''Hi'') b"
    and "session_read demo_lib demo_codec 130 True (Received b []) (demo_end 1)
      = Some ((demo_end 1)\<lparr>s_last_counter := 1\<rparr>, [SessionMessage (lit ''Hi'') 100])"
proof -
  obtain b where w: "session_write demo_lib demo_codec 100 True (Outgoing (Some (lit ''Hi''))) (demo_end 2)
      = Some ((demo_end 2)\<lparr>s_counter := 1\<rparr>, [b])"
    and f: "text_frame demo_lib demo_codec 100 (key_of 7) (key_of 2) (key_of 2) 1 (lit ''Hi'') b"
    using write_text [OF demo_libs _ _ demo_sendable, of "demo_end 2" 100] by (auto simp: demo_end_def)
  have "session_read demo_lib demo_codec 130 True (Received b []) (demo_end 1)
      = Some ((demo_end 1)\<lparr>s_last_counter := 1\<rparr>, [SessionMessage (lit ''Hi'') 100])"
    using f by (intro read_text [OF demo_libs, of "key_of 2"]) (simp_all add: demo_end_def frame_is_fresh_diff)
  then show ?thesis using that w f by blast
qed

theorem link_integrity_witness:
  "\<exists>k. link_init demo_link \<and> run_of link_step demo_link k \<and> texts (lk_events k) = [lit ''Hi'']
     \<and> subseq (texts (lk_events k)) (map snd (lk_sent k))"
proof -
  let ?t = "lit ''Hi''"
  let ?tx = "(demo_end 2)\<lparr>s_counter := 1\<rparr>" and ?rx = "(demo_end 1)\<lparr>s_last_counter := 1\<rparr>"
  obtain b where w: "session_write demo_lib demo_codec 100 True (Outgoing (Some ?t)) (demo_end 2) = Some (?tx, [b])"
    and r: "session_read demo_lib demo_codec 130 True (Received b []) (demo_end 1) = Some (?rx, [SessionMessage ?t 100])"
    by (rule demo_exchange)
  let ?k1 = "demo_link\<lparr>lk_tx := ?tx, lk_wire := lk_wire demo_link @ [b],
    lk_sent := lk_sent demo_link @ sent_text (lk_tx demo_link) (Outgoing (Some ?t))\<rparr>"
  let ?k2 = "?k1\<lparr>lk_rx := ?rx, lk_events := lk_events ?k1 @ [SessionMessage ?t 100]\<rparr>"
  have "link_step demo_link ?k1"
    using w demo_sendable by (intro link_write) (simp_all add: demo_link_def demo_end_def)
  moreover have "link_step ?k1 ?k2"
    using r by (intro link_read) (auto simp: demo_link_def demo_end_def unforged_def)
  ultimately have run: "run_of link_step demo_link ?k2" by (blast intro: run_refl run_step)
  have "texts (lk_events ?k2) = [?t]" by (simp add: demo_link_def)
  then show ?thesis using link_integrity [OF demo_link_init run] run demo_link_init by blast
qed

section \<open>Replay protection of a reader\<close>

text \<open>Where the text of a counter came from: a frame the peer signed, fresh when it arrived.\<close>

definition authentic ::
  "'d crypto_lib \<Rightarrow> p2p_codec \<Rightarrow> (i64 \<times> bool \<times> reader_event) list \<Rightarrow> session \<Rightarrow> i64 \<Rightarrow> rstr \<Rightarrow> bool" where
  "authentic L C evs s ctr t \<longleftrightarrow>
     (\<exists>now up b addr pm c. (now, up, Received b addr) \<in> set evs
        \<and> pm_from_slice C (handed (s_transport s) b) = Some pm
        \<and> verify L pm (s_peer_x s) (s_verifying s) \<and> frame_is_fresh (pm_timestamp pm) now
        \<and> pm_payload pm = ChatMessage ctr c
        \<and> decrypt_message_from_chat L c (s_recv_key s) ctr = Some (Inr t))"

lemma authentic_mono: "authentic L C evs s ctr t \<Longrightarrow> authentic L C (e # evs) s ctr t"
  unfolding authentic_def by (meson list.set_intros(2))

lemma session_read_keeps:
  assumes "session_read L C now up ev s = Some (s', es)"
  shows "s_transport s' = s_transport s \<and> s_peer_x s' = s_peer_x s \<and> s_verifying s' = s_verifying s
    \<and> s_recv_key s' = s_recv_key s \<and> sint (s_last_counter s) \<le> sint (s_last_counter s')"
  using assms by (cases rule: session_read_SomeE) simp_all

text \<open>
  C6: Whatever a reader receives, in whatever order and however often, each text it hands up
  came in a frame that verified under the peer's keys, was fresh on arrival and decrypted under
  its counter, and the counters of the texts strictly increase: no frame is accepted twice.
\<close>

theorem reader_no_replay:
  assumes "session_reads L C evs s = Some (s', es)"
  shows "\<exists>ctrs. list_all2 (authentic L C evs s) ctrs (texts es)
    \<and> sorted_wrt (<) (map sint ctrs) \<and> (\<forall>c \<in> set ctrs. sint (s_last_counter s) < sint c)"
  using assms
proof (induction L C evs s arbitrary: es rule: session_reads.induct)
  case (2 L C now up ev evs s)
  obtain s1 es1 es2 where r: "session_read L C now up ev s = Some (s1, es1)"
    and rs: "session_reads L C evs s1 = Some (s', es2)" and es: "es = es1 @ es2"
    using 2(2) by (auto split: option.splits)
  obtain cs where cs: "list_all2 (authentic L C evs s1) cs (texts es2)" "sorted_wrt (<) (map sint cs)"
    "\<forall>c \<in> set cs. sint (s_last_counter s1) < sint c"
    using 2(1) r rs by blast
  have k: "s_transport s1 = s_transport s" "s_peer_x s1 = s_peer_x s" "s_verifying s1 = s_verifying s"
    "s_recv_key s1 = s_recv_key s" "sint (s_last_counter s) \<le> sint (s_last_counter s1)"
    using session_read_keeps [OF r] by auto
  have tail: "list_all2 (authentic L C ((now, up, ev) # evs) s) cs (texts es2)"
  proof (rule list_all2_mono [OF cs(1)])
    show "authentic L C ((now, up, ev) # evs) s c t" if "authentic L C evs s1 c t" for c t
      using that authentic_mono k by (simp add: authentic_def) blast
  qed
  have lower: "\<forall>c \<in> set cs. sint (s_last_counter s) < sint c" using cs(3) k(5) by auto
  from r show ?case
  proof (cases rule: session_read_SomeE)
    case (ignored go)
    then show ?thesis using tail cs(2) lower es by auto
  next
    case (accepted b addr pm ctr c t)
    show ?thesis
    proof (cases up)
      case True
      have "authentic L C ((now, up, ev) # evs) s ctr t"
        unfolding authentic_def using accepted by (metis list.set_intros(1))
      then show ?thesis
        using tail cs(2,3) lower accepted True es
        by (intro exI [of _ "ctr # cs"]) auto
    next
      case False
      then show ?thesis using tail cs(2) lower es accepted by auto
    qed
  qed
qed simp

theorem reader_no_replay_witness:
  "\<exists>b s es ctrs. session_reads demo_lib demo_codec [(130, True, Received b []), (131, True, Received b [])] (demo_end 1) = Some (s, es)
     \<and> texts es = [lit ''Hi'']
     \<and> list_all2 (authentic demo_lib demo_codec [(130, True, Received b []), (131, True, Received b [])] (demo_end 1)) ctrs (texts es)"
proof -
  obtain b where f: "text_frame demo_lib demo_codec 100 (key_of 7) (key_of 2) (key_of 2) 1 (lit ''Hi'') b"
    and r: "session_read demo_lib demo_codec 130 True (Received b []) (demo_end 1)
      = Some ((demo_end 1)\<lparr>s_last_counter := 1\<rparr>, [SessionMessage (lit ''Hi'') 100])"
    by (rule demo_exchange)
  have "session_read demo_lib demo_codec 131 True (Received b []) ((demo_end 1)\<lparr>s_last_counter := 1\<rparr>)
      = Some ((demo_end 1)\<lparr>s_last_counter := 1\<rparr>, [])"
    using f by (intro read_replayed [where ctr = 1]) (simp_all add: demo_end_def)
  then have rs: "session_reads demo_lib demo_codec [(130, True, Received b []), (131, True, Received b [])] (demo_end 1)
      = Some ((demo_end 1)\<lparr>s_last_counter := 1\<rparr>, [SessionMessage (lit ''Hi'') 100])"
    using r by simp
  have "texts [SessionMessage (lit ''Hi'') 100] = [lit ''Hi'']" by simp
  then show ?thesis using reader_no_replay [OF rs] rs by blast
qed

section \<open>Delivery between honest ends\<close>

text \<open>The two ends of one direction: matching keys and identities.\<close>

definition ends_match :: "'d crypto_lib \<Rightarrow> session \<Rightarrow> session \<Rightarrow> bool" where
  "ends_match L tx rx \<longleftrightarrow>
     s_send_key tx = s_recv_key rx \<and> length (s_my_pub tx) = 32 \<and> length (s_signing tx) = 32
     \<and> s_peer_x rx = s_my_pub tx \<and> s_verifying rx = ed_public L (s_signing tx)"

text \<open>The writer's run over texts handed to it at given times.\<close>

lemma session_writes_texts:
  assumes "libs_ok L C" and "length (s_my_pub s) = 32" and "s_writing s" and "\<forall>x \<in> set xs. sendable (snd x)"
  shows "\<exists>fs. session_writes L C (map (\<lambda>(now, t). (now, True, Outgoing (Some t))) xs) s
      = Some (s\<lparr>s_counter := s_counter s + of_nat (length xs)\<rparr>, fs)
    \<and> length fs = length xs
    \<and> (\<forall>i < length xs. text_frame L C (fst (xs ! i)) (s_send_key s) (s_my_pub s) (s_signing s)
         (s_counter s + of_nat (Suc i)) (snd (xs ! i)) (fs ! i))"
  using assms(2-4)
proof (induction xs arbitrary: s)
  case Nil
  then show ?case by (cases s) simp
next
  case (Cons x xs)
  obtain now t where x: "x = (now, t)" by fastforce
  obtain b where b: "session_write L C now True (Outgoing (Some t)) s = Some (s\<lparr>s_counter := s_counter s + 1\<rparr>, [b])"
    "text_frame L C now (s_send_key s) (s_my_pub s) (s_signing s) (s_counter s + 1) t b"
    using write_text [OF assms(1) Cons(2,3), of t now] Cons(4) x by auto
  obtain fs where fs: "session_writes L C (map (\<lambda>(now, t). (now, True, Outgoing (Some t))) xs) (s\<lparr>s_counter := s_counter s + 1\<rparr>)
      = Some (s\<lparr>s_counter := s_counter s + 1 + of_nat (length xs)\<rparr>, fs)"
    "length fs = length xs"
    "\<forall>i < length xs. text_frame L C (fst (xs ! i)) (s_send_key s) (s_my_pub s) (s_signing s)
         (s_counter s + 1 + of_nat (Suc i)) (snd (xs ! i)) (fs ! i)"
    using Cons(1) [of "s\<lparr>s_counter := s_counter s + 1\<rparr>"] Cons(2-4) by auto
  have "text_frame L C (fst ((x # xs) ! i)) (s_send_key s) (s_my_pub s) (s_signing s)
         (s_counter s + of_nat (Suc i)) (snd ((x # xs) ! i)) ((b # fs) ! i)" if "i < length (x # xs)" for i
    using that b(2) fs(3) x by (cases i) (auto simp: add.assoc)
  then show ?case
    using b(1) fs(1,2) x by (intro exI [of _ "b # fs"]) (simp add: add.assoc)
qed

text \<open>
  A frame on its way: the counter, time and text it was made with, and when, as which bytes and
  from where it arrives.
\<close>

record arrival =
  ar_ctr :: i64
  ar_sent_at :: i64
  ar_text :: rstr
  ar_now :: i64
  ar_bytes :: bytes
  ar_addr :: socket_addr

definition arrives :: "arrival list \<Rightarrow> (i64 \<times> bool \<times> reader_event) list" where
  "arrives xs = map (\<lambda>a. (ar_now a, True, Received (ar_bytes a) (ar_addr a))) xs"

text \<open>The reader's run over frames with increasing counters.\<close>

lemma session_reads_texts:
  assumes "libs_ok L C" and "length signing = 32" and "s_verifying s = ed_public L signing" and "s_reading s"
    and "\<forall>a \<in> set xs. accepts_from (s_transport s) (ar_addr a) \<and> frame_is_fresh (ar_sent_at a) (ar_now a)
        \<and> text_frame L C (ar_sent_at a) (s_recv_key s) (s_peer_x s) signing (ar_ctr a) (ar_text a)
             (handed (s_transport s) (ar_bytes a))"
    and "sorted_wrt (<) (sint (s_last_counter s) # map (sint \<circ> ar_ctr) xs)"
  shows "\<exists>s'. session_reads L C (arrives xs) s
      = Some (s', map (\<lambda>a. SessionMessage (ar_text a) (ar_sent_at a)) xs) \<and> s_reading s'"
  using assms(3-6)
proof (induction xs arbitrary: s)
  case Nil
  then show ?case by (simp add: arrives_def)
next
  case (Cons a xs)
  let ?s = "s\<lparr>s_last_counter := ar_ctr a\<rparr>"
  have r: "session_read L C (ar_now a) True (Received (ar_bytes a) (ar_addr a)) s
      = Some (?s, [SessionMessage (ar_text a) (ar_sent_at a)])"
    using Cons(2-5) by (intro read_text [OF assms(1,2)]) auto
  obtain s' where "session_reads L C (arrives xs) ?s
      = Some (s', map (\<lambda>a. SessionMessage (ar_text a) (ar_sent_at a)) xs)" "s_reading s'"
    using Cons(1) [of ?s] Cons(2-5) by auto
  then show ?case using r by (simp add: arrives_def)
qed

text \<open>What the network delivers of a writer's frames: some of them, in order, whenever.\<close>

definition delivers :: "(i64 \<times> rstr) list \<Rightarrow> bytes list \<Rightarrow> (nat \<times> i64 \<times> socket_addr) list \<Rightarrow> arrival list" where
  "delivers xs fs ds = map (\<lambda>(i, now, addr).
     \<lparr>ar_ctr = of_nat (Suc i), ar_sent_at = fst (xs ! i), ar_text = snd (xs ! i),
      ar_now = now, ar_bytes = fs ! i, ar_addr = addr\<rparr>) ds"

lemma sint_of_nat: "n < 2 ^ 63 \<Longrightarrow> sint (of_nat n :: i64) = int n"
  using sint_word_of_int64 [of "int n"] by simp

lemma delivers_sorted:
  assumes "sorted_wrt (<) (map fst ds)" and "\<forall>d \<in> set ds. Suc (fst d) < 2 ^ 63"
  shows "sorted_wrt (<) (-1 # map (sint \<circ> ar_ctr) (delivers xs fs ds))"
proof -
  have "map (sint \<circ> ar_ctr) (delivers xs fs ds) = map (\<lambda>d. int (Suc (fst d))) ds"
    using assms(2) sint_of_nat by (auto simp: delivers_def case_prod_beta simp del: of_nat_Suc)
  moreover have "sorted_wrt (<) (map (\<lambda>d. int (Suc (fst d))) ds)"
    using assms(1) by (simp add: sorted_wrt_map)
  ultimately show ?thesis by simp
qed

text \<open>
  Delivery. A sender that writes any texts puts one frame per text on the wire; whichever of
  them reach the matching receiver, in order, each within the freshness window, unbroken (a
  direct reader takes 2048 bytes) and from the expected address, the receiver hands up exactly
  the texts of those frames, with the times they were written, and keeps reading.
\<close>

lemma session_delivery:
  assumes "libs_ok L C" and "ends_match L tx rx"
    and "s_writing tx" and "s_counter tx = 0" and "s_reading rx" and "s_last_counter rx = -1"
    and "\<forall>x \<in> set xs. sendable (snd x)" and "length xs < 2 ^ 63 - 1"
  shows "\<exists>tx' fs. session_writes L C (map (\<lambda>(now, t). (now, True, Outgoing (Some t))) xs) tx = Some (tx', fs)
    \<and> length fs = length xs
    \<and> (\<forall>ds. sorted_wrt (<) (map fst ds) \<longrightarrow>
         (\<forall>(i, now, addr) \<in> set ds. i < length fs \<and> frame_is_fresh (fst (xs ! i)) now
            \<and> accepts_from (s_transport rx) addr \<and> handed (s_transport rx) (fs ! i) = fs ! i) \<longrightarrow>
         (\<exists>rx'. session_reads L C (map (\<lambda>(i, now, addr). (now, True, Received (fs ! i) addr)) ds) rx
            = Some (rx', map (\<lambda>(i, now, addr). SessionMessage (snd (xs ! i)) (fst (xs ! i))) ds)
          \<and> s_reading rx'))"
proof -
  have m: "s_send_key tx = s_recv_key rx" "length (s_my_pub tx) = 32" "length (s_signing tx) = 32"
    "s_peer_x rx = s_my_pub tx" "s_verifying rx = ed_public L (s_signing tx)"
    using assms(2) by (simp_all add: ends_match_def)
  obtain tx' fs where w: "session_writes L C (map (\<lambda>(now, t). (now, True, Outgoing (Some t))) xs) tx = Some (tx', fs)"
    and fs: "length fs = length xs"
    and f: "\<forall>i < length xs. text_frame L C (fst (xs ! i)) (s_send_key tx) (s_my_pub tx) (s_signing tx)
         (of_nat (Suc i)) (snd (xs ! i)) (fs ! i)"
    using session_writes_texts [OF assms(1) m(2) assms(3,7)] assms(4) by auto
  have "\<exists>rx'. session_reads L C (map (\<lambda>(i, now, addr). (now, True, Received (fs ! i) addr)) ds) rx
            = Some (rx', map (\<lambda>(i, now, addr). SessionMessage (snd (xs ! i)) (fst (xs ! i))) ds)
          \<and> s_reading rx'"
    if sorted: "sorted_wrt (<) (map fst ds)"
      and ds: "\<forall>(i, now, addr) \<in> set ds. i < length fs \<and> frame_is_fresh (fst (xs ! i)) now
            \<and> accepts_from (s_transport rx) addr \<and> handed (s_transport rx) (fs ! i) = fs ! i" for ds
  proof -
    have "\<forall>d \<in> set ds. Suc (fst d) < 2 ^ 63" using ds fs assms(8) by fastforce
    then have "sorted_wrt (<) (sint (s_last_counter rx) # map (sint \<circ> ar_ctr) (delivers xs fs ds))"
      using delivers_sorted [OF sorted, of xs fs] assms(6) by simp
    then have "\<exists>s'. session_reads L C (arrives (delivers xs fs ds)) rx
      = Some (s', map (\<lambda>a. SessionMessage (ar_text a) (ar_sent_at a)) (delivers xs fs ds)) \<and> s_reading s'"
      using ds f m fs
      by (intro session_reads_texts [OF assms(1) m(3,5) assms(5)]) (auto simp: delivers_def simp del: of_nat_Suc)
    then show ?thesis by (simp add: arrives_def delivers_def comp_def case_prod_unfold)
  qed
  then show ?thesis using w fs by blast
qed

text \<open>
  Two peers with different public keys that start a session from the same session key get
  matching ends in both directions: what one sends under, the other receives under. The
  writer's counter starts at 0 and the reader's below every counter a writer uses.
\<close>

theorem start_session_ends_match:
  assumes "hkdf_ok L" and "length pa = 32" and "length pb = 32" and "pa \<noteq> pb"
    and "length ka = 32" and "length kb = 32"
  shows "\<exists>sa sb.
     start_session L ta key pa ka \<lparr>pk_public = pb, pk_verifying = ed_public L kb\<rparr> (am_i_first pa pb) = Some sa
   \<and> start_session L tb key pb kb \<lparr>pk_public = pa, pk_verifying = ed_public L ka\<rparr> (am_i_first pb pa) = Some sb
   \<and> ends_match L sa sb \<and> ends_match L sb sa
   \<and> s_counter sa = 0 \<and> s_last_counter sb = -1 \<and> s_writing sa \<and> s_reading sb"
proof -
  obtain k1 where k1: "hkdf_expand L key (info ''a2b'') 32 = Some k1"
    using assms(1) by (rule hkdf_okE [where n = 32]) simp_all
  obtain k2 where k2: "hkdf_expand L key (info ''b2a'') 32 = Some k2"
    using assms(1) by (rule hkdf_okE [where n = 32]) simp_all
  have "am_i_first pb pa = (\<not> am_i_first pa pb)" using assms(4) by (auto simp: am_i_first_def)
  then show ?thesis
    using k1 k2 assms(2,3,5,6)
    by (cases "am_i_first pa pb")
      (simp_all add: start_session_def session_labels_def derive_directional_key_def ends_match_def)
qed

theorem start_session_ends_match_witness:
  "\<exists>sa sb.
     start_session demo_lib Relay (key_of 9) (key_of 1) (key_of 1) \<lparr>pk_public = key_of 2, pk_verifying = ed_public demo_lib (key_of 2)\<rparr>
       (am_i_first (key_of 1) (key_of 2)) = Some sa
   \<and> start_session demo_lib Relay (key_of 9) (key_of 2) (key_of 2) \<lparr>pk_public = key_of 1, pk_verifying = ed_public demo_lib (key_of 1)\<rparr>
       (am_i_first (key_of 2) (key_of 1)) = Some sb
   \<and> ends_match demo_lib sa sb"
proof -
  have "key_of 1 \<noteq> key_of 2" by code_simp
  from start_session_ends_match [OF demo_hkdf _ _ this, of "key_of 1" "key_of 2"] show ?thesis
    by (metis length_key_of)
qed

end
