(* ===== verification/P2P_Handshake.thy ===== *)
theory P2P_Handshake
  imports P2P_Session
begin

text \<open>
  Setting up a session (\<^verbatim>\<open>crates/p2p/src/lib.rs\<close>): \<^verbatim>\<open>punch_hole\<close>, \<^verbatim>\<open>stun_discover\<close>,
  \<^verbatim>\<open>initial_handshake\<close> and \<^verbatim>\<open>relay_handshake\<close>. Each \<^verbatim>\<open>select!\<close> loop is a function of the sequence of
  events the runtime hands it, of which the deadline is one; it returns what it put on the wire and
  its result, \<open>None\<close> while it is still waiting. The interface \<open>select_loop\<close> states what
  the three loops share: they return at the first event that decides them.
\<close>

section \<open>Event loops\<close>

locale select_loop =
  fixes decides :: "'e \<Rightarrow> 'r option"
    and result :: "'e list \<Rightarrow> 'r option"
  assumes result_Nil: "result [] = None"
    and result_Cons: "result (e # es) = (case decides e of None \<Rightarrow> result es | Some r \<Rightarrow> Some r)"
begin

lemma result_iff:
  "result es = Some r \<longleftrightarrow>
     (\<exists>pre e post. es = pre @ e # post \<and> (\<forall>x \<in> set pre. decides x = None) \<and> decides e = Some r)"
    (is "_ \<longleftrightarrow> ?first es")
proof (induction es)
  case Nil
  then show ?case by (simp add: result_Nil)
next
  case (Cons x es)
  show ?case
  proof (cases "decides x")
    case None
    have "?first (x # es) \<longleftrightarrow> ?first es"
    proof
      assume "?first (x # es)"
      then obtain pre e post where p: "x # es = pre @ e # post" "\<forall>y \<in> set pre. decides y = None" "decides e = Some r"
        by blast
      then have "pre \<noteq> []" using None by auto
      then obtain pre' where "pre = x # pre'" using p(1) by (cases pre) auto
      then show "?first es" using p by auto
    next
      assume "?first es"
      then show "?first (x # es)" using None by (metis append_Cons set_ConsD)
    qed
    then show ?thesis using Cons None by (simp add: result_Cons)
  next
    case (Some r')
    then have "?first (x # es) \<longleftrightarrow> r' = r"
      by (metis append_Cons append_Nil append_is_Nil_conv empty_iff hd_append2 list.sel(1) list.set(1)
          list.set_sel(1) option.distinct(1) option.inject)
    then show ?thesis using Some by (simp add: result_Cons)
  qed
qed

lemma result_mem: "result es = Some r \<Longrightarrow> \<exists>e \<in> set es. decides e = Some r"
  by (induction es) (auto simp: result_Nil result_Cons split: option.splits)

lemma result_returns: "e \<in> set es \<Longrightarrow> decides e \<noteq> None \<Longrightarrow> result es \<noteq> None"
  by (induction es) (auto simp: result_Cons split: option.splits)

lemma result_skip: "\<forall>x \<in> set pre. decides x = None \<Longrightarrow> result (pre @ es) = result es"
  by (induction pre) (simp_all add: result_Cons)

end

section \<open>Hole punching\<close>

datatype net_event = Tick | Recv bytes socket_addr | RecvFailed | Deadline

fun punch_decides :: "p2p_codec \<Rightarrow> u64 \<Rightarrow> bytes \<Rightarrow> net_event \<Rightarrow> (punch_hole_result + socket_addr) option" where
  "punch_decides C timestamp remote Tick = None"
| "punch_decides C timestamp remote (Recv b addr) =
     (case ping_from_slice C (take 1024 b) of
        Some p \<Rightarrow> if ping_pubkey p = remote \<and> ping_timestamp p = timestamp then Some (Inr addr) else None
      | None \<Rightarrow> None)"
| "punch_decides C timestamp remote RecvFailed = Some (Inl PunchRecvError)"
| "punch_decides C timestamp remote Deadline = Some (Inl PunchTimeout)"

fun punch_loop ::
  "p2p_codec \<Rightarrow> bytes \<Rightarrow> u64 \<Rightarrow> bytes \<Rightarrow> net_event list \<Rightarrow> bytes list \<times> (punch_hole_result + socket_addr) option" where
  "punch_loop C data timestamp remote [] = ([], None)"
| "punch_loop C data timestamp remote (e # es) =
     (case punch_decides C timestamp remote e of
        Some r \<Rightarrow> ([], Some r)
      | None \<Rightarrow> (case punch_loop C data timestamp remote es of
          (sent, r) \<Rightarrow> (if e = Tick then data # sent else sent, r)))"

definition punch_hole ::
  "p2p_codec \<Rightarrow> u64 \<Rightarrow> bytes \<Rightarrow> bytes \<Rightarrow> net_event list \<Rightarrow> bytes list \<times> (punch_hole_result + socket_addr) option" where
  "punch_hole C timestamp mypubkey remote_pubkey es =
     (case ping_to_vec C \<lparr>ping_pubkey = mypubkey, ping_timestamp = timestamp\<rparr> of
        None \<Rightarrow> ([], Some (Inl PunchSendError))
      | Some data \<Rightarrow> punch_loop C data timestamp remote_pubkey es)"

interpretation punch: select_loop "punch_decides C timestamp remote" "\<lambda>es. snd (punch_loop C data timestamp remote es)"
  for C data timestamp remote
  by unfold_locales (auto split: option.split prod.split)

section \<open>STUN\<close>

definition stun_ping_new :: "'d crypto_lib \<Rightarrow> i64 \<Rightarrow> bytes \<Rightarrow> bytes \<Rightarrow> stun_ping" where
  "stun_ping_new L now pub_key signing =
     \<lparr>sp_pub_key = pub_key, sp_verif = ed_public L signing, sp_timestamp = now,
      sp_signature = sign_challenge L signing (pub_key @ ed_public L signing @ to_le_bytes now)\<rparr>"

text \<open>
  One try: whether the datagram went out, and what came back within two seconds (\<open>None\<close> for a
  timeout or a socket error).
\<close>

fun stun_loop :: "p2p_codec \<Rightarrow> nat \<Rightarrow> (bool \<times> bytes option) list \<Rightarrow> rstr option" where
  "stun_loop C n [] = None"
| "stun_loop C 0 tries = None"
| "stun_loop C (Suc n) ((sent, recvd) # tries) =
     (if \<not> sent then None
      else case recvd of
             None \<Rightarrow> stun_loop C n tries
           | Some b \<Rightarrow> (case stun_reply_from_slice C (take 512 b) of
               Some observed \<Rightarrow> Some observed
             | None \<Rightarrow> stun_loop C n tries))"

definition stun_discover ::
  "'d crypto_lib \<Rightarrow> p2p_codec \<Rightarrow> i64 \<Rightarrow> bytes \<Rightarrow> bytes \<Rightarrow> (bool \<times> bytes option) list \<Rightarrow> rstr option" where
  "stun_discover L C now pub_key signing tries =
     (case stun_ping_to_vec C (stun_ping_new L now pub_key signing) of
        None \<Rightarrow> None
      | Some _ \<Rightarrow> stun_loop C 3 tries)"

section \<open>The handshakes\<close>

text \<open>The checks both handshakes make on a datagram: the ephemeral key of a fresh, signed \<open>Init\<close>.\<close>

definition accept_init :: "'d crypto_lib \<Rightarrow> p2p_codec \<Rightarrow> peer_public \<Rightarrow> i64 \<Rightarrow> bytes \<Rightarrow> bytes option" where
  "accept_init L C remote now b =
     (case pm_from_slice C b of
        None \<Rightarrow> None
      | Some msg \<Rightarrow>
          if \<not> verify L msg (pk_public remote) (pk_verifying remote) then None
          else if \<not> frame_is_fresh (pm_timestamp msg) now then None
          else (case pm_payload msg of Init ephermal \<Rightarrow> Some ephermal | _ \<Rightarrow> None))"

fun direct_decides ::
  "'d crypto_lib \<Rightarrow> p2p_codec \<Rightarrow> peer_public \<Rightarrow> bytes \<Rightarrow> (i64 \<times> bool \<times> net_event) \<Rightarrow> (p2p_error + bytes) option" where
  "direct_decides L C remote priv (now, up, Tick) = None"
| "direct_decides L C remote priv (now, up, Recv b addr) =
     map_option (\<lambda>e. map_err (\<lambda>_. P2PCryptographicError) (derive_session_key L priv e))
       (accept_init L C remote now (take 1024 b))"
| "direct_decides L C remote priv (now, up, RecvFailed) = None"
| "direct_decides L C remote priv (now, up, Deadline) = Some (Inl Timeout)"

text \<open>On the relay path there are no addresses, no buffer, and \<open>RecvFailed\<close> is the closed channel.\<close>

fun relay_decides ::
  "'d crypto_lib \<Rightarrow> p2p_codec \<Rightarrow> peer_public \<Rightarrow> bytes \<Rightarrow> (i64 \<times> bool \<times> net_event) \<Rightarrow> (p2p_error + bytes) option" where
  "relay_decides L C remote priv (now, up, Tick) = None"
| "relay_decides L C remote priv (now, up, Recv b addr) =
     map_option (\<lambda>e. map_err (\<lambda>_. P2PCryptographicError) (derive_session_key L priv e))
       (accept_init L C remote now b)"
| "relay_decides L C remote priv (now, up, RecvFailed) = Some (Inl CommunicationError)"
| "relay_decides L C remote priv (now, up, Deadline) = Some (Inl Timeout)"

text \<open>
  The bytes an attempt to send our \<open>Init\<close> puts on the wire; \<open>up\<close> tells whether the socket or
  channel takes them. Failures are ignored.
\<close>

definition send_init :: "'d crypto_lib \<Rightarrow> p2p_codec \<Rightarrow> bytes \<Rightarrow> bytes \<Rightarrow> bytes \<Rightarrow> i64 \<Rightarrow> bool \<Rightarrow> bytes list" where
  "send_init L C my_pubkey myephermal_pub my_signing now up =
     (case send_peer_message L C now up (Init myephermal_pub) my_pubkey my_signing of
        Inl _ \<Rightarrow> [] | Inr b \<Rightarrow> [b])"

definition relay_send_init :: "'d crypto_lib \<Rightarrow> p2p_codec \<Rightarrow> bytes \<Rightarrow> bytes \<Rightarrow> bytes \<Rightarrow> i64 \<Rightarrow> bool \<Rightarrow> bytes list" where
  "relay_send_init L C my_pubkey myephermal_pub my_signing now up =
     (case frame L C now (Init myephermal_pub) my_pubkey my_signing of
        None \<Rightarrow> [] | Some b \<Rightarrow> if up then [b] else [])"

text \<open>The loop, with the events that decide it and the sending of our \<open>Init\<close>.\<close>

fun handshake_loop ::
  "((i64 \<times> bool \<times> net_event) \<Rightarrow> 'r option) \<Rightarrow> (i64 \<Rightarrow> bool \<Rightarrow> bytes list) \<Rightarrow> (i64 \<times> bool \<times> net_event) list
   \<Rightarrow> bytes list \<times> 'r option" where
  "handshake_loop decides send [] = ([], None)"
| "handshake_loop decides send ((now, up, ev) # es) =
     (case decides (now, up, ev) of
        Some r \<Rightarrow> ([], Some r)
      | None \<Rightarrow> (case handshake_loop decides send es of
          (sent, r) \<Rightarrow> (if ev = Tick then send now up @ sent else sent, r)))"

interpretation shake: select_loop decides "\<lambda>es. snd (handshake_loop decides send es)" for decides send
  by unfold_locales (auto split: option.split prod.split)

definition initial_handshake ::
  "'d crypto_lib \<Rightarrow> p2p_codec \<Rightarrow> bytes \<Rightarrow> bytes \<Rightarrow> bytes \<Rightarrow> peer_public \<Rightarrow> bytes \<Rightarrow> i64 \<Rightarrow> bool
   \<Rightarrow> (i64 \<times> bool \<times> net_event) list \<Rightarrow> bytes list \<times> (p2p_error + bytes) option" where
  "initial_handshake L C my_pubkey myephermal_priv myephermal_pub remote my_signing now up es =
     (let send = send_init L C my_pubkey myephermal_pub my_signing in
      case handshake_loop (direct_decides L C remote myephermal_priv) send es of
        (sent, r) \<Rightarrow> (send now up @ sent, r))"

definition relay_handshake ::
  "'d crypto_lib \<Rightarrow> p2p_codec \<Rightarrow> bytes \<Rightarrow> bytes \<Rightarrow> bytes \<Rightarrow> peer_public \<Rightarrow> bytes \<Rightarrow> i64 \<Rightarrow> bool
   \<Rightarrow> (i64 \<times> bool \<times> net_event) list \<Rightarrow> bytes list \<times> (p2p_error + bytes) option" where
  "relay_handshake L C my_pubkey myephermal_priv myephermal_pub remote my_signing now up es =
     (let send = relay_send_init L C my_pubkey myephermal_pub my_signing in
      case handshake_loop (relay_decides L C remote myephermal_priv) send es of
        (sent, r) \<Rightarrow> (send now up @ sent, r))"

section \<open>Properties\<close>

text \<open>
  Hole punching succeeds with an address exactly when, before a socket error and before the
  deadline, a ping arrives from that address that names the peer's key and this request's
  timestamp; everything else that arrives is ignored. Once the deadline passes it has returned.
\<close>

theorem punch_hole_finds_peer:
  assumes "ping_to_vec C \<lparr>ping_pubkey = me, ping_timestamp = ts\<rparr> = Some data"
  shows "(snd (punch_hole C ts me remote es) = Some (Inr addr) \<longleftrightarrow>
      (\<exists>pre b post p. es = pre @ Recv b addr # post
         \<and> ping_from_slice C (take 1024 b) = Some p \<and> ping_pubkey p = remote \<and> ping_timestamp p = ts
         \<and> (\<forall>e \<in> set pre. e \<noteq> RecvFailed \<and> e \<noteq> Deadline
              \<and> (\<forall>b' a'. e = Recv b' a' \<longrightarrow> ping_from_slice C (take 1024 b') \<noteq> Some \<lparr>ping_pubkey = remote, ping_timestamp = ts\<rparr>))))
    \<and> (Deadline \<in> set es \<longrightarrow> snd (punch_hole C ts me remote es) \<noteq> None)"
proof -
  have loop: "punch_hole C ts me remote es = punch_loop C data ts remote es"
    using assms by (simp add: punch_hole_def)
  have undecided: "punch_decides C ts remote e = None \<longleftrightarrow> e \<noteq> RecvFailed \<and> e \<noteq> Deadline
      \<and> (\<forall>b a. e = Recv b a \<longrightarrow> ping_from_slice C (take 1024 b) \<noteq> Some \<lparr>ping_pubkey = remote, ping_timestamp = ts\<rparr>)" for e
    by (cases e) (auto split: option.split)
  have found: "punch_decides C ts remote e = Some (Inr addr) \<longleftrightarrow> (\<exists>b p. e = Recv b addr
      \<and> ping_from_slice C (take 1024 b) = Some p \<and> ping_pubkey p = remote \<and> ping_timestamp p = ts)" for e
    by (cases e) (auto split: option.split)
  show ?thesis
    unfolding loop using punch.result_iff [of C data ts remote es "Inr addr"]
      punch.result_returns [of Deadline es C ts remote data]
    by (auto simp: undecided found)
qed

theorem punch_hole_finds_peer_witness:
  "snd (punch_hole demo_codec 7 (key_of 1) (key_of 2)
     [Tick, Recv [1, 2, 3] (lit ''a''), Recv (demo_ping_enc \<lparr>ping_pubkey = key_of 2, ping_timestamp = 7\<rparr>) (lit ''b''), Deadline])
   = Some (Inr (lit ''b''))"
proof -
  let ?p = "\<lparr>ping_pubkey = key_of 2, ping_timestamp = 7\<rparr>"
  have "ping_to_vec demo_codec \<lparr>ping_pubkey = key_of 1, ping_timestamp = 7\<rparr>
      = Some (demo_ping_enc \<lparr>ping_pubkey = key_of 1, ping_timestamp = 7\<rparr>)"
    by (simp add: demo_codec_def)
  note th = punch_hole_finds_peer [OF this, of "key_of 2" "[Tick, Recv [1, 2, 3] (lit ''a''), Recv (demo_ping_enc ?p) (lit ''b''), Deadline]" "lit ''b''"]
  have d: "ping_from_slice demo_codec (take 1024 (demo_ping_enc ?p)) = Some ?p"
    "ping_from_slice demo_codec (take 1024 [1, 2, 3]) = None"
    by (simp_all add: demo_codec_def demo_ping_dec_def demo_ping_enc_def)
  show ?thesis
    by (rule th [THEN conjunct1, THEN iffD2],
        rule exI [of _ "[Tick, Recv [1, 2, 3] (lit ''a'')]"], rule exI [of _ "demo_ping_enc ?p"],
        rule exI [of _ "[Deadline]"], rule exI [of _ ?p]) (use d in auto)
qed

lemma stun_loop_eq:
  "stun_loop C n tries =
     (case List.map_filter (\<lambda>(_, r). Option.bind r (\<lambda>b. stun_reply_from_slice C (take 512 b))) (takeWhile fst (take n tries)) of
        [] \<Rightarrow> None | observed # _ \<Rightarrow> Some observed)"
  by (induction C n tries rule: stun_loop.induct) (simp_all add: map_filter_simps split: option.split)

text \<open>
  STUN discovery returns the address in the first answer that parses, among at most three
  tries and only those before the first datagram that could not be sent; the ping it sends
  carries a signature that verifies over both keys and the time.
\<close>

lemma stun_first_reply:
  assumes "stun_ping_to_vec C (stun_ping_new L now pub signing) \<noteq> None" and "ed_ok L" and "length signing = 32"
  shows "stun_discover L C now pub signing tries =
     (case List.map_filter (\<lambda>(_, r). Option.bind r (\<lambda>b. stun_reply_from_slice C (take 512 b))) (takeWhile fst (take 3 tries)) of
        [] \<Rightarrow> None | observed # _ \<Rightarrow> Some observed)
   \<and> (let p = stun_ping_new L now pub signing in
      ed_verify L (sp_verif p) (sp_pub_key p @ sp_verif p @ to_le_bytes (sp_timestamp p)) (sp_signature p))"
  using assms(1) ed_okD(5) [OF assms(2,3)]
  by (auto simp: stun_discover_def stun_loop_eq stun_ping_new_def sign_challenge_def Let_def)

lemma accept_init_SomeD:
  assumes "accept_init L C remote now b = Some e"
  shows "\<exists>pm. pm_from_slice C b = Some pm \<and> verify L pm (pk_public remote) (pk_verifying remote)
    \<and> frame_is_fresh (pm_timestamp pm) now \<and> pm_payload pm = Init e"
  using assms by (auto simp: accept_init_def split: option.splits if_splits p2p_message.splits)

lemma snd_initial_handshake:
  "snd (initial_handshake L C me priv eph remote signing now up es)
   = snd (handshake_loop (direct_decides L C remote priv) (send_init L C me eph signing) es)"
  by (simp add: initial_handshake_def Let_def split: prod.split)

lemma snd_relay_handshake:
  "snd (relay_handshake L C me priv eph remote signing now up es)
   = snd (handshake_loop (relay_decides L C remote priv) (relay_send_init L C me eph signing) es)"
  by (simp add: relay_handshake_def Let_def split: prod.split)

text \<open>
  C7: Either handshake yields a key only from a datagram of the peer: a frame that parses,
  verifies under the peer's two public keys, is fresh on arrival and is an \<open>Init\<close>; the key is
  derived from our ephemeral secret and the ephemeral key in that frame.
\<close>

theorem handshake_authentic:
  assumes "snd (initial_handshake L C me priv eph remote signing now up es) = Some (Inr key)
    \<or> snd (relay_handshake L C me priv eph remote signing now up es) = Some (Inr key)"
  shows "\<exists>t u b b' addr pm e. (t, u, Recv b addr) \<in> set es \<and> (b' = b \<or> b' = take 1024 b)
    \<and> pm_from_slice C b' = Some pm \<and> verify L pm (pk_public remote) (pk_verifying remote)
    \<and> frame_is_fresh (pm_timestamp pm) t \<and> pm_payload pm = Init e \<and> derive_session_key L priv e = Inr key"
proof -
  have err: "map_err f r = Inr k \<Longrightarrow> r = Inr k" for f and r :: "crypto_errors + bytes" and k
    by (cases r) (simp_all add: map_err_def)
  have *: "\<exists>b b' addr e. ev = Recv b addr \<and> (b' = b \<or> b' = take 1024 b) \<and> accept_init L C remote t b' = Some e
      \<and> derive_session_key L priv e = Inr key"
    if "direct_decides L C remote priv (t, u, ev) = Some (Inr key) \<or> relay_decides L C remote priv (t, u, ev) = Some (Inr key)" for t u ev
    using that by (cases ev) (auto dest: err)
  have "\<exists>x \<in> set es. direct_decides L C remote priv x = Some (Inr key) \<or> relay_decides L C remote priv x = Some (Inr key)"
    using assms unfolding snd_initial_handshake snd_relay_handshake by (meson shake.result_mem)
  then obtain t u ev where "(t, u, ev) \<in> set es"
    "direct_decides L C remote priv (t, u, ev) = Some (Inr key) \<or> relay_decides L C remote priv (t, u, ev) = Some (Inr key)"
    by (metis prod_cases3)
  then show ?thesis using * accept_init_SomeD by metis
qed

text \<open>
  The \<open>Init\<close> of an honest peer: what it puts on the wire at time \<open>now\<close> and that the other side
  accepts it while it is fresh.
\<close>

definition init_frame :: "'d crypto_lib \<Rightarrow> p2p_codec \<Rightarrow> bytes \<Rightarrow> bytes \<Rightarrow> bytes \<Rightarrow> i64 \<Rightarrow> bytes" where
  "init_frame L C me eph signing now = the (frame L C now (Init eph) me signing)"

lemma init_frame_decodes:
  assumes "frame_codec_ok C" and "length me = 32" and "length eph = 32"
  shows "pm_to_vec C (peer_message_new L now (Init eph) me signing) = Some (init_frame L C me eph signing now)
    \<and> pm_from_slice C (init_frame L C me eph signing now) = Some (peer_message_new L now (Init eph) me signing)"
  using frame_exists [OF assms(1,2), of "Init eph" L now signing] assms(3)
  by (auto simp: init_frame_def frame_def)

lemma sends_init_frame:
  assumes "frame_codec_ok C" and "length me = 32" and "length eph = 32"
  shows "send_init L C me eph signing now True = [init_frame L C me eph signing now]"
    "relay_send_init L C me eph signing now True = [init_frame L C me eph signing now]"
  using init_frame_decodes [OF assms, of L now signing]
  by (simp_all add: send_init_def relay_send_init_def send_peer_message_def and_then_def ok_or_def frame_def)

lemma accept_init_frame:
  assumes "frame_codec_ok C" and "ed_ok L" and "length p = 32" and "length eph = 32" and "length signing = 32"
    and "frame_is_fresh sent_at now"
  shows "accept_init L C \<lparr>pk_public = p, pk_verifying = ed_public L signing\<rparr> now (init_frame L C p eph signing sent_at) = Some eph"
proof -
  have "verify L (peer_message_new L sent_at (Init eph) p signing) p (ed_public L signing)"
    using verify_signed assms(2,5) by blast
  then show ?thesis
    using init_frame_decodes [OF assms(1,3,4), of L sent_at signing] assms(6)
    by (simp add: accept_init_def) (simp add: peer_message_new_def)
qed

text \<open>A loop hears a frame sent at a given time: it arrives fresh, before anything else decides the loop.\<close>

definition hears :: "(i64 \<times> bool \<times> net_event \<Rightarrow> 'r option) \<Rightarrow> bytes \<Rightarrow> i64 \<Rightarrow> (i64 \<times> bool \<times> net_event) list \<Rightarrow> bool" where
  "hears decides f sent_at es \<longleftrightarrow> (\<exists>pre t u addr post. es = pre @ (t, u, Recv f addr) # post
     \<and> (\<forall>e \<in> set pre. decides e = None) \<and> frame_is_fresh sent_at t)"

lemma hears_result:
  assumes "hears decides f sent_at es" and "\<And>t u addr. frame_is_fresh sent_at t \<Longrightarrow> decides (t, u, Recv f addr) = Some r"
  shows "snd (handshake_loop decides send es) = Some r"
  using assms unfolding hears_def shake.result_iff by blast

lemma agreed_key:
  assumes "hkdf_ok L" and "dh_ok L" and "length a = 32" and "length b = 32"
  obtains key where "length key = 32" and "derive_session_key L a (x25519_public L b) = Inr key"
    and "derive_session_key L b (x25519_public L a) = Inr key"
    and "length (x25519_public L a) = 32" and "length (x25519_public L b) = 32"
proof -
  obtain k where k: "hkdf_expand L (diffie_hellman L a (x25519_public L b)) (info ''session'') 32 = Some k" "length k = 32"
    using assms(1) by (rule hkdf_okE [where n = 32]) simp_all
  have "length (x25519_public L a) = 32" "length (x25519_public L b) = 32"
    using assms(2-4) unfolding dh_ok_def by blast+
  then show ?thesis
    using that [of k] k dh_comm [OF assms(2-4)] by (simp add: derive_session_key_def ok_or_def)
qed

abbreviation peer_of :: "'d crypto_lib \<Rightarrow> bytes \<Rightarrow> bytes \<Rightarrow> peer_public" where
  "peer_of L p signing \<equiv> \<lparr>pk_public = p, pk_verifying = ed_public L signing\<rparr>"

text \<open>
  An event that leaves the handshake over the relay waiting: a tick, a frame that does not decode, is not signed by the peer, is no
  longer fresh, or is no \<open>Init\<close>. The other events decide it: a fresh \<open>Init\<close> signed by the peer, the closed channel, the deadline.
\<close>

definition passes_by :: "'d crypto_lib \<Rightarrow> p2p_codec \<Rightarrow> peer_public \<Rightarrow> (i64 \<times> bool \<times> net_event) \<Rightarrow> bool" where
  "passes_by L C remote e =
     (case e of (now, up, ev) \<Rightarrow>
        (case ev of
           Tick \<Rightarrow> True
         | Recv b addr \<Rightarrow>
             (case pm_from_slice C b of
                None \<Rightarrow> True
              | Some pm \<Rightarrow> \<not> (verify L pm (pk_public remote) (pk_verifying remote) \<and> frame_is_fresh (pm_timestamp pm) now
                             \<and> (\<exists>x. pm_payload pm = Init x)))
         | RecvFailed \<Rightarrow> False
         | Deadline \<Rightarrow> False))"

definition hears_first ::
  "'d crypto_lib \<Rightarrow> p2p_codec \<Rightarrow> peer_public \<Rightarrow> bytes \<Rightarrow> i64 \<Rightarrow> (i64 \<times> bool \<times> net_event) list \<Rightarrow> bool" where
  "hears_first L C remote f sent_at es \<longleftrightarrow> (\<exists>pre t u addr post. es = pre @ (t, u, Recv f addr) # post
     \<and> (\<forall>e \<in> set pre. passes_by L C remote e) \<and> frame_is_fresh sent_at t)"

lemma passes_by_decides: "passes_by L C remote e \<Longrightarrow> relay_decides L C remote priv e = None"
  by (cases "(L, C, remote, priv, e)" rule: relay_decides.cases)
    (auto simp: passes_by_def accept_init_def split: option.splits p2p_message.splits)

lemma hears_first_hears: "hears_first L C remote f sent_at es \<Longrightarrow> hears (relay_decides L C remote priv) f sent_at es"
  unfolding hears_first_def hears_def using passes_by_decides by blast

lemma key_from_any:
  assumes "hkdf_ok L"
  obtains key where "length key = 32" and "derive_session_key L priv x = Inr key"
proof -
  obtain k where "hkdf_expand L (diffie_hellman L priv x) (info ''session'') 32 = Some k" "length k = 32"
    using assms by (rule hkdf_okE [where n = 32]) simp_all
  then show ?thesis using that by (simp add: derive_session_key_def ok_or_def)
qed

lemma relay_handshake_result:
  assumes "libs_ok L C" and "length p = 32" and "length x = 32" and "length k = 32" and "length me = 32" and "length (x25519_public L e) = 32"
    and "hears_first L C (peer_of L p k) (init_frame L C p x k sent) sent es"
  obtains key rest where "length key = 32" and "derive_session_key L e x = Inr key"
    and "relay_handshake L C me e (x25519_public L e) (peer_of L p k) sg t True es = (init_frame L C me (x25519_public L e) sg t # rest, Some (Inr key))"
proof -
  have ok: "hkdf_ok L" "ed_ok L" "frame_codec_ok C" using assms(1) by (simp_all add: libs_ok_def)
  obtain key where key: "length key = 32" "derive_session_key L e x = Inr key" using ok(1) by (rule key_from_any)
  have "snd (relay_handshake L C me e (x25519_public L e) (peer_of L p k) sg t True es) = Some (Inr key)"
    unfolding snd_relay_handshake using hears_first_hears [OF assms(7)]
    by (rule hears_result) (simp add: accept_init_frame [OF ok(3,2) assms(2,3,4)] key map_err_def)
  moreover have "\<exists>r. fst (relay_handshake L C me e (x25519_public L e) (peer_of L p k) sg t True es) = init_frame L C me (x25519_public L e) sg t # r"
    by (simp add: relay_handshake_def Let_def sends_init_frame(2) [OF ok(3) assms(5,6)] split: prod.split)
  ultimately show ?thesis using key that by (metis prod.collapse)
qed

text \<open>
  C11: The first \<open>Init\<close> decides the handshake over the relay. Before the deadline and on an open channel, each side waits past ticks and
  all frames that are not a fresh \<open>Init\<close> signed by its peer, and returns the 32-byte key made of its own ephemeral key and
  the first such \<open>Init\<close> it hears; it has sent its own before it waits. So when what each side hears first was sent by the
  other in this attempt, both return the same key. An \<open>Init\<close> of an earlier attempt that is still
  fresh and comes first is taken as well, and then nothing makes the keys agree.
\<close>

theorem relay_handshake_agree:
  assumes "libs_ok L C" and "dh_ok L"
    and "length pa = 32" and "length ka = 32" and "length ea = 32"
    and "length pb = 32" and "length kb = 32" and "length eb = 32"
    and "length xb = 32" and "hears_first L C (peer_of L pb kb) (init_frame L C pb xb kb sb) sb esa"
    and "length xa = 32" and "hears_first L C (peer_of L pa ka) (init_frame L C pa xa ka sa) sa esb"
  shows "\<exists>keya keyb resta restb. length keya = 32 \<and> length keyb = 32
    \<and> relay_handshake L C pa ea (x25519_public L ea) (peer_of L pb kb) ka ta True esa
        = (init_frame L C pa (x25519_public L ea) ka ta # resta, Some (Inr keya)) \<and> derive_session_key L ea xb = Inr keya
    \<and> relay_handshake L C pb eb (x25519_public L eb) (peer_of L pa ka) kb tb True esb
        = (init_frame L C pb (x25519_public L eb) kb tb # restb, Some (Inr keyb)) \<and> derive_session_key L eb xa = Inr keyb
    \<and> (xa = x25519_public L ea \<and> xb = x25519_public L eb \<longrightarrow> keya = keyb)"
proof -
  have ok: "hkdf_ok L" using assms(1) by (simp add: libs_ok_def)
  obtain key where agree: "derive_session_key L ea (x25519_public L eb) = Inr key" "derive_session_key L eb (x25519_public L ea) = Inr key"
    and l: "length (x25519_public L ea) = 32" "length (x25519_public L eb) = 32"
    using ok assms(2,5,8) by (rule agreed_key)
  obtain keya resta where a: "length keya = 32" "derive_session_key L ea xb = Inr keya"
    "relay_handshake L C pa ea (x25519_public L ea) (peer_of L pb kb) ka ta True esa = (init_frame L C pa (x25519_public L ea) ka ta # resta, Some (Inr keya))"
    by (rule relay_handshake_result [OF assms(1,6,9,7,3) l(1) assms(10)])
  obtain keyb restb where b: "length keyb = 32" "derive_session_key L eb xa = Inr keyb"
    "relay_handshake L C pb eb (x25519_public L eb) (peer_of L pa ka) kb tb True esb = (init_frame L C pb (x25519_public L eb) kb tb # restb, Some (Inr keyb))"
    by (rule relay_handshake_result [OF assms(1,3,11,4,6) l(2) assms(12)])
  have "xa = x25519_public L ea \<and> xb = x25519_public L eb \<longrightarrow> keya = keyb" using a(2) b(2) agree by auto
  with a b show ?thesis by blast
qed

text \<open>
  The same over a direct connection, for \<open>Init\<close> frames that fit the handshake's buffer of
  1024 bytes; socket errors on the way are ignored.
\<close>

theorem initial_handshake_agree:
  assumes "libs_ok L C" and "dh_ok L"
    and "length pa = 32" and "length ka = 32" and "length ea = 32"
    and "length pb = 32" and "length kb = 32" and "length eb = 32"
    and "length (init_frame L C pa (x25519_public L ea) ka sa) \<le> 1024"
    and "length (init_frame L C pb (x25519_public L eb) kb sb) \<le> 1024"
    and "hears (direct_decides L C (peer_of L pb kb) ea) (init_frame L C pb (x25519_public L eb) kb sb) sb esa"
    and "hears (direct_decides L C (peer_of L pa ka) eb) (init_frame L C pa (x25519_public L ea) ka sa) sa esb"
  shows "\<exists>key resta restb. length key = 32
    \<and> initial_handshake L C pa ea (x25519_public L ea) (peer_of L pb kb) ka ta True esa
        = (init_frame L C pa (x25519_public L ea) ka ta # resta, Some (Inr key))
    \<and> initial_handshake L C pb eb (x25519_public L eb) (peer_of L pa ka) kb tb True esb
        = (init_frame L C pb (x25519_public L eb) kb tb # restb, Some (Inr key))"
proof -
  have ok: "hkdf_ok L" "ed_ok L" "frame_codec_ok C" using assms(1) by (simp_all add: libs_ok_def)
  obtain key where key: "length key = 32" "derive_session_key L ea (x25519_public L eb) = Inr key"
    and key': "derive_session_key L eb (x25519_public L ea) = Inr key"
    and l: "length (x25519_public L ea) = 32" "length (x25519_public L eb) = 32"
    using ok(1) assms(2,5,8) by (rule agreed_key)
  have a: "snd (initial_handshake L C pa ea (x25519_public L ea) (peer_of L pb kb) ka ta True esa) = Some (Inr key)"
    unfolding snd_initial_handshake using assms(11)
    by (rule hears_result) (simp add: assms(10) accept_init_frame [OF ok(3,2) assms(6) l(2) assms(7)] key map_err_def)
  have b: "snd (initial_handshake L C pb eb (x25519_public L eb) (peer_of L pa ka) kb tb True esb) = Some (Inr key)"
    unfolding snd_initial_handshake using assms(12)
    by (rule hears_result) (simp add: assms(9) accept_init_frame [OF ok(3,2) assms(3) l(1) assms(4)] key' map_err_def)
  have "\<exists>r. fst (initial_handshake L C p e (x25519_public L e) rem k t True es) = init_frame L C p (x25519_public L e) k t # r"
    if "length p = 32" "length (x25519_public L e) = 32" for p e rem k t es
    by (simp add: initial_handshake_def Let_def sends_init_frame(1) [OF ok(3) that] split: prod.split)
  then show ?thesis using a b key(1) l assms(3,6) by (metis prod.collapse)
qed

text \<open>
  Neither handshake waits past its deadline; the direct one then reports \<open>Timeout\<close> unless some
  datagram among those it received was acceptable.
\<close>

theorem handshake_deadline:
  assumes "(t, u, Deadline) \<in> set es"
  shows "snd (initial_handshake L C me priv eph remote signing now up es) \<noteq> None
    \<and> snd (relay_handshake L C me priv eph remote signing now up es) \<noteq> None
    \<and> (snd (initial_handshake L C me priv eph remote signing now up es) = Some (Inl Timeout)
        \<or> (\<exists>t' u' b addr e. (t', u', Recv b addr) \<in> set es \<and> accept_init L C remote t' (take 1024 b) = Some e))"
proof -
  have d: "direct_decides L C remote priv (t, u, Deadline) \<noteq> None" "relay_decides L C remote priv (t, u, Deadline) \<noteq> None"
    by simp_all
  have n: "snd (initial_handshake L C me priv eph remote signing now up es) \<noteq> None"
    unfolding snd_initial_handshake by (rule shake.result_returns) (rule assms, rule d(1))
  then obtain r where r: "snd (initial_handshake L C me priv eph remote signing now up es) = Some r" by blast
  then obtain t' u' ev where ev: "(t', u', ev) \<in> set es" "direct_decides L C remote priv (t', u', ev) = Some r"
    unfolding snd_initial_handshake using shake.result_mem by (metis prod_cases3)
  have "r = Inl Timeout \<or> (\<exists>t' u' b addr e. (t', u', Recv b addr) \<in> set es \<and> accept_init L C remote t' (take 1024 b) = Some e)"
    using ev by (cases ev) auto
  moreover have "snd (relay_handshake L C me priv eph remote signing now up es) \<noteq> None"
    unfolding snd_relay_handshake by (rule shake.result_returns) (rule assms, rule d(2))
  ultimately show ?thesis using n r by blast
qed

theorem handshake_deadline_witness:
  "snd (initial_handshake demo_lib demo_codec (key_of 1) (key_of 3) (key_of 3) (peer_of demo_lib (key_of 2) (key_of 2)) (key_of 1) 0 True
     [(1, True, Tick), (2, True, Deadline)]) = Some (Inl Timeout)"
  using handshake_deadline [of 2 True "[(1, True, Tick), (2, True, Deadline)]" demo_lib demo_codec "key_of 1" "key_of 3" "key_of 3"
      "peer_of demo_lib (key_of 2) (key_of 2)" "key_of 1" 0 True]
  by auto

lemma demo_hears:
  "hears d (init_frame demo_lib demo_codec p e k 100) 100 [(130, True, Recv (init_frame demo_lib demo_codec p e k 100) [])]"
proof -
  have "frame_is_fresh 100 130" by (simp add: frame_is_fresh_diff)
  then show ?thesis unfolding hears_def by (metis append_Nil empty_iff list.set(1))
qed

lemma demo_x25519 [simp]: "x25519_public demo_lib k = k"
  by (simp add: demo_lib_def)

lemma demo_hears_first:
  "hears_first demo_lib demo_codec r (init_frame demo_lib demo_codec p e k 100) 100 [(110, True, Tick), (130, True, Recv (init_frame demo_lib demo_codec p e k 100) [])]"
proof -
  have "frame_is_fresh 100 130" by (simp add: frame_is_fresh_diff)
  moreover have "passes_by demo_lib demo_codec r (110, True, Tick)" by (simp add: passes_by_def)
  ultimately show ?thesis unfolding hears_first_def
    by (intro exI [of _ "[(110, True, Tick)]"] exI [of _ 130] exI [of _ True] exI [of _ "[]"]) simp
qed

theorem relay_handshake_agree_witness:
  "\<exists>key. snd (relay_handshake demo_lib demo_codec (key_of 1) (key_of 3) (key_of 3) (peer_of demo_lib (key_of 2) (key_of 2)) (key_of 1) 100 True
        [(110, True, Tick), (130, True, Recv (init_frame demo_lib demo_codec (key_of 2) (key_of 4) (key_of 2) 100) [])]) = Some (Inr key)
    \<and> snd (relay_handshake demo_lib demo_codec (key_of 2) (key_of 4) (key_of 4) (peer_of demo_lib (key_of 1) (key_of 1)) (key_of 2) 100 True
        [(110, True, Tick), (130, True, Recv (init_frame demo_lib demo_codec (key_of 1) (key_of 3) (key_of 1) 100) [])]) = Some (Inr key)"
  using relay_handshake_agree [where ta = 100 and tb = 100 and ea = "key_of 3" and eb = "key_of 4",
      OF demo_libs demo_dh length_key_of length_key_of length_key_of length_key_of length_key_of length_key_of
      length_key_of demo_hears_first [where p = "key_of 2" and e = "key_of 4" and k = "key_of 2"]
      length_key_of demo_hears_first [where p = "key_of 1" and e = "key_of 3" and k = "key_of 1"]]
  by auto

text \<open>
  A handshake in which one side first hears an \<open>Init\<close> of the peer's previous attempt, 30 seconds old: both sides
  return a key, and the keys differ.
\<close>

lemma earlier_init_splits_keys:
  "\<exists>keya keyb. snd (relay_handshake demo_lib demo_codec (key_of 1) (key_of 3) (key_of 3) (peer_of demo_lib (key_of 2) (key_of 2)) (key_of 1) 100 True
        [(110, True, Tick), (130, True, Recv (init_frame demo_lib demo_codec (key_of 2) (key_of 5) (key_of 2) 100) []),
         (131, True, Recv (init_frame demo_lib demo_codec (key_of 2) (key_of 4) (key_of 2) 131) [])]) = Some (Inr keya)
    \<and> snd (relay_handshake demo_lib demo_codec (key_of 2) (key_of 4) (key_of 4) (peer_of demo_lib (key_of 1) (key_of 1)) (key_of 2) 100 True
        [(110, True, Tick), (130, True, Recv (init_frame demo_lib demo_codec (key_of 1) (key_of 3) (key_of 1) 100) [])]) = Some (Inr keyb)
    \<and> keya \<noteq> keyb"
proof -
  have l: "length (x25519_public demo_lib (key_of n)) = 32" for n by simp
  have "hears_first demo_lib demo_codec (peer_of demo_lib (key_of 2) (key_of 2)) (init_frame demo_lib demo_codec (key_of 2) (key_of 5) (key_of 2) 100) 100
      ([(110, True, Tick), (130, True, Recv (init_frame demo_lib demo_codec (key_of 2) (key_of 5) (key_of 2) 100) [])] @ post)" for post
    using demo_hears_first unfolding hears_first_def by (metis append.assoc append_Cons)
  from relay_handshake_result [OF demo_libs length_key_of length_key_of length_key_of length_key_of [of 1] l [of 3] this]
  obtain keya resta where a: "derive_session_key demo_lib (key_of 3) (key_of 5) = Inr keya"
    "relay_handshake demo_lib demo_codec (key_of 1) (key_of 3) (key_of 3) (peer_of demo_lib (key_of 2) (key_of 2)) (key_of 1) 100 True
        [(110, True, Tick), (130, True, Recv (init_frame demo_lib demo_codec (key_of 2) (key_of 5) (key_of 2) 100) []),
         (131, True, Recv (init_frame demo_lib demo_codec (key_of 2) (key_of 4) (key_of 2) 131) [])] = (resta, Some (Inr keya))"
    by (metis append.simps demo_x25519)
  from relay_handshake_result [OF demo_libs length_key_of length_key_of length_key_of length_key_of [of 2] l [of 4]
      demo_hears_first [where p = "key_of 1" and e = "key_of 3" and k = "key_of 1"]]
  obtain keyb restb where b: "derive_session_key demo_lib (key_of 4) (key_of 3) = Inr keyb"
    "relay_handshake demo_lib demo_codec (key_of 2) (key_of 4) (key_of 4) (peer_of demo_lib (key_of 1) (key_of 1)) (key_of 2) 100 True
        [(110, True, Tick), (130, True, Recv (init_frame demo_lib demo_codec (key_of 1) (key_of 3) (key_of 1) 100) [])] = (restb, Some (Inr keyb))"
    by (metis demo_x25519)
  have "derive_session_key demo_lib (key_of 3) (key_of 5) \<noteq> derive_session_key demo_lib (key_of 4) (key_of 3)" by code_simp
  with a b show ?thesis by auto
qed

lemma demo_init_length: "length (init_frame demo_lib demo_codec (key_of p) (key_of e) (key_of k) t) \<le> 1024"
proof -
  have esc: "length (demo_esc b) = 2 * length b + 1" for b by (induction b) simp_all
  have sig: "length (ed_sign demo_lib (key_of k) m) = 64" for m by (simp add: demo_lib_def)
  show ?thesis
    by (simp add: init_frame_def frame_def demo_codec_def demo_pm_enc_def esc peer_message_new_def sign_challenge_def sig)
qed

theorem initial_handshake_agree_witness:
  "\<exists>key. length key = 32
    \<and> snd (initial_handshake demo_lib demo_codec (key_of 1) (key_of 3) (key_of 3) (peer_of demo_lib (key_of 2) (key_of 2)) (key_of 1) 100 True
        [(130, True, Recv (init_frame demo_lib demo_codec (key_of 2) (key_of 4) (key_of 2) 100) [])]) = Some (Inr key)
    \<and> snd (initial_handshake demo_lib demo_codec (key_of 2) (key_of 4) (key_of 4) (peer_of demo_lib (key_of 1) (key_of 1)) (key_of 2) 100 True
        [(130, True, Recv (init_frame demo_lib demo_codec (key_of 1) (key_of 3) (key_of 1) 100) [])]) = Some (Inr key)"
  using initial_handshake_agree [OF demo_libs demo_dh length_key_of length_key_of length_key_of length_key_of length_key_of length_key_of
      _ _ demo_hears [where p = "key_of 2" and e = "x25519_public demo_lib (key_of 4)" and k = "key_of 2"]
      demo_hears [where p = "key_of 1" and e = "x25519_public demo_lib (key_of 3)" and k = "key_of 1"], of 100 100]
  by (auto simp: demo_init_length)

theorem handshake_authentic_witness:
  "\<exists>key t u b b' addr pm e. (t, u, Recv b addr) \<in> set [(130, True, Recv (init_frame demo_lib demo_codec (key_of 2) (key_of 4) (key_of 2) 100) [])]
    \<and> (b' = b \<or> b' = take 1024 b) \<and> pm_from_slice demo_codec b' = Some pm \<and> verify demo_lib pm (key_of 2) (ed_public demo_lib (key_of 2))
    \<and> frame_is_fresh (pm_timestamp pm) t \<and> pm_payload pm = Init e \<and> derive_session_key demo_lib (key_of 3) e = Inr key"
proof -
  let ?es = "[(130, True, Recv (init_frame demo_lib demo_codec (key_of 2) (key_of 4) (key_of 2) 100) [])] :: (i64 \<times> bool \<times> net_event) list"
  obtain key where key: "derive_session_key demo_lib (key_of 3) (key_of 4) = Inr key"
    using agreed_key [OF demo_hkdf demo_dh, of "key_of 3" "key_of 4"] by auto
  have "snd (relay_handshake demo_lib demo_codec (key_of 1) (key_of 3) (key_of 3) (peer_of demo_lib (key_of 2) (key_of 2)) (key_of 1) 100 True ?es) = Some (Inr key)"
    unfolding snd_relay_handshake
    by (rule hears_result [OF demo_hears])
      (simp add: accept_init_frame [OF demo_frame_codec demo_ed] key map_err_def)
  then show ?thesis
    using handshake_authentic [of demo_lib demo_codec "key_of 1" "key_of 3" "key_of 3" "peer_of demo_lib (key_of 2) (key_of 2)" "key_of 1" 100 True ?es key]
    by simp blast
qed

end
