(* ===== verification/Server_Structs.thy ===== *)
theory Server_Structs
  imports P2P_Handshake
begin

text \<open>
  The messages between the client and the relay server, the events the connection reports to the
  client core, the errors and their texts, and the generators of outgoing messages
  (\<^verbatim>\<open>crates/serverclient/src/structs.rs\<close>, \<^verbatim>\<open>generators.rs\<close>). The MessagePack encoders with their
  error texts, and the debug rendering of errors, are the parameter \<open>server_lib\<close>.
  Constructors of server messages start with \<open>S\<close>, those of events with \<open>E\<close>.
\<close>

section \<open>Data\<close>

datatype client_errors =
  ConnectionFailed rstr | ConnectionClosed | ConnectionTimeout | WriteFailed rstr | ReadFailed rstr
| SerializationFailed rstr | DeserializationFailed rstr | InvalidMessageFormat
| AuthFailed rstr | AuthTimeout | UnexpectedHandshakeMessage
| InvalidSignature | InvalidTimestamp | ReplayDetected | UnknownPeer | InvalidPublicKey
| DecryptionFailed | EncryptionFailed | KeyDerivationFailed
| PeerLoadFailed rstr | PeerSaveFailed rstr | ChatStorageFailed rstr
| ChannelClosed | ServerError rstr

fun show_client_errors :: "client_errors \<Rightarrow> rstr" where
  "show_client_errors (ConnectionFailed s) = lit ''connection failed: '' @ s"
| "show_client_errors ConnectionClosed = lit ''connection closed''"
| "show_client_errors ConnectionTimeout = lit ''connection timeout''"
| "show_client_errors (WriteFailed s) = lit ''write failed: '' @ s"
| "show_client_errors (ReadFailed s) = lit ''read failed: '' @ s"
| "show_client_errors (SerializationFailed s) = lit ''serialization failed: '' @ s"
| "show_client_errors (DeserializationFailed s) = lit ''deserialization failed: '' @ s"
| "show_client_errors InvalidMessageFormat = lit ''invalid message format''"
| "show_client_errors (AuthFailed s) = lit ''auth failed: '' @ s"
| "show_client_errors AuthTimeout = lit ''auth timeout''"
| "show_client_errors UnexpectedHandshakeMessage = lit ''unexpected handshake message''"
| "show_client_errors InvalidSignature = lit ''invalid signature''"
| "show_client_errors InvalidTimestamp = lit ''invalid timestamp''"
| "show_client_errors ReplayDetected = lit ''replay attack detected''"
| "show_client_errors UnknownPeer = lit ''unknown peer''"
| "show_client_errors InvalidPublicKey = lit ''invalid public key''"
| "show_client_errors DecryptionFailed = lit ''decryption failed''"
| "show_client_errors EncryptionFailed = lit ''encryption failed''"
| "show_client_errors KeyDerivationFailed = lit ''key derivation failed''"
| "show_client_errors (PeerLoadFailed s) = lit ''peer load failed: '' @ s"
| "show_client_errors (PeerSaveFailed s) = lit ''peer save failed: '' @ s"
| "show_client_errors (ChatStorageFailed s) = lit ''chat storage failed: '' @ s"
| "show_client_errors ChannelClosed = lit ''internal channel closed''"
| "show_client_errors (ServerError s) = lit ''server reported error: '' @ s"

datatype client_message =
  Auth bytes bytes bytes
| Announce bytes rstr
| Unannounce bytes
| SendBlob bytes bytes
| Purge bytes
| AckBlob rstr
| LookupPeer bytes
| RequestHolePunch bytes
| RequestDenied bytes
| RequestAccepted bytes
| RelayData bytes bytes

datatype request_denied_reason = PeerDeclined | DeniedTimeout

datatype server_message =
  SAuthOk rstr
| SAuthFailed rstr
| SPendingBlob rstr bytes i64
| SPeerOnline bytes rstr
| SPeerOffline bytes
| SPunchHole bytes bytes rstr i64
| SError rstr
| SPendingBlobsEnd
| SRequestHolePunch bytes bytes
| SRequestDenied bytes bytes request_denied_reason
| SRelayData bytes bytes

record client_to_server =
  cts_payload :: client_message
  cts_timestamp :: i64

record server_to_client =
  stc_payload :: server_message
  stc_timestamp :: i64

datatype server_event =
  EAuthenticated rstr
| EPeerOnline bytes rstr
| EPeerOffline bytes
| EPunchHole bytes bytes rstr i64
| EHolePunchDenied bytes rstr
| EBlobStored bytes
| ERelayData bytes bytes
| EDisconnected

text \<open>Sender hash, time, ciphertext, signature; and sender hash, signature, time.\<close>

datatype blob_payload =
  OfflineMessage bytes i64 bytes bytes
| PurgeBlob bytes bytes i64

text \<open>\<^verbatim>\<open>ClientToServer::new\<close> and \<^verbatim>\<open>ServerToClient::new\<close>, at the time \<open>now\<close>.\<close>

definition client_to_server_new :: "i64 \<Rightarrow> client_message \<Rightarrow> i64 option \<Rightarrow> client_to_server" where
  "client_to_server_new now payload timestamp =
     \<lparr>cts_payload = payload, cts_timestamp = (case timestamp of None \<Rightarrow> now | Some t \<Rightarrow> t)\<rparr>"

definition server_to_client_new :: "i64 \<Rightarrow> server_message \<Rightarrow> server_to_client" where
  "server_to_client_new now payload = \<lparr>stc_payload = payload, stc_timestamp = now\<rparr>"

record server_lib =
  cts_to_vec :: "client_to_server \<Rightarrow> rstr + bytes"
  stc_from_slice :: "bytes \<Rightarrow> rstr + server_to_client"
  blob_to_vec :: "blob_payload \<Rightarrow> rstr + bytes"
  blob_from_slice :: "bytes \<Rightarrow> rstr + blob_payload"
  debug_crypto :: "crypto_errors \<Rightarrow> rstr"

text \<open>
  MessagePack on blobs: a payload with a 32-byte hash serialises and deserialises to itself.
\<close>

definition blob_hash :: "blob_payload \<Rightarrow> bytes" where
  "blob_hash p = (case p of OfflineMessage h _ _ _ \<Rightarrow> h | PurgeBlob h _ _ \<Rightarrow> h)"

definition blob_codec_ok :: "server_lib \<Rightarrow> bool" where
  "blob_codec_ok V \<longleftrightarrow> (\<forall>p. length (blob_hash p) = 32 \<longrightarrow>
     (\<exists>b. blob_to_vec V p = Inr b \<and> blob_from_slice V b = Inr p))"

section \<open>Generators\<close>

definition generate_authenticate_message ::
  "'d crypto_lib \<Rightarrow> bytes \<Rightarrow> bytes \<Rightarrow> bytes \<Rightarrow> i64 \<Rightarrow> crypto_errors + client_to_server" where
  "generate_authenticate_message L public verif signing timestamp =
     (let data = sign_challenge L signing (public @ verif @ to_le_bytes timestamp) in
      Inr (client_to_server_new timestamp (Auth public verif data) (Some timestamp)))"

definition generate_announce_message ::
  "'d crypto_lib \<Rightarrow> bytes \<Rightarrow> bytes \<Rightarrow> i64 \<Rightarrow> rstr \<Rightarrow> crypto_errors + client_message" where
  "generate_announce_message L privkey peer_pub timestamp ip_port =
     and_then (presence_token L privkey peer_pub timestamp) (\<lambda>token. Inr (Announce token ip_port))"

definition generate_unannounce_message ::
  "'d crypto_lib \<Rightarrow> bytes \<Rightarrow> bytes \<Rightarrow> i64 \<Rightarrow> crypto_errors + client_message" where
  "generate_unannounce_message L privkey peer_pub timestamp =
     and_then (presence_token L privkey peer_pub timestamp) (\<lambda>token. Inr (Unannounce token))"

definition generate_peer_hash :: "'d crypto_lib \<Rightarrow> peer_public \<Rightarrow> bytes" where
  "generate_peer_hash L peer = identity_hash L (pk_public peer) (pk_verifying peer)"

text \<open>\<open>eph\<close> and \<open>nonce\<close> are the random bytes \<^verbatim>\<open>encrypt_blob\<close> draws.\<close>

definition generate_blob ::
  "'d crypto_lib \<Rightarrow> peer_public \<Rightarrow> bytes \<Rightarrow> bytes \<Rightarrow> bytes \<Rightarrow> crypto_errors + client_message" where
  "generate_blob L recipient message eph nonce =
     and_then (encrypt_blob L (pk_public recipient) message eph nonce)
       (\<lambda>blob. Inr (SendBlob (generate_peer_hash L recipient) blob))"

definition generate_purge_message ::
  "'d crypto_lib \<Rightarrow> server_lib \<Rightarrow> i64 \<Rightarrow> i64 \<Rightarrow> peer_public \<Rightarrow> bytes \<Rightarrow> bytes \<Rightarrow> bytes \<Rightarrow> bytes
   \<Rightarrow> client_errors + client_to_server" where
  "generate_purge_message L V timestamp now recipient my_pub sign eph nonce =
     (let signed = sign_challenge L sign (info ''purge'' @ to_le_bytes timestamp);
          purge_payload = PurgeBlob (identity_hash L my_pub (ed_public L sign)) signed timestamp in
      and_then (map_err SerializationFailed (blob_to_vec V purge_payload)) (\<lambda>payload_bytes.
      and_then (map_err (\<lambda>_. KeyDerivationFailed) (generate_blob L recipient payload_bytes eph nonce)) (\<lambda>msg.
      Inr (client_to_server_new now msg None))))"

definition generate_offline_message ::
  "'d crypto_lib \<Rightarrow> server_lib \<Rightarrow> i64 \<Rightarrow> i64 \<Rightarrow> peer_public \<Rightarrow> bytes \<Rightarrow> bytes \<Rightarrow> rstr \<Rightarrow> bytes \<Rightarrow> bytes \<Rightarrow> bytes \<Rightarrow> bytes
   \<Rightarrow> client_errors + client_to_server" where
  "generate_offline_message L V timestamp now recipient my_pub my_priv text signing msg_nonce eph nonce =
     and_then (map_err (\<lambda>_. KeyDerivationFailed) (load_storage_key L (pk_public recipient) my_priv)) (\<lambda>storage_key.
     let stored_msg = from_parts text You timestamp in
     and_then (map_err (\<lambda>_. EncryptionFailed) (encrypt_message_stored L stored_msg storage_key msg_nonce)) (\<lambda>cipher.
     let signed = sign_challenge L signing (info ''offline'' @ cipher @ to_le_bytes timestamp);
         offline_payload = OfflineMessage (identity_hash L my_pub (ed_public L signing)) timestamp cipher signed in
     and_then (map_err SerializationFailed (blob_to_vec V offline_payload)) (\<lambda>payload_bytes.
     and_then (map_err (\<lambda>_. KeyDerivationFailed) (generate_blob L recipient payload_bytes eph nonce)) (\<lambda>msg.
     Inr (client_to_server_new now msg None)))))"

definition generate_lookup_message :: "'d crypto_lib \<Rightarrow> i64 \<Rightarrow> peer_public \<Rightarrow> client_to_server" where
  "generate_lookup_message L now peer = client_to_server_new now (LookupPeer (generate_peer_hash L peer)) None"

definition generate_peer_lookup :: "'d crypto_lib \<Rightarrow> peer_public \<Rightarrow> client_message" where
  "generate_peer_lookup L peer = LookupPeer (generate_peer_hash L peer)"

definition generate_ack_blob :: "rstr \<Rightarrow> client_message" where
  "generate_ack_blob blob_id = AckBlob blob_id"

definition generate_p2p_request :: "'d crypto_lib \<Rightarrow> i64 \<Rightarrow> bytes \<Rightarrow> bytes \<Rightarrow> client_errors + client_message" where
  "generate_p2p_request L now peer_pub privkey =
     and_then (map_err (\<lambda>_. EncryptionFailed) (presence_token L privkey peer_pub now))
       (\<lambda>token. Inr (RequestHolePunch token))"

section \<open>Properties of the generated messages\<close>

text \<open>
  What one client announces, the other can find: at the same time the presence token in \<open>a\<close>'s
  announcement to \<open>b\<close>, in \<open>a\<close>'s withdrawal and in \<open>b\<close>'s request for a hole punch are the same.
\<close>

theorem announce_matches_request:
  assumes "hkdf_ok L" and "dh_ok L" and "length a = 32" and "length b = 32"
  shows "\<exists>token. generate_announce_message L a (x25519_public L b) t addr = Inr (Announce token addr)
    \<and> generate_unannounce_message L a (x25519_public L b) t = Inr (Unannounce token)
    \<and> generate_p2p_request L t (x25519_public L a) b = Inr (RequestHolePunch token)"
proof -
  obtain k where "hkdf_expand L (diffie_hellman L a (x25519_public L b)) (info ''presence'') 32 = Some k"
    using assms(1) by (rule hkdf_okE [where n = 32]) simp_all
  then show ?thesis
    using dh_comm [OF assms(2-4)]
    by (simp add: generate_announce_message_def generate_unannounce_message_def generate_p2p_request_def presence_token_def)
qed

theorem announce_matches_request_witness:
  "\<exists>token. generate_announce_message demo_lib (key_of 1) (key_of 2) 100 (lit ''h:1'') = Inr (Announce token (lit ''h:1''))
    \<and> generate_p2p_request demo_lib 100 (key_of 1) (key_of 2) = Inr (RequestHolePunch token)"
  using announce_matches_request [OF demo_hkdf demo_dh, of "key_of 1" "key_of 2" 100 "lit ''h:1''"] by auto

text \<open>
  The authentication message proves possession of the signing key: its signature verifies
  under the verifying key it carries, over both public keys and the time it is stamped with.
\<close>

lemma authenticate_verifies:
  assumes "ed_ok L" and "length signing = 32"
  shows "\<exists>sig. generate_authenticate_message L public (ed_public L signing) signing timestamp
      = Inr \<lparr>cts_payload = Auth public (ed_public L signing) sig, cts_timestamp = timestamp\<rparr>
    \<and> length sig = 64
    \<and> verify_challenge L (ed_public L signing) (public @ ed_public L signing @ to_le_bytes timestamp) sig = Inr ()"
  using ed_okD [OF assms]
  by (simp add: generate_authenticate_message_def client_to_server_new_def sign_challenge_def verify_challenge_def Let_def)

end
