(* ===== verification/Server_Presence.thy ===== *)
theory Server_Presence
  imports Server_Structs
begin

text \<open>
  The process-wide state of the server connection (\<^verbatim>\<open>crates/serverclient/src/lib.rs\<close>): the
  peers known to be online and our own announced address, both behind locks, next to the disk and
  the events sent to the client core. \<open>expiring_map\<close> is the interface of the online list: entries
  are touched, dropped and expire; the list refines a map from identity hashes to addresses.
\<close>

section \<open>State\<close>

record online_peer =
  op_keys :: peer_public
  op_address :: rstr
  op_last_seen :: i64

text \<open>\<open>PEERS\<close> and \<open>MY_ADDRESS\<close> with their lock poisoning, the disk, and the events sent.\<close>

record 'd net =
  net_disk :: "'d disk"
  net_peers :: "online_peer list"
  net_peers_poisoned :: bool
  net_address :: "rstr option"
  net_address_poisoned :: bool
  net_events :: "server_event list"

definition ONLINE_TTL_SECS :: int where
  "ONLINE_TTL_SECS = 35"

definition poison_text :: rstr where
  "poison_text = lit ''lock poisoned: poisoned lock: another task failed inside''"

definition on_disk :: "('d disk, 'e, 'a) op \<Rightarrow> ('d net, 'e, 'a) op" where
  "on_disk m s = (case m (net_disk s) of (r, d) \<Rightarrow> (r, s\<lparr>net_disk := d\<rparr>))"

definition send_event :: "server_event \<Rightarrow> ('d net, 'e, unit) op" where
  "send_event e s = (Inr (), s\<lparr>net_events := net_events s @ [e]\<rparr>)"

definition online :: "i64 \<Rightarrow> online_peer \<Rightarrow> bool" where
  "online now p \<longleftrightarrow> sint (now - op_last_seen p) \<le> ONLINE_TTL_SECS"

definition load_online_peers :: "i64 \<Rightarrow> ('d net, client_errors, online_peer list) op" where
  "load_online_peers now s =
     (if net_peers_poisoned s then (Inl (PeerLoadFailed poison_text), s)
      else
        (let ps = filter (online now) (net_peers s) in (Inr ps, s\<lparr>net_peers := ps\<rparr>)))"

text \<open>\<^verbatim>\<open>iter_mut().find(..)\<close> and the assignment through it: the first entry with the hash.\<close>

fun touch_first :: "(online_peer \<Rightarrow> bool) \<Rightarrow> rstr \<Rightarrow> i64 \<Rightarrow> online_peer list \<Rightarrow> online_peer list option" where
  "touch_first P addr now [] = None"
| "touch_first P addr now (p # ps) =
     (if P p then Some (p\<lparr>op_address := addr, op_last_seen := now\<rparr> # ps)
      else map_option (\<lambda>qs. p # qs) (touch_first P addr now ps))"

definition append_online_peer :: "'d crypto_lib \<Rightarrow> i64 \<Rightarrow> bytes \<Rightarrow> rstr \<Rightarrow> ('d net, client_errors, unit) op" where
  "append_online_peer L now h ip_port =
     op_bind (op_map_err (\<lambda>_. UnknownPeer) (on_disk (load_peer_data L h))) (\<lambda>peer_data s.
       if net_peers_poisoned s then (Inl (PeerSaveFailed poison_text), s)
       else
         (case touch_first (\<lambda>p. generate_peer_hash L (op_keys p) = h) ip_port now (net_peers s) of
            Some ps \<Rightarrow> (Inr (), s\<lparr>net_peers := ps\<rparr>)
          | None \<Rightarrow> (Inr (), s\<lparr>net_peers := net_peers s @
              [\<lparr>op_keys = peer_data, op_address = ip_port, op_last_seen = now\<rparr>]\<rparr>)))"

definition remove_online_peer :: "'d crypto_lib \<Rightarrow> bytes \<Rightarrow> ('d net, client_errors, unit) op" where
  "remove_online_peer L h s =
     (if net_peers_poisoned s then (Inl (PeerSaveFailed poison_text), s)
      else (Inr (), s\<lparr>net_peers := filter (\<lambda>p. generate_peer_hash L (op_keys p) \<noteq> h) (net_peers s)\<rparr>))"

definition get_or_set_my_address :: "rstr option \<Rightarrow> 'd net \<Rightarrow> rstr option \<times> 'd net" where
  "get_or_set_my_address new_address s =
     (if net_address_poisoned s then (None, s)
      else case new_address of
             Some addr \<Rightarrow> (Some addr, s\<lparr>net_address := Some addr\<rparr>)
           | None \<Rightarrow> (net_address s, s))"

section \<open>The interface of the online list\<close>

datatype ('k, 'v, 't) cache_op = Touch 'k 'v 't | Drop 'k | Expire 't

text \<open>The map a history of touches, drops and expiries denotes; only known keys are entered.\<close>

fun cache_map :: "('t \<Rightarrow> 't \<Rightarrow> bool) \<Rightarrow> ('k \<Rightarrow> bool) \<Rightarrow> ('k, 'v, 't) cache_op \<Rightarrow> ('k \<rightharpoonup> 'v \<times> 't) \<Rightarrow> ('k \<rightharpoonup> 'v \<times> 't)" where
  "cache_map alive known (Touch k v t) m = (if known k then m(k \<mapsto> (v, t)) else m)"
| "cache_map alive known (Drop k) m = m(k := None)"
| "cache_map alive known (Expire t) m =
     (\<lambda>k. case m k of None \<Rightarrow> None | Some (v, t') \<Rightarrow> if alive t t' then Some (v, t') else None)"

locale expiring_map =
  fixes inv :: "'s \<Rightarrow> bool"
    and known :: "'s \<Rightarrow> 'k \<Rightarrow> bool"
    and find :: "'s \<Rightarrow> 'k \<Rightarrow> ('v \<times> 't) option"
    and exec :: "('k, 'v, 't) cache_op \<Rightarrow> 's \<Rightarrow> 's"
    and alive :: "'t \<Rightarrow> 't \<Rightarrow> bool"
  assumes find_touch: "inv s \<Longrightarrow> known s k \<Longrightarrow> find (exec (Touch k v t) s) = (find s)(k \<mapsto> (v, t))"
    and touch_unknown: "inv s \<Longrightarrow> \<not> known s k \<Longrightarrow> exec (Touch k v t) s = s"
    and find_drop: "inv s \<Longrightarrow> find (exec (Drop k) s) = (find s)(k := None)"
    and find_expire: "inv s \<Longrightarrow> find (exec (Expire t) s) = (\<lambda>k. case find s k of
        None \<Rightarrow> None | Some (v, t') \<Rightarrow> if alive t t' then Some (v, t') else None)"
    and inv_exec: "inv s \<Longrightarrow> inv (exec x s)"
    and known_exec: "inv s \<Longrightarrow> known (exec x s) = known s"
begin

lemma exec_refines: "inv s \<Longrightarrow> find (exec x s) = cache_map alive (known s) x (find s)"
  by (cases x) (simp_all add: find_touch touch_unknown find_drop find_expire)

lemma history_refines:
  assumes "inv s"
  shows "inv (fold exec xs s) \<and> find (fold exec xs s) = fold (cache_map alive (known s)) xs (find s)"
  using assms
proof (induction xs arbitrary: s)
  case (Cons x xs)
  from Cons.IH [OF inv_exec [OF Cons.prems], of x] show ?case
    by (simp add: known_exec exec_refines Cons.prems)
qed simp

end

section \<open>The list implements it\<close>

text \<open>The library, whose hash function names the entries, and the state.\<close>

type_synonym 'd presence = "'d crypto_lib \<times> 'd net"

definition entry_hash :: "'d presence \<Rightarrow> online_peer \<Rightarrow> bytes" where
  "entry_hash s p = generate_peer_hash (fst s) (op_keys p)"

text \<open>
  No lock is poisoned, no two entries have the same hash, and what the contact book returns for
  a hash has that hash.
\<close>

definition presence_inv :: "'d presence \<Rightarrow> bool" where
  "presence_inv s \<longleftrightarrow> \<not> net_peers_poisoned (snd s)
     \<and> distinct (map (entry_hash s) (net_peers (snd s)))
     \<and> (\<forall>h p. fst (load_peer_data (fst s) h (net_disk (snd s))) = Inr p \<longrightarrow> generate_peer_hash (fst s) p = h)"

definition presence_known :: "'d presence \<Rightarrow> bytes \<Rightarrow> bool" where
  "presence_known s h \<longleftrightarrow> is_ok (fst (load_peer_data (fst s) h (net_disk (snd s))))"

definition presence_find :: "'d presence \<Rightarrow> bytes \<Rightarrow> (rstr \<times> i64) option" where
  "presence_find s = map_of (map (\<lambda>p. (entry_hash s p, (op_address p, op_last_seen p))) (net_peers (snd s)))"

fun presence_exec :: "(bytes, rstr, i64) cache_op \<Rightarrow> 'd presence \<Rightarrow> 'd presence" where
  "presence_exec (Touch h ip_port now) s = (fst s, snd (append_online_peer (fst s) now h ip_port (snd s)))"
| "presence_exec (Drop h) s = (fst s, snd (remove_online_peer (fst s) h (snd s)))"
| "presence_exec (Expire now) s = (fst s, snd (load_online_peers now (snd s)))"

definition presence_alive :: "i64 \<Rightarrow> i64 \<Rightarrow> bool" where
  "presence_alive now seen \<longleftrightarrow> sint (now - seen) \<le> ONLINE_TTL_SECS"

lemma on_disk_pure:
  assumes "snd (m (net_disk s)) = net_disk s"
  shows "on_disk m s = (fst (m (net_disk s)), s)"
proof -
  have "s\<lparr>net_disk := net_disk s\<rparr> = s" by (cases s) simp
  then show ?thesis using assms by (cases "m (net_disk s)") (simp add: on_disk_def)
qed

lemma append_online_peer_eq:
  "append_online_peer L now h ip_port s =
     (case fst (load_peer_data L h (net_disk s)) of
        Inl _ \<Rightarrow> (Inl UnknownPeer, s)
      | Inr peer_data \<Rightarrow>
          if net_peers_poisoned s then (Inl (PeerSaveFailed poison_text), s)
          else (Inr (), s\<lparr>net_peers :=
            (case touch_first (\<lambda>p. generate_peer_hash L (op_keys p) = h) ip_port now (net_peers s) of
               Some ps \<Rightarrow> ps
             | None \<Rightarrow> net_peers s @ [\<lparr>op_keys = peer_data, op_address = ip_port, op_last_seen = now\<rparr>])\<rparr>))"
  by (simp add: append_online_peer_def op_bind_def op_map_err_def on_disk_pure
      split: sum.split option.split)

lemma touch_first_None: "touch_first P addr now ps = None \<longleftrightarrow> (\<forall>p \<in> set ps. \<not> P p)"
  by (induction ps) auto

lemma touch_first_hash:
  assumes "touch_first P addr now ps = Some qs" and "\<And>p a t. f (p\<lparr>op_address := a, op_last_seen := t\<rparr>) = f p"
  shows "map f qs = map f ps"
  using assms(1) by (induction ps arbitrary: qs) (auto split: if_splits simp: assms(2))

lemma touch_first_map:
  assumes "touch_first (\<lambda>p. f (op_keys p) = h) addr now ps = Some qs"
  shows "map_of (map (\<lambda>p. (f (op_keys p), (op_address p, op_last_seen p))) qs)
    = (map_of (map (\<lambda>p. (f (op_keys p), (op_address p, op_last_seen p))) ps))(h \<mapsto> (addr, now))"
  using assms by (induction ps arbitrary: qs) (auto split: if_splits)

lemma map_of_snoc: "k \<notin> fst ` set xs \<Longrightarrow> map_of (xs @ [(k, v)]) = (map_of xs)(k \<mapsto> v)"
  by (induction xs) (auto simp: fun_upd_twist)

lemma map_of_filter_value:
  assumes "distinct (map fst xs)"
  shows "map_of (filter (\<lambda>x. P (snd x)) xs) = (\<lambda>k. case map_of xs k of None \<Rightarrow> None | Some v \<Rightarrow> if P v then Some v else None)"
  using assms
proof (induction xs)
  case (Cons x xs)
  then have "map_of xs (fst x) = None" by (simp add: map_of_eq_None_iff)
  then show ?case using Cons by (auto simp: fun_eq_iff)
qed simp

lemma presence_expire:
  assumes "presence_inv s"
  shows "presence_find (presence_exec (Expire t) s) = (\<lambda>k. case presence_find s k of
    None \<Rightarrow> None | Some (v, t') \<Rightarrow> if presence_alive t t' then Some (v, t') else None)"
proof -
  let ?xs = "map (\<lambda>p. (entry_hash s p, (op_address p, op_last_seen p))) (net_peers (snd s))"
  have d: "distinct (map fst ?xs)" using assms by (simp add: presence_inv_def comp_def)
  have "map (\<lambda>p. (entry_hash s p, (op_address p, op_last_seen p))) (filter (online t) (net_peers (snd s)))
      = filter (\<lambda>x. presence_alive t (snd (snd x))) ?xs"
    by (simp add: filter_map comp_def online_def [abs_def] presence_alive_def)
  moreover have "net_peers (snd (presence_exec (Expire t) s)) = filter (online t) (net_peers (snd s))"
    "entry_hash (presence_exec (Expire t) s) = entry_hash s"
    using assms by (simp_all add: presence_inv_def load_online_peers_def Let_def entry_hash_def fun_eq_iff)
  ultimately have "presence_find (presence_exec (Expire t) s) = map_of (filter (\<lambda>x. presence_alive t (snd (snd x))) ?xs)"
    by (simp add: presence_find_def)
  also have "\<dots> = (\<lambda>k. case map_of ?xs k of None \<Rightarrow> None | Some v \<Rightarrow> if presence_alive t (snd v) then Some v else None)"
    using map_of_filter_value [OF d, of "\<lambda>v. presence_alive t (snd v)"] by simp
  also have "\<dots> = (\<lambda>k. case presence_find s k of
      None \<Rightarrow> None | Some (v, t') \<Rightarrow> if presence_alive t t' then Some (v, t') else None)"
    by (auto simp: presence_find_def fun_eq_iff split: option.split)
  finally show ?thesis .
qed

lemma presence_touch:
  assumes "presence_inv s" and "presence_known s h"
  obtains peer where "generate_peer_hash (fst s) peer = h" and "fst (load_peer_data (fst s) h (net_disk (snd s))) = Inr peer"
    and "presence_exec (Touch h a t) s = (fst s, (snd s)\<lparr>net_peers :=
      (case touch_first (\<lambda>p. generate_peer_hash (fst s) (op_keys p) = h) a t (net_peers (snd s)) of
         Some ps \<Rightarrow> ps | None \<Rightarrow> net_peers (snd s) @ [\<lparr>op_keys = peer, op_address = a, op_last_seen = t\<rparr>])\<rparr>)"
proof -
  obtain peer where peer: "fst (load_peer_data (fst s) h (net_disk (snd s))) = Inr peer"
    using assms(2) by (auto simp: presence_known_def is_ok_def split: sum.splits)
  then show ?thesis
    using that [of peer] assms(1) by (simp add: presence_inv_def append_online_peer_eq)
qed

lemma presence_find_touch:
  assumes "presence_inv s" and "presence_known s h"
  shows "presence_find (presence_exec (Touch h a t) s) = (presence_find s)(h \<mapsto> (a, t))"
  using assms
proof (rule presence_touch)
  fix peer
  assume h: "generate_peer_hash (fst s) peer = h"
    and e: "presence_exec (Touch h a t) s = (fst s, (snd s)\<lparr>net_peers :=
      (case touch_first (\<lambda>p. generate_peer_hash (fst s) (op_keys p) = h) a t (net_peers (snd s)) of
         Some ps \<Rightarrow> ps | None \<Rightarrow> net_peers (snd s) @ [\<lparr>op_keys = peer, op_address = a, op_last_seen = t\<rparr>])\<rparr>)"
  show ?thesis
  proof (cases "touch_first (\<lambda>p. generate_peer_hash (fst s) (op_keys p) = h) a t (net_peers (snd s))")
    case None
    then have "h \<notin> fst ` set (map (\<lambda>p. (entry_hash s p, (op_address p, op_last_seen p))) (net_peers (snd s)))"
      by (auto simp: touch_first_None entry_hash_def)
    from map_of_snoc [OF this, of "(a, t)"] show ?thesis
      using e h None by (simp add: presence_find_def entry_hash_def)
  next
    case (Some qs)
    then show ?thesis using e touch_first_map [OF Some] by (simp add: presence_find_def entry_hash_def)
  qed
qed

lemma presence_inv_touch:
  assumes "presence_inv s"
  shows "presence_inv (presence_exec (Touch h a t) s)"
proof (cases "presence_known s h")
  case True
  with assms show ?thesis
  proof (rule presence_touch)
    fix peer
    assume p: "generate_peer_hash (fst s) peer = h"
      and e: "presence_exec (Touch h a t) s = (fst s, (snd s)\<lparr>net_peers :=
      (case touch_first (\<lambda>p. generate_peer_hash (fst s) (op_keys p) = h) a t (net_peers (snd s)) of
         Some ps \<Rightarrow> ps | None \<Rightarrow> net_peers (snd s) @ [\<lparr>op_keys = peer, op_address = a, op_last_seen = t\<rparr>])\<rparr>)"
    show ?thesis
    proof (cases "touch_first (\<lambda>p. generate_peer_hash (fst s) (op_keys p) = h) a t (net_peers (snd s))")
      case None
      have "presence_exec (Touch h a t) s = (fst s, (snd s)\<lparr>net_peers := net_peers (snd s) @ [\<lparr>op_keys = peer, op_address = a, op_last_seen = t\<rparr>]\<rparr>)"
        using e None by simp
      then show ?thesis
        using assms None p by (auto simp: presence_inv_def touch_first_None entry_hash_def [abs_def] simp del: presence_exec.simps)
    next
      case (Some qs)
      have "map (\<lambda>p. generate_peer_hash (fst s) (op_keys p)) qs = map (\<lambda>p. generate_peer_hash (fst s) (op_keys p)) (net_peers (snd s))"
        by (rule touch_first_hash [OF Some]) simp
      then show ?thesis using assms e Some by (simp add: presence_inv_def entry_hash_def [abs_def])
    qed
  qed
next
  case False
  then show ?thesis
    using assms by (simp add: presence_inv_def presence_known_def is_ok_def append_online_peer_eq entry_hash_def split: sum.splits)
qed

lemma presence_exec_frame:
  "presence_known (presence_exec x s) = presence_known s"
proof (cases x)
  case (Touch h a t)
  then show ?thesis by (auto simp: fun_eq_iff presence_known_def append_online_peer_eq split: sum.split)
qed (auto simp: fun_eq_iff presence_known_def remove_online_peer_def load_online_peers_def Let_def)

interpretation online_list: expiring_map presence_inv presence_known presence_find presence_exec presence_alive
proof
  fix s :: "'d presence" and k v t
  assume inv: "presence_inv s"
  show "presence_find (presence_exec (Touch k v t) s) = (presence_find s)(k \<mapsto> (v, t))" if "presence_known s k"
    using inv that by (rule presence_find_touch)
  show "presence_exec (Touch k v t) s = s" if "\<not> presence_known s k"
    using that by (auto simp: presence_known_def append_online_peer_eq is_ok_def split: sum.splits)
  let ?f = "\<lambda>p. (generate_peer_hash (fst s) (op_keys p), op_address p, op_last_seen p)"
  have "map_of (map ?f (filter (\<lambda>p. generate_peer_hash (fst s) (op_keys p) \<noteq> k) ps)) = (map_of (map ?f ps))(k := None)" for ps
    by (induction ps) auto
  then show "presence_find (presence_exec (Drop k) s) = (presence_find s)(k := None)"
    using inv by (simp add: presence_find_def remove_online_peer_def presence_inv_def entry_hash_def)
  show "presence_find (presence_exec (Expire t) s) = (\<lambda>k. case presence_find s k of
      None \<Rightarrow> None | Some (v, t') \<Rightarrow> if presence_alive t t' then Some (v, t') else None)"
    using inv by (rule presence_expire)
next
  fix s :: "'d presence" and x
  assume inv: "presence_inv s"
  show "presence_inv (presence_exec x s)"
  proof (cases x)
    case (Touch h a t)
    then show ?thesis using presence_inv_touch [OF inv] by simp
  qed (use inv in \<open>auto simp: presence_inv_def remove_online_peer_def load_online_peers_def Let_def entry_hash_def [abs_def]
      distinct_map_filter\<close>)
  show "presence_known (presence_exec x s) = presence_known s" by (rule presence_exec_frame)
qed

section \<open>Properties\<close>

text \<open>
  C17: Any history of \<^verbatim>\<open>PeerOnline\<close> and \<^verbatim>\<open>PeerOffline\<close> messages and queries leaves the online list in the
  state of a map from identity hashes to the latest address and time: an announcement of a
  contact replaces its entry, one of a stranger changes nothing, an offline message removes it,
  a query drops what was last seen more than 35 seconds ago. No hash is ever listed twice.
\<close>

theorem online_list_refines_map:
  assumes "presence_inv s"
  shows "presence_inv (fold presence_exec xs s)
    \<and> presence_find (fold presence_exec xs s) = fold (cache_map presence_alive (presence_known s)) xs (presence_find s)"
  using assms by (rule online_list.history_refines)

definition demo_net :: "demo_db net" where
  "demo_net = \<lparr>net_disk = demo_disk [(peer_path demo_lib (key_of 1), DirNode),
       (peer_pub_path demo_lib (key_of 1), FileNode (key_of 1 @ key_of 2))],
     net_peers = [], net_peers_poisoned = False, net_address = None, net_address_poisoned = False, net_events = []\<rparr>"

lemma demo_net_contact:
  "fst (load_peer_data demo_lib h (net_disk demo_net)) =
     (if h = key_of 1 then Inr \<lparr>pk_public = key_of 1, pk_verifying = key_of 2\<rparr> else Inl (NotFound (hex_encode demo_lib h)))"
proof (cases "h = key_of 1")
  case True
  have "fst (load_peer_data demo_lib (key_of 1) (net_disk demo_net)) = Inr \<lparr>pk_public = key_of 1, pk_verifying = key_of 2\<rparr>"
    by code_simp
  with True show ?thesis by simp
next
  case False
  have "peer_path demo_lib h \<noteq> peer_pub_path demo_lib (key_of 1)" "peer_path demo_lib h \<noteq> peer_path demo_lib (key_of 1)"
    using False demo_hex_ok by (simp_all add: peer_path_eq)
  then have "\<not> is_dir (net_disk demo_net) (peer_path demo_lib h)"
    by (simp add: is_dir_def node_at_def demo_net_def demo_disk_def)
  then show ?thesis using False by (simp add: load_peer_data_def)
qed

lemma demo_net_inv: "presence_inv (demo_lib, demo_net)"
proof -
  have "identity_hash demo_lib (key_of 1) (key_of 2) = key_of 1" by code_simp
  then show ?thesis
    by (simp add: presence_inv_def demo_net_contact generate_peer_hash_def) (simp add: demo_net_def)
qed

theorem online_list_refines_map_witness:
  "presence_find (fold presence_exec [Touch (key_of 1) (lit ''a:1'') 100, Touch (key_of 3) (lit ''b:1'') 100,
       Touch (key_of 1) (lit ''a:2'') 110, Expire 140] (demo_lib, demo_net)) (key_of 1) = Some (lit ''a:2'', 110)"
proof -
  have k: "presence_known (demo_lib, demo_net) = (\<lambda>h. h = key_of 1)"
    by (simp add: presence_known_def fun_eq_iff demo_net_contact)
  have "presence_alive 140 110" by (simp add: presence_alive_def ONLINE_TTL_SECS_def)
  moreover have "key_of 3 \<noteq> key_of 1" by code_simp
  ultimately show ?thesis
    using online_list_refines_map [OF demo_net_inv, of "[Touch (key_of 1) (lit ''a:1'') 100, Touch (key_of 3) (lit ''b:1'') 100,
       Touch (key_of 1) (lit ''a:2'') 110, Expire 140]"]
    by (simp add: k del: presence_exec.simps)
qed

text \<open>
  What a query returns is exactly the list it leaves, all of it seen within the last 35
  seconds of a clock that does not overflow.
\<close>

lemma online_query_fresh:
  assumes "load_online_peers now s = (Inr ps, s')" and "p \<in> set ps"
    and "0 \<le> sint now" and "0 \<le> sint (op_last_seen p)"
  shows "net_peers s' = ps \<and> p \<in> set (net_peers s) \<and> sint now \<le> sint (op_last_seen p) + 35"
proof -
  have "sint (now - op_last_seen p) = sint now - sint (op_last_seen p)"
    using assms(3,4) sint64_bounds [of now] sint64_bounds [of "op_last_seen p"] by (intro sint_sub64) auto
  then show ?thesis
    using assms(1,2) by (auto simp: load_online_peers_def Let_def online_def ONLINE_TTL_SECS_def split: if_splits)
qed

end
