(* ===== verification/Server_Handlers.thy ===== *)
theory Server_Handlers
  imports Server_Presence
begin

text \<open>
  What the client does with a message from the server (\<^verbatim>\<open>crates/serverclient/src/handlers.rs\<close>):
  offline blobs are opened, checked, stored or obeyed and always acknowledged; presence
  messages update the online list; requests are answered; the connection handshake. Clock
  readings and random nonces are arguments. The web socket of the handshake is the sequence of
  what it delivers and whether each send succeeds.
\<close>

section \<open>Blobs\<close>

definition BLOB_MAX_AGE_SECS :: int where
  "BLOB_MAX_AGE_SECS = 86400 * 30"

definition handle_blob ::
  "'d crypto_lib \<Rightarrow> server_lib \<Rightarrow> i64 \<Rightarrow> blob_payload \<Rightarrow> bytes \<Rightarrow> bytes \<Rightarrow> ('d net, client_errors, unit) op" where
  "handle_blob L V now blob my_priv nonce =
     (case blob of
        OfflineMessage sender_pub_hash timestamp ciphertext signature \<Rightarrow>
          if sint (i64_abs (now - timestamp)) > BLOB_MAX_AGE_SECS then op_lift (Inl ReplayDetected)
          else
            op_bind (op_map_err (\<lambda>e. PeerLoadFailed (debug_crypto V e)) (on_disk (load_peer_data L sender_pub_hash))) (\<lambda>peer_data.
            op_bind (op_lift (if ed_sig_valid L signature then Inr () else Inl InvalidSignature)) (\<lambda>_.
            op_bind (op_lift (map_err (\<lambda>_. InvalidSignature)
              (verify_challenge L (pk_verifying peer_data) (info ''offline'' @ ciphertext @ to_le_bytes timestamp) signature))) (\<lambda>_.
            op_bind (op_lift (map_err (\<lambda>_. KeyDerivationFailed) (load_storage_key L (pk_public peer_data) my_priv))) (\<lambda>storage_key.
            op_bind (op_lift (map_err (\<lambda>_. DecryptionFailed) (decrypt_message_stored L ciphertext storage_key))) (\<lambda>plaintext.
            op_bind (op_lift (ok_or InvalidMessageFormat (msg_from_slice L plaintext))) (\<lambda>sender_msg.
            let msg = from_parts (msg_text sender_msg) Peer timestamp in
            op_bind (op_map_err (\<lambda>e. ChatStorageFailed (debug_crypto V e)) (on_disk (load_peer_chat_file L sender_pub_hash))) (\<lambda>_.
            op_bind (op_map_err (\<lambda>e. ChatStorageFailed (debug_crypto V e))
              (on_disk (insert_message_stored L msg storage_key nonce (chat_path L sender_pub_hash)))) (\<lambda>_.
            send_event (EBlobStored sender_pub_hash)))))))))
      | PurgeBlob sender_pub_hash signature timestamp \<Rightarrow>
          if sint (i64_abs (now - timestamp)) > BLOB_MAX_AGE_SECS then op_lift (Inl ReplayDetected)
          else
            op_bind (op_map_err (\<lambda>_. UnknownPeer) (on_disk (load_peer_data L sender_pub_hash))) (\<lambda>peer_data.
            op_bind (op_lift (if ed_sig_valid L signature then Inr () else Inl InvalidSignature)) (\<lambda>_.
            op_bind (op_lift (map_err (\<lambda>_. InvalidSignature)
              (verify_challenge L (pk_verifying peer_data) (info ''purge'' @ to_le_bytes timestamp) signature))) (\<lambda>_.
            op_map_err (\<lambda>e. ChatStorageFailed (debug_crypto V e)) (on_disk (purge_peer_chat L sender_pub_hash))))))"

definition process_blob ::
  "'d crypto_lib \<Rightarrow> server_lib \<Rightarrow> i64 \<Rightarrow> bytes \<Rightarrow> bytes \<Rightarrow> bytes \<Rightarrow> ('d net, client_errors, unit) op" where
  "process_blob L V now blob privkey nonce =
     op_bind (op_lift (map_err (\<lambda>_. DecryptionFailed) (decrypt_blob L blob privkey))) (\<lambda>decrypted.
     op_bind (op_lift (map_err DeserializationFailed (blob_from_slice V decrypted))) (\<lambda>payload.
     handle_blob L V now payload privkey nonce))"

section \<open>Messages\<close>

fun denied_text :: "request_denied_reason \<Rightarrow> rstr" where
  "denied_text PeerDeclined = lit ''Peer declined your p2p request''"
| "denied_text DeniedTimeout = lit ''Request timed out try again later''"

definition handle_message ::
  "'d crypto_lib \<Rightarrow> server_lib \<Rightarrow> i64 \<Rightarrow> server_to_client \<Rightarrow> bytes \<Rightarrow> bytes
   \<Rightarrow> ('d net, client_errors, client_to_server option) op" where
  "handle_message L V now msg privkey nonce s =
     (case stc_payload msg of
        SPendingBlob blob_id blob _ \<Rightarrow>
          (case process_blob L V now blob privkey nonce s of
             (_, s') \<Rightarrow> (Inr (Some (client_to_server_new now (generate_ack_blob blob_id) None)), s'))
      | SPendingBlobsEnd \<Rightarrow> (Inr None, s)
      | SPeerOnline h ip_port \<Rightarrow> op_bind (append_online_peer L now h ip_port) (\<lambda>_. op_ret None) s
      | SPeerOffline h \<Rightarrow> op_bind (remove_online_peer L h) (\<lambda>_. op_ret None) s
      | SPunchHole token peer_hash ip_port punchtimestamp \<Rightarrow>
          op_bind (send_event (EPunchHole token peer_hash ip_port punchtimestamp)) (\<lambda>_. op_ret None) s
      | SAuthOk observed_address \<Rightarrow> (Inr None, snd (get_or_set_my_address (Some observed_address) s))
      | SAuthFailed reason \<Rightarrow> (Inl (AuthFailed reason), s)
      | SError reason \<Rightarrow> (Inl (ServerError reason), s)
      | SRequestHolePunch pub_key token \<Rightarrow>
          (case on_disk (load_peer_data L pub_key) s of
             (r, s') \<Rightarrow>
               (Inr (Some (client_to_server_new now
                  (if is_ok r then RequestAccepted token else RequestDenied token) None)), s'))
      | SRequestDenied _ pub_key reason \<Rightarrow>
          op_bind (send_event (EHolePunchDenied pub_key (denied_text reason))) (\<lambda>_. op_ret None) s
      | SRelayData sender_hash payload \<Rightarrow>
          op_bind (send_event (ERelayData sender_hash payload)) (\<lambda>_. op_ret None) s)"

section \<open>Receiving\<close>

text \<open>
  What the web socket yields: a binary message, a close frame, another kind of frame, an error;
  the end of the sequence is the end of the stream.
\<close>

datatype ws_event = WsBinary bytes | WsClose | WsOther | WsError rstr

definition parse_server_message :: "server_lib \<Rightarrow> bytes \<Rightarrow> client_errors + server_to_client" where
  "parse_server_message V msg = map_err DeserializationFailed (stc_from_slice V msg)"

fun receive_message :: "server_lib \<Rightarrow> ws_event list \<Rightarrow> (client_errors + server_to_client) \<times> ws_event list" where
  "receive_message V [] = (Inl ConnectionClosed, [])"
| "receive_message V (WsError e # ws) = (Inl (ReadFailed e), ws)"
| "receive_message V (WsBinary data # ws) = (parse_server_message V data, ws)"
| "receive_message V (WsClose # ws) = (Inl ConnectionClosed, ws)"
| "receive_message V (WsOther # ws) = receive_message V ws"

lemma receive_message_shorter:
  "receive_message V ws = (Inr m, ws') \<Longrightarrow> length ws' < length ws"
  by (induction V ws rule: receive_message.induct) (auto simp: parse_server_message_def)

section \<open>The connection handshake\<close>

text \<open>
  The socket: what it will still deliver, the results of the sends to come (an error text or
  success; success once the list is used up) and the messages sent so far.
\<close>

record conn =
  conn_in :: "ws_event list"
  conn_faults :: "rstr option list"
  conn_out :: "bytes list"

definition conn_recv :: "server_lib \<Rightarrow> ('d net \<times> conn, client_errors, server_to_client) op" where
  "conn_recv V sc = (case receive_message V (conn_in (snd sc)) of (r, ws) \<Rightarrow> (r, (fst sc, (snd sc)\<lparr>conn_in := ws\<rparr>)))"

definition conn_send :: "bytes \<Rightarrow> ('d net \<times> conn, client_errors, unit) op" where
  "conn_send b sc =
     (case conn_faults (snd sc) of
        Some e # fs \<Rightarrow> (Inl (WriteFailed e), (fst sc, (snd sc)\<lparr>conn_faults := fs\<rparr>))
      | fs \<Rightarrow> (Inr (), (fst sc, (snd sc)\<lparr>conn_faults := tl fs, conn_out := conn_out (snd sc) @ [b]\<rparr>)))"

definition on_net :: "('d net, 'e, 'a) op \<Rightarrow> ('d net \<times> conn, 'e, 'a) op" where
  "on_net m sc = (case m (fst sc) of (r, s) \<Rightarrow> (r, (s, snd sc)))"

definition send_wrapped :: "server_lib \<Rightarrow> client_to_server \<Rightarrow> ('d net \<times> conn, client_errors, unit) op" where
  "send_wrapped V m = op_bind (op_lift (map_err SerializationFailed (cts_to_vec V m))) conn_send"

definition ack_blob :: "server_lib \<Rightarrow> i64 \<Rightarrow> rstr \<Rightarrow> ('d net \<times> conn, client_errors, unit) op" where
  "ack_blob V now blob_id = send_wrapped V (client_to_server_new now (generate_ack_blob blob_id) None)"

lemma ack_blob_in: "ack_blob V now i sc = (r, sc') \<Longrightarrow> conn_in (snd sc') = conn_in (snd sc)"
  by (auto simp: ack_blob_def send_wrapped_def conn_send_def op_bind_def
      split: sum.splits list.splits option.splits)

text \<open>
  The loop that drains pending blobs. \<open>clk\<close> and \<open>rng\<close> supply the clock reading and the random nonce
  of each turn, by the number of socket events not yet delivered; every turn takes one, so the
  loop ends.
\<close>

function drain_blobs ::
  "'d crypto_lib \<Rightarrow> server_lib \<Rightarrow> (nat \<Rightarrow> i64) \<Rightarrow> (nat \<Rightarrow> bytes) \<Rightarrow> bytes \<Rightarrow> ('d net \<times> conn, client_errors, unit) op" where
  "drain_blobs L V clk rng privkey sc =
     (case receive_message V (conn_in (snd sc)) of
        (Inl e, ws) \<Rightarrow> (Inl e, (fst sc, (snd sc)\<lparr>conn_in := ws\<rparr>))
      | (Inr msg, ws) \<Rightarrow>
          (let n = length ws; s = fst sc; c = (snd sc)\<lparr>conn_in := ws\<rparr> in
           case stc_payload msg of
             SPendingBlobsEnd \<Rightarrow> (Inr (), (s, c))
           | SPendingBlob blob_id blob _ \<Rightarrow>
               (case ack_blob V (clk n) blob_id (snd (process_blob L V (clk n) blob privkey (rng n) s), c) of
                  (Inl e, sc') \<Rightarrow> (Inl e, sc')
                | (Inr _, sc') \<Rightarrow> drain_blobs L V clk rng privkey sc')
           | SAuthFailed reason \<Rightarrow> (Inl (AuthFailed reason), (s, c))
           | SError reason \<Rightarrow> (Inl (ServerError reason), (s, c))
           | _ \<Rightarrow> drain_blobs L V clk rng privkey (s, c)))"
  by pat_completeness auto

termination
proof (relation "measure (\<lambda>(L, V, clk, rng, priv, sc). length (conn_in (snd sc)))")
qed (auto dest!: receive_message_shorter [OF sym] ack_blob_in [OF sym])

definition announce_address :: "rstr option \<Rightarrow> rstr \<Rightarrow> nat \<Rightarrow> rstr" where
  "announce_address announce_override observed_address udp_port =
     (case announce_override of
        Some a \<Rightarrow> a
      | None \<Rightarrow> (case rsplit_once 58 observed_address of
          Some (ip, _) \<Rightarrow> ip @ [58] @ show_nat udp_port
        | None \<Rightarrow> observed_address))"

fun announce_all ::
  "'d crypto_lib \<Rightarrow> server_lib \<Rightarrow> i64 \<Rightarrow> bytes \<Rightarrow> rstr \<Rightarrow> peer_public list \<Rightarrow> ('d net \<times> conn, client_errors, unit) op" where
  "announce_all L V now privkey addr [] = op_ret ()"
| "announce_all L V now privkey addr (peer # peers) =
     op_bind (op_lift (map_err (\<lambda>_. KeyDerivationFailed) (generate_announce_message L privkey (pk_public peer) now addr))) (\<lambda>msg.
     op_bind (send_wrapped V (client_to_server_new now msg None)) (\<lambda>_.
     announce_all L V now privkey addr peers))"

definition server_initial_handshake ::
  "'d crypto_lib \<Rightarrow> server_lib \<Rightarrow> i64 \<Rightarrow> (nat \<Rightarrow> i64) \<Rightarrow> (nat \<Rightarrow> bytes) \<Rightarrow> bytes \<Rightarrow> bytes \<Rightarrow> bytes \<Rightarrow> nat \<Rightarrow> rstr option
   \<Rightarrow> ('d net \<times> conn, client_errors, rstr) op" where
  "server_initial_handshake L V now clk rng public signing privkey udp_port announce_override =
     op_bind (op_lift (map_err (\<lambda>_. KeyDerivationFailed)
       (generate_authenticate_message L public (ed_public L signing) signing now))) (\<lambda>auth_message.
     op_bind (send_wrapped V auth_message) (\<lambda>_.
     op_bind (conn_recv V) (\<lambda>response.
     op_bind (op_lift (case stc_payload response of
         SAuthOk observed_address \<Rightarrow> Inr observed_address
       | SAuthFailed reason \<Rightarrow> Inl (AuthFailed reason)
       | _ \<Rightarrow> Inl UnexpectedHandshakeMessage)) (\<lambda>observed_address.
     op_bind (on_net (\<lambda>s. (Inr (), snd (get_or_set_my_address (Some (announce_address announce_override observed_address udp_port)) s)))) (\<lambda>_.
     op_bind (on_net (send_event (EAuthenticated observed_address))) (\<lambda>_.
     op_bind (drain_blobs L V clk rng privkey) (\<lambda>_.
     op_bind (op_map_err (\<lambda>e. PeerLoadFailed (debug_crypto V e)) (on_net (on_disk (load_peers L)))) (\<lambda>peers.
     op_bind (announce_all L V (clk 0) privkey observed_address peers) (\<lambda>_.
     op_ret observed_address)))))))))"

section \<open>Blobs: what is accepted\<close>

lemma on_disk_load [simp]: "on_disk (load_peer_data L h) s = (fst (load_peer_data L h (net_disk s)), s)"
  by (rule on_disk_pure) simp

lemma load_peer_data_state: "load_peer_data L h d = (r, d') \<Longrightarrow> d' = d"
  using load_peer_data_pure [of L h d] by simp

text \<open>
  A blob that cannot be used never wedges the account: whatever a pending blob contains and
  whatever state the client is in, the client answers it with the acknowledgement of exactly
  that blob, stamped with its clock.
\<close>

theorem poison_blob_acked:
  "fst (handle_message L V now \<lparr>stc_payload = SPendingBlob blob_id blob ts, stc_timestamp = t\<rparr> privkey nonce s)
   = Inr (Some \<lparr>cts_payload = AckBlob blob_id, cts_timestamp = now\<rparr>)"
  by (simp add: handle_message_def generate_ack_blob_def client_to_server_new_def split: prod.split)

lemma handle_blob_offline_Inr:
  assumes "handle_blob L V now (OfflineMessage h ts ct sg) priv nonce s = (Inr (), s')"
  obtains peer sk plain m d1 where "fst (load_peer_data L h (net_disk s)) = Inr peer"
    and "sint (i64_abs (now - ts)) \<le> BLOB_MAX_AGE_SECS"
    and "ed_sig_valid L sg" and "ed_verify L (pk_verifying peer) (info ''offline'' @ ct @ to_le_bytes ts) sg"
    and "load_storage_key L (pk_public peer) priv = Inr sk" and "decrypt_message_stored L ct sk = Inr plain"
    and "msg_from_slice L plain = Some m"
    and "store_message L h (from_parts (msg_text m) Peer ts) sk nonce (net_disk s) = (Inr (), d1)"
    and "s' = s\<lparr>net_disk := d1, net_events := net_events s @ [EBlobStored h]\<rparr>"
proof -
  have age: "\<not> BLOB_MAX_AGE_SECS < sint (i64_abs (now - ts))" using assms by (auto simp: handle_blob_def)
  show ?thesis
    using assms age that
    by (auto simp: handle_blob_def op_bind_def op_map_err_def verify_challenge_def Let_def on_disk_def send_event_def
        store_message_def map_err_def ok_or_def dest!: load_peer_data_state
        split: sum.splits if_splits prod.splits option.splits)
qed

lemma handle_blob_purge_Inr:
  assumes "handle_blob L V now (PurgeBlob h sg ts) priv nonce s = (Inr (), s')"
  obtains peer d1 where "fst (load_peer_data L h (net_disk s)) = Inr peer"
    and "sint (i64_abs (now - ts)) \<le> BLOB_MAX_AGE_SECS"
    and "ed_sig_valid L sg" and "ed_verify L (pk_verifying peer) (info ''purge'' @ to_le_bytes ts) sg"
    and "purge_peer_chat L h (net_disk s) = (Inr (), d1)" and "s' = s\<lparr>net_disk := d1\<rparr>"
proof -
  have age: "\<not> BLOB_MAX_AGE_SECS < sint (i64_abs (now - ts))" using assms by (auto simp: handle_blob_def)
  show ?thesis
    using assms age that
    by (auto simp: handle_blob_def op_bind_def op_map_err_def verify_challenge_def on_disk_def
        map_err_def dest!: load_peer_data_state split: sum.splits if_splits prod.splits)
qed

text \<open>
  What may have happened when a blob was accepted or left any trace. The age is that of the 64-bit difference, which
  is the true one for times from the epoch on.
\<close>

definition authentic_effect ::
  "'d crypto_lib \<Rightarrow> i64 \<Rightarrow> bytes \<Rightarrow> bytes \<Rightarrow> blob_payload \<Rightarrow> peer_public \<Rightarrow> bool \<Rightarrow> 'd net \<Rightarrow> 'd net \<Rightarrow> bool" where
  "authentic_effect L now priv nonce payload peer accepted s s' =
     (case payload of
        OfflineMessage h ts ct sg \<Rightarrow>
          (0 \<le> sint now \<and> 0 \<le> sint ts \<longrightarrow> \<bar>sint now - sint ts\<bar> \<le> 30 * 86400)
          \<and> ed_verify L (pk_verifying peer) (info ''offline'' @ ct @ to_le_bytes ts) sg
          \<and> (\<exists>sk m. load_storage_key L (pk_public peer) priv = Inr sk \<and> read_entry L sk ct = Some m
               \<and> (let stored = store_message L h (from_parts (msg_text m) Peer ts) sk nonce (net_disk s) in
                  s' = s\<lparr>net_disk := snd stored, net_events := net_events s @ (if accepted then [EBlobStored h] else [])\<rparr>
                  \<and> (accepted \<longleftrightarrow> fst stored = Inr ())))
      | PurgeBlob h sg ts \<Rightarrow>
          (0 \<le> sint now \<and> 0 \<le> sint ts \<longrightarrow> \<bar>sint now - sint ts\<bar> \<le> 30 * 86400)
          \<and> ed_verify L (pk_verifying peer) (info ''purge'' @ to_le_bytes ts) sg
          \<and> s' = s\<lparr>net_disk := snd (purge_peer_chat L h (net_disk s))\<rparr>
          \<and> (accepted \<longleftrightarrow> fst (purge_peer_chat L h (net_disk s)) = Inr ()))"

lemma blob_age:
  assumes "\<not> BLOB_MAX_AGE_SECS < sint (i64_abs (now - ts))" and "0 \<le> sint now" and "0 \<le> sint ts"
  shows "\<bar>sint now - sint ts\<bar> \<le> 30 * 86400"
proof -
  have b: "- (2 ^ 63) < sint now - sint ts" "sint now - sint ts < 2 ^ 63"
    using assms(2,3) sint64_bounds [of now] sint64_bounds [of ts] by simp_all
  then have d: "sint (now - ts) = sint now - sint ts" by (intro sint_sub64) simp_all
  then have "sint (now - ts) \<noteq> - (2 ^ 63)" using b by simp
  then show ?thesis using assms(1) d by (simp add: sint_i64_abs BLOB_MAX_AGE_SECS_def)
qed

lemma handle_blob_offline_effect:
  assumes "handle_blob L V now (OfflineMessage h ts ct sg) priv nonce s = (r, s')" and "r = Inr () \<or> s' \<noteq> s"
  shows "\<exists>peer. fst (load_peer_data L h (net_disk s)) = Inr peer \<and> authentic_effect L now priv nonce (OfflineMessage h ts ct sg) peer (r = Inr ()) s s'"
proof -
  have age: "\<not> BLOB_MAX_AGE_SECS < sint (i64_abs (now - ts))"
    using assms by (auto simp: handle_blob_def op_lift_def split: if_splits)
  obtain peer where peer: "fst (load_peer_data L h (net_disk s)) = Inr peer"
    using assms age by (cases "fst (load_peer_data L h (net_disk s))") (auto simp: handle_blob_def op_bind_def op_map_err_def)
  have sig: "ed_sig_valid L sg" "ed_verify L (pk_verifying peer) (info ''offline'' @ ct @ to_le_bytes ts) sg"
    using assms age peer by (auto simp: handle_blob_def op_bind_def op_map_err_def op_lift_def verify_challenge_def map_err_def split: if_splits)
  obtain sk where sk: "load_storage_key L (pk_public peer) priv = Inr sk"
    using assms age peer sig
    by (cases "load_storage_key L (pk_public peer) priv") (auto simp: handle_blob_def op_bind_def op_map_err_def op_lift_def verify_challenge_def map_err_def)
  obtain pt where pt: "decrypt_message_stored L ct sk = Inr pt"
    using assms age peer sig sk
    by (cases "decrypt_message_stored L ct sk") (auto simp: handle_blob_def op_bind_def op_map_err_def op_lift_def verify_challenge_def map_err_def)
  obtain m where m: "msg_from_slice L pt = Some m"
    using assms age peer sig sk pt
    by (cases "msg_from_slice L pt") (auto simp: handle_blob_def op_bind_def op_map_err_def op_lift_def verify_challenge_def map_err_def ok_or_def)
  let ?store = "store_message L h (from_parts (msg_text m) Peer ts) sk nonce (net_disk s)"
  let ?e = "\<lambda>e. ChatStorageFailed (debug_crypto V e)" and ?f = "load_peer_chat_file L h (net_disk s)"
  let ?i = "insert_message_stored L (from_parts (msg_text m) Peer ts) sk nonce (chat_path L h)"
  have eq: "handle_blob L V now (OfflineMessage h ts ct sg) priv nonce s =
      op_bind (op_map_err ?e (on_disk (load_peer_chat_file L h))) (\<lambda>_. op_bind (op_map_err ?e (on_disk ?i)) (\<lambda>_. send_event (EBlobStored h))) s"
    using age peer sig sk pt m by (simp add: handle_blob_def verify_challenge_def Let_def)
  have "(r = Inr () \<longleftrightarrow> fst ?store = Inr ())
      \<and> s' = s\<lparr>net_disk := snd ?store, net_events := net_events s @ (if r = Inr () then [EBlobStored h] else [])\<rparr>"
  proof -
    obtain q1 d1 where f: "?f = (q1, d1)" by fastforce
    obtain q2 d2 where i: "?i d1 = (q2, d2)" by fastforce
    show ?thesis
      using assms(1) eq f i
      by (cases q1; cases q2) (auto simp: op_bind_def op_map_err_def on_disk_def store_message_def send_event_def map_err_def)
  qed
  then show ?thesis
    using peer sig sk pt m blob_age [OF age] by (auto simp: authentic_effect_def read_entry_def Let_def)
qed

lemma handle_blob_purge_effect:
  assumes "handle_blob L V now (PurgeBlob h sg ts) priv nonce s = (r, s')" and "r = Inr () \<or> s' \<noteq> s"
  shows "\<exists>peer. fst (load_peer_data L h (net_disk s)) = Inr peer \<and> authentic_effect L now priv nonce (PurgeBlob h sg ts) peer (r = Inr ()) s s'"
proof -
  have age: "\<not> BLOB_MAX_AGE_SECS < sint (i64_abs (now - ts))"
    using assms by (auto simp: handle_blob_def op_lift_def split: if_splits)
  obtain peer where peer: "fst (load_peer_data L h (net_disk s)) = Inr peer"
    using assms age by (cases "fst (load_peer_data L h (net_disk s))") (auto simp: handle_blob_def op_bind_def op_map_err_def)
  have sig: "ed_sig_valid L sg" "ed_verify L (pk_verifying peer) (info ''purge'' @ to_le_bytes ts) sg"
    using assms age peer by (auto simp: handle_blob_def op_bind_def op_map_err_def op_lift_def verify_challenge_def map_err_def split: if_splits)
  have "handle_blob L V now (PurgeBlob h sg ts) priv nonce s = op_map_err (\<lambda>e. ChatStorageFailed (debug_crypto V e)) (on_disk (purge_peer_chat L h)) s"
    using age peer sig by (simp add: handle_blob_def verify_challenge_def)
  then have "s' = s\<lparr>net_disk := snd (purge_peer_chat L h (net_disk s))\<rparr> \<and> (r = Inr () \<longleftrightarrow> fst (purge_peer_chat L h (net_disk s)) = Inr ())"
    using assms(1) by (auto simp: op_map_err_def on_disk_def split: prod.splits sum.splits)
  then show ?thesis using peer sig blob_age [OF age] by (auto simp: authentic_effect_def)
qed

text \<open>
  C13: A blob changes anything only on a contact's signature. Whenever processing a blob succeeds, or fails and yet leaves the state other than
  it was, the blob opened with our key; its sender is in the contact book; for times from the epoch on it is at most 30 days from the
  client's clock; and the stored verifying key of that contact verifies its signature (over the kind, the time and, for a message, the
  ciphertext). What then happened is the storing of the decrypted message in that contact's conversation, with one notification when it
  succeeded, or the purge of that conversation, and nothing else.
\<close>

theorem blob_accepted_authentic:
  assumes "process_blob L V now blob priv nonce s = (r, s')" and "r = Inr () \<or> s' \<noteq> s"
  shows "\<exists>opened payload peer. decrypt_blob L blob priv = Inr opened \<and> blob_from_slice V opened = Inr payload
    \<and> fst (load_peer_data L (blob_hash payload) (net_disk s)) = Inr peer
    \<and> authentic_effect L now priv nonce payload peer (r = Inr ()) s s'"
proof -
  obtain opened where opened: "decrypt_blob L blob priv = Inr opened"
    using assms by (cases "decrypt_blob L blob priv") (auto simp: process_blob_def op_bind_def op_lift_def map_err_def)
  obtain payload where payload: "blob_from_slice V opened = Inr payload"
    using assms opened by (cases "blob_from_slice V opened") (auto simp: process_blob_def op_bind_def op_lift_def map_err_def)
  have h: "handle_blob L V now payload priv nonce s = (r, s')"
    using assms(1) opened payload by (simp add: process_blob_def op_bind_def op_lift_def map_err_def)
  show ?thesis
    using handle_blob_offline_effect handle_blob_purge_effect h assms(2) opened payload
    by (cases payload) (simp_all add: blob_hash_def, blast+)
qed

text \<open>
  A rejected blob leaves no trace: unless the failure is one of the storage itself, an error
  means that neither the disk nor the online list nor the address nor the events changed.
\<close>

lemma blob_rejected_unchanged:
  assumes "process_blob L V now blob priv nonce s = (Inl e, s')" and "\<forall>m. e \<noteq> ChatStorageFailed m"
  shows "s' = s"
  using assms
  by (auto simp: process_blob_def handle_blob_def op_bind_def op_map_err_def verify_challenge_def Let_def send_event_def
      map_err_def ok_or_def split: sum.splits if_splits prod.splits option.splits blob_payload.splits)

section \<open>Offline messages from end to end\<close>

lemma handle_blob_offline_stored:
  assumes "sint (i64_abs (now - ts)) \<le> BLOB_MAX_AGE_SECS"
    and "fst (load_peer_data L h (net_disk s)) = Inr peer"
    and "ed_sig_valid L sg" and "ed_verify L (pk_verifying peer) (info ''offline'' @ ct @ to_le_bytes ts) sg"
    and "load_storage_key L (pk_public peer) priv = Inr sk"
    and "decrypt_message_stored L ct sk = Inr pt" and "msg_from_slice L pt = Some m"
    and "store_message L h (from_parts (msg_text m) Peer ts) sk nonce (net_disk s) = (Inr (), d)"
  shows "handle_blob L V now (OfflineMessage h ts ct sg) priv nonce s
    = (Inr (), s\<lparr>net_disk := d, net_events := net_events s @ [EBlobStored h]\<rparr>)"
proof -
  have nd: "s\<lparr>net_disk := net_disk s\<rparr> = s" by (cases s) simp
  obtain d1 where d1: "load_peer_chat_file L h (net_disk s) = (Inr (), d1)"
    "insert_message_stored L (from_parts (msg_text m) Peer ts) sk nonce (chat_path L h) d1 = (Inr (), d)"
    using assms(8) by (auto simp: store_message_def op_bind_def split: prod.splits sum.splits)
  have "on_disk (load_peer_chat_file L h) s = (Inr (), s\<lparr>net_disk := d1\<rparr>)" using d1(1) by (simp add: on_disk_def)
  moreover have "on_disk (insert_message_stored L (from_parts (msg_text m) Peer ts) sk nonce (chat_path L h)) (s\<lparr>net_disk := d1\<rparr>)
      = (Inr (), s\<lparr>net_disk := d\<rparr>)"
    using d1(2) by (simp add: on_disk_def)
  ultimately show ?thesis
    using assms(1-7) by (simp add: handle_blob_def verify_challenge_def Let_def send_event_def)
qed

lemma blob_codec_okD:
  assumes "blob_codec_ok V" and "length (blob_hash p) = 32" and "blob_to_vec V p = Inr b"
  shows "blob_from_slice V b = Inr p"
  using assms unfolding blob_codec_ok_def by (metis sum.inject(2))

lemma generate_offline_Inr:
  assumes "generate_offline_message L V ts t' recipient my_pub my_priv t signing mn eph bn = Inr msg"
  obtains sk ct pb blob where "load_storage_key L (pk_public recipient) my_priv = Inr sk"
    and "encrypt_message_stored L (from_parts t You ts) sk mn = Inr ct"
    and "blob_to_vec V (OfflineMessage (identity_hash L my_pub (ed_public L signing)) ts ct
           (sign_challenge L signing (info ''offline'' @ ct @ to_le_bytes ts))) = Inr pb"
    and "encrypt_blob L (pk_public recipient) pb eph bn = Inr blob"
    and "cts_payload msg = SendBlob (generate_peer_hash L recipient) blob"
  using assms that
  by (auto simp: generate_offline_message_def generate_blob_def and_then_Inr Let_def client_to_server_new_def)

text \<open>
  The receiver's side of a conversation: its state is healthy, the sender is a contact, and the
  conversation has room for one more message and takes this text.
\<close>

definition inbox_ready :: "'d crypto_lib \<Rightarrow> bytes \<Rightarrow> 'd chat \<Rightarrow> 'd net \<Rightarrow> message \<times> bytes \<Rightarrow> bool" where
  "inbox_ready L priv c s mn \<longleftrightarrow> ch_lib c = L \<and> ch_disk c = net_disk s \<and> chat_inv c \<and> 0 < chat_room c \<and> chat_accepts c mn
     \<and> load_storage_key L (pk_public (ch_peer c)) priv = Inr (ch_key c)
     \<and> fst (load_peer_data L (generate_peer_hash L (ch_peer c)) (net_disk s)) = Inr (ch_peer c)"

text \<open>
  An offline message arrives. The blob \<open>a\<close> makes for \<open>b\<close> is addressed to \<open>b\<close>'s identity; when \<open>b\<close>
  processes it within 30 days, with \<open>a\<close> in its contact book, it is accepted, the history with \<open>a\<close>
  grows by exactly that text, marked as the peer's, with the time \<open>a\<close> wrote it, and one
  notification names \<open>a\<close>.
\<close>

lemma offline_message_delivered:
  assumes "hkdf_ok L" and "aead_ok L" and "ed_ok L" and "dh_ok L" and "msg_codec_ok L" and "sha_ok L" and "blob_codec_ok V"
    and "length a = 32" and "length ka = 32" and "length b = 32"
    and "length mn = 12" and "length eph = 32" and "length bn = 12"
    and gen: "generate_offline_message L V ts t' \<lparr>pk_public = x25519_public L b, pk_verifying = vb\<rparr> (x25519_public L a) a t ka mn eph bn = Inr msg"
    and age: "sint (i64_abs (now - ts)) \<le> 2592000"
    and peer: "ch_peer c = \<lparr>pk_public = x25519_public L a, pk_verifying = ed_public L ka\<rparr>"
    and ready: "inbox_ready L b c s (from_parts t Peer ts, rn)"
  shows "\<exists>blob s'. cts_payload msg = SendBlob (identity_hash L (x25519_public L b) vb) blob
    \<and> process_blob L V now blob b rn s = (Inr (), s')
    \<and> chat_read (c\<lparr>ch_disk := net_disk s'\<rparr>) = chat_read c @ [from_parts t Peer ts]
    \<and> net_events s' = net_events s @ [EBlobStored (generate_peer_hash L (ch_peer c))]
    \<and> c\<lparr>ch_disk := net_disk s'\<rparr> = chat_append (from_parts t Peer ts, rn) c"
proof -
  let ?h = "generate_peer_hash L (ch_peer c)"
  obtain sk ct pb blob where sk: "load_storage_key L (x25519_public L b) a = Inr sk"
    and ct: "encrypt_message_stored L (from_parts t You ts) sk mn = Inr ct"
    and pb: "blob_to_vec V (OfflineMessage ?h ts ct (sign_challenge L ka (info ''offline'' @ ct @ to_le_bytes ts))) = Inr pb"
    and blob: "encrypt_blob L (x25519_public L b) pb eph bn = Inr blob"
    and pay: "cts_payload msg = SendBlob (identity_hash L (x25519_public L b) vb) blob"
    by (rule generate_offline_Inr [OF gen]) (simp add: peer generate_peer_hash_def)
  have skb: "sk = ch_key c"
    using sk ready dh_comm [OF assms(4,8,10)] by (simp add: inbox_ready_def peer load_storage_key_def)
  have inv: "chat_inv c" "0 < chat_room c" "chat_accepts c (from_parts t Peer ts, rn)" "ch_lib c = L" "ch_disk c = net_disk s"
    using ready by (simp_all add: inbox_ready_def)
  then have "length sk = 32" using skb by (simp add: chat_inv_def)
  with ct obtain pt where pt: "decrypt_message_stored L ct sk = Inr pt" "msg_from_slice L pt = Some (from_parts t You ts)"
    using stored_decrypts [OF assms(2,5)] assms(11) by blast
  have st: "fst (store_message L ?h (from_parts t Peer ts) sk rn (net_disk s)) = Inr ()"
    using inv(1-3)
  proof (rule chat_append_effect)
  qed (use inv(4,5) skb in \<open>simp add: generate_peer_hash_def\<close>)
  then obtain d where d: "store_message L ?h (from_parts t Peer ts) sk rn (net_disk s) = (Inr (), d)"
    by (metis prod.collapse)
  have dec: "decrypt_blob L blob b = Inr pb"
    using encrypt_blob_decrypts [OF assms(1,2,4,12,10,13) blob] .
  have "length ?h = 32" using assms(6) by (simp add: generate_peer_hash_def identity_hash_def sha_ok_def)
  then have parsed: "blob_from_slice V pb = Inr (OfflineMessage ?h ts ct (sign_challenge L ka (info ''offline'' @ ct @ to_le_bytes ts)))"
    using blob_codec_okD [OF assms(7) _ pb] by (simp add: blob_hash_def)
  have "handle_blob L V now (OfflineMessage ?h ts ct (sign_challenge L ka (info ''offline'' @ ct @ to_le_bytes ts))) b rn s
      = (Inr (), s\<lparr>net_disk := d, net_events := net_events s @ [EBlobStored ?h]\<rparr>)"
    using age ready ed_okD(4,5) [OF assms(3,9)] sk skb pt d
    by (intro handle_blob_offline_stored [where peer = "ch_peer c" and sk = sk and pt = pt and m = "from_parts t You ts"])
      (simp_all add: BLOB_MAX_AGE_SECS_def inbox_ready_def peer sign_challenge_def from_parts_def)
  then have p: "process_blob L V now blob b rn s = (Inr (), s\<lparr>net_disk := d, net_events := net_events s @ [EBlobStored ?h]\<rparr>)"
    using dec parsed by (simp add: process_blob_def)
  have app: "c\<lparr>ch_disk := d\<rparr> = chat_append (from_parts t Peer ts, rn) c"
    using d inv(4,5) skb by (simp add: chat_append_def generate_peer_hash_def)
  then have "chat_read (c\<lparr>ch_disk := d\<rparr>) = chat_read c @ [from_parts t Peer ts]"
    using chat_db.read_append [OF inv(1-3)] by simp
  then show ?thesis using pay p app by auto
qed

text \<open>A concrete \<open>server_lib\<close> for the witnesses: its blob encoding satisfies \<open>blob_codec_ok\<close>.\<close>

fun demo_blob_enc :: "blob_payload \<Rightarrow> bytes" where
  "demo_blob_enc (OfflineMessage h t c g) = 0 # h @ to_le_bytes t @ demo_esc c @ g"
| "demo_blob_enc (PurgeBlob h g t) = 1 # h @ to_le_bytes t @ g"

definition demo_blob_dec :: "bytes \<Rightarrow> rstr + blob_payload" where
  "demo_blob_dec b =
     (case from_le_bytes (take 8 (drop 33 b)) of
        None \<Rightarrow> Inl []
      | Some t \<Rightarrow>
          if hd b = 0 then
            (case demo_unesc (drop 41 b) of None \<Rightarrow> Inl [] | Some (c, g) \<Rightarrow> Inr (OfflineMessage (slice 1 33 b) t c g))
          else Inr (PurgeBlob (slice 1 33 b) (drop 41 b) t))"

definition demo_stc_dec :: "bytes \<Rightarrow> rstr + server_to_client" where
  "demo_stc_dec b =
     (if b = [1] then Inr \<lparr>stc_payload = SPendingBlobsEnd, stc_timestamp = 0\<rparr>
      else case from_utf8 b of None \<Rightarrow> Inl [] | Some a \<Rightarrow> Inr \<lparr>stc_payload = SAuthOk a, stc_timestamp = 0\<rparr>)"

definition demo_server :: server_lib where
  "demo_server = \<lparr>cts_to_vec = (\<lambda>m. Inr []), stc_from_slice = demo_stc_dec,
     blob_to_vec = (\<lambda>p. Inr (demo_blob_enc p)), blob_from_slice = demo_blob_dec, debug_crypto = (\<lambda>_. [])\<rparr>"

lemma demo_blob_codec: "blob_codec_ok demo_server"
proof -
  have "demo_blob_dec (demo_blob_enc p) = Inr p" if "length (blob_hash p) = 32" for p
    using that by (cases p) (simp_all add: demo_blob_dec_def blob_hash_def demo_unesc_esc slice_def)
  then show ?thesis by (simp add: blob_codec_ok_def demo_server_def)
qed

text \<open>The state of \<open>b\<close> (private key \<open>key_of 2\<close>), with \<open>a\<close> (both keys \<open>key_of 1\<close>) as a contact and an empty conversation.\<close>

definition demo_peer_a :: peer_public where
  "demo_peer_a = \<lparr>pk_public = x25519_public demo_lib (key_of 1), pk_verifying = ed_public demo_lib (key_of 1)\<rparr>"

definition demo_inbox :: "demo_db net" where
  "demo_inbox = \<lparr>net_disk = demo_disk [(peer_path demo_lib (key_of 1), DirNode),
       (peer_pub_path demo_lib (key_of 1), FileNode (key_of 1 @ key_of 1)), (chat_path demo_lib (key_of 1), DbNode [])],
     net_peers = [], net_peers_poisoned = False, net_address = None, net_address_poisoned = False, net_events = []\<rparr>"

definition demo_inbox_chat :: "demo_db chat" where
  "demo_inbox_chat = \<lparr>ch_lib = demo_lib, ch_abs = demo_entries,
     ch_key = the (hkdf_expand demo_lib (diffie_hellman demo_lib (key_of 2) (key_of 1)) (info ''storage'') 32),
     ch_peer = demo_peer_a, ch_disk = net_disk demo_inbox\<rparr>"

lemma demo_peer_a_eq: "demo_peer_a = \<lparr>pk_public = key_of 1, pk_verifying = key_of 1\<rparr>"
  by (simp add: demo_peer_a_def demo_lib_def)

text \<open>The same for any owner \<open>n\<close> and any contact with keys \<open>p\<close> and \<open>v\<close>.\<close>

definition demo_contact :: "nat \<Rightarrow> nat \<Rightarrow> peer_public" where
  "demo_contact p v = \<lparr>pk_public = key_of p, pk_verifying = key_of v\<rparr>"

definition demo_box :: "nat \<Rightarrow> nat \<Rightarrow> demo_db net" where
  "demo_box p v = demo_inbox\<lparr>net_disk := demo_disk [(peer_path demo_lib (key_of p), DirNode),
       (peer_pub_path demo_lib (key_of p), FileNode (key_of p @ key_of v)), (chat_path demo_lib (key_of p), DbNode [])]\<rparr>"

definition demo_box_chat :: "nat \<Rightarrow> nat \<Rightarrow> nat \<Rightarrow> demo_db chat" where
  "demo_box_chat n p v = \<lparr>ch_lib = demo_lib, ch_abs = demo_entries,
     ch_key = the (hkdf_expand demo_lib (diffie_hellman demo_lib (key_of n) (key_of p)) (info ''storage'') 32),
     ch_peer = demo_contact p v, ch_disk = net_disk (demo_box p v)\<rparr>"

lemma demo_hash: "identity_hash demo_lib (key_of p) v = key_of p"
  by (simp add: identity_hash_def demo_lib_def demo_pad_def key_of_def)

lemma demo_box_paths:
  "chat_path demo_lib h \<noteq> peer_path demo_lib h" "chat_path demo_lib h \<noteq> peer_pub_path demo_lib h"
  by (simp_all add: chat_path_def peer_pub_path_def)

lemma demo_box_load: "fst (load_peer_data demo_lib (key_of p) (net_disk (demo_box p v))) = Inr (demo_contact p v)"
proof -
  let ?d = "net_disk (demo_box p v)"
  have "is_dir ?d (peer_path demo_lib (key_of p))" by (simp add: demo_box_def is_dir_def node_at_def demo_disk_def)
  moreover have "node_at ?d (peer_pub_path demo_lib (key_of p)) = Some (FileNode (key_of p @ key_of v))"
    using peer_paths_distinct(1) [of demo_lib "key_of p" "key_of p"] by (simp add: demo_box_def node_at_def demo_disk_def)
  then have "read_file_to_buffer (peer_pub_path demo_lib (key_of p)) 64 ?d = (Inr (key_of p @ key_of v), ?d)"
    using read_readable [of ?d "peer_pub_path demo_lib (key_of p)" "key_of p @ key_of v" 64]
    by (simp add: readable_def) (simp add: demo_box_def)
  moreover have "ed_valid demo_lib (key_of v)" by (simp add: demo_lib_def)
  ultimately show ?thesis by (simp add: load_peer_data_def parse_peer_pub_ok demo_contact_def)
qed

lemma demo_box_ready:
  "inbox_ready demo_lib (key_of n) (demo_box_chat n p v) (demo_box p v) (from_parts (lit ''Hi'') a ts, replicate 12 b)"
proof -
  let ?c = "demo_box_chat n p v"
  have path: "ch_path ?c = chat_path demo_lib (key_of p)"
    by (simp add: ch_path_def demo_box_chat_def demo_contact_def demo_hash)
  have node: "node_at (net_disk (demo_box p v)) (chat_path demo_lib (key_of p)) = Some (DbNode [])"
    using demo_box_paths [of "key_of p"] by (simp add: demo_box_def node_at_def demo_disk_def)
  have e: "ch_entries ?c = []"
    using path node by (simp add: ch_entries_def) (simp add: demo_box_chat_def demo_entries_def)
  have k: "length (ch_key ?c) = 32" by (simp add: demo_box_chat_def) (simp add: demo_lib_def)
  have "chat_inv ?c" "0 < chat_room ?c"
    using path node e k
    by (simp_all add: chat_inv_def chat_room_def log_room_def log_keys_def log_clean_def)
      (simp_all add: demo_box_chat_def demo_laws)
  moreover have "chat_accepts ?c (from_parts (lit ''Hi'') a ts, replicate 12 b)"
    by (simp add: chat_accepts_def demo_box_chat_def demo_lib_def demo_msg_enc_def from_parts_def rust_str_def
        lit_def scalar_def as_bytes_def utf8_char_def)
  moreover have "load_storage_key demo_lib (key_of p) (key_of n) = Inr (ch_key ?c)"
    by (simp add: load_storage_key_def demo_box_chat_def) (simp add: demo_lib_def)
  ultimately show ?thesis
    using demo_box_load [of p v] by (simp add: inbox_ready_def generate_peer_hash_def)
      (simp add: demo_box_chat_def demo_contact_def demo_hash)
qed

lemma demo_offline_made:
  "\<exists>msg. generate_offline_message demo_lib demo_server ts t' \<lparr>pk_public = x25519_public demo_lib b, pk_verifying = v\<rparr>
      x a (lit ''Hi'') k mn eph bn = Inr msg"
  using demo_sendable
  by (simp add: generate_offline_message_def load_storage_key_def encrypt_message_stored_def generate_blob_def encrypt_blob_def
      demo_lib_def demo_server_def demo_msg_enc_def from_parts_def sendable_def Let_def)

section \<open>Purges\<close>

definition purge_payload :: "'d crypto_lib \<Rightarrow> bytes \<Rightarrow> bytes \<Rightarrow> i64 \<Rightarrow> blob_payload" where
  "purge_payload L my_pub sign ts =
     PurgeBlob (identity_hash L my_pub (ed_public L sign)) (sign_challenge L sign (info ''purge'' @ to_le_bytes ts)) ts"

lemma handle_blob_purge_ok:
  assumes "ed_ok L" and "length k = 32" and "sint (i64_abs (now - ts)) \<le> BLOB_MAX_AGE_SECS"
    and "fst (load_peer_data L (identity_hash L pub (ed_public L k)) (net_disk s)) = Inr peer" and "pk_verifying peer = ed_public L k"
    and "purge_peer_chat L (identity_hash L pub (ed_public L k)) (net_disk s) = (Inr (), d)"
  shows "handle_blob L V now (purge_payload L pub k ts) priv nonce s = (Inr (), s\<lparr>net_disk := d\<rparr>)"
  using assms(3-6) ed_okD(4,5) [OF assms(1,2)]
  by (simp add: handle_blob_def purge_payload_def verify_challenge_def sign_challenge_def on_disk_def [of "purge_peer_chat L h" for h])

lemma generate_purge_Inr:
  assumes "generate_purge_message L V ts t' recipient pub k eph bn = Inr msg"
  obtains pb blob where "blob_to_vec V (purge_payload L pub k ts) = Inr pb" and "encrypt_blob L (pk_public recipient) pb eph bn = Inr blob"
    and "cts_payload msg = SendBlob (generate_peer_hash L recipient) blob"
  using assms that
  by (auto simp: generate_purge_message_def generate_blob_def purge_payload_def and_then_Inr Let_def client_to_server_new_def)

lemma purge_payload_parses:
  assumes "blob_codec_ok V" and "sha_ok L" and "blob_to_vec V (purge_payload L pub k ts) = Inr pb"
  shows "blob_from_slice V pb = Inr (purge_payload L pub k ts)"
  using blob_codec_okD [OF assms(1) _ assms(3)] assms(2)
  by (simp add: purge_payload_def blob_hash_def identity_hash_def sha_ok_def)

text \<open>
  A purge reaches its recipient: the blob \<open>a\<close> makes for \<open>b\<close> is accepted by \<open>b\<close> within 30 days and
  does to \<open>b\<close>'s disk exactly what \<open>purge_peer_chat\<close> does for \<open>a\<close>'s identity.
\<close>

lemma purge_obeyed:
  assumes "hkdf_ok L" and "aead_ok L" and "ed_ok L" and "dh_ok L" and "sha_ok L" and "blob_codec_ok V"
    and "length k = 32" and "length b = 32" and "length eph = 32" and "length bn = 12"
    and gen: "generate_purge_message L V ts t' \<lparr>pk_public = x25519_public L b, pk_verifying = vb\<rparr> pub k eph bn = Inr msg"
    and "sint (i64_abs (now - ts)) \<le> 2592000"
    and "fst (load_peer_data L (identity_hash L pub (ed_public L k)) (net_disk s)) = Inr peer" and "pk_verifying peer = ed_public L k"
    and "purge_peer_chat L (identity_hash L pub (ed_public L k)) (net_disk s) = (Inr (), d)"
  shows "\<exists>blob. cts_payload msg = SendBlob (identity_hash L (x25519_public L b) vb) blob
    \<and> process_blob L V now blob b nonce s = (Inr (), s\<lparr>net_disk := d\<rparr>)"
proof -
  obtain pb blob where pb: "blob_to_vec V (purge_payload L pub k ts) = Inr pb"
    and blob: "encrypt_blob L (x25519_public L b) pb eph bn = Inr blob"
    and pay: "cts_payload msg = SendBlob (identity_hash L (x25519_public L b) vb) blob"
    by (rule generate_purge_Inr [OF gen]) (simp add: generate_peer_hash_def)
  have "process_blob L V now blob b nonce s = (Inr (), s\<lparr>net_disk := d\<rparr>)"
    using encrypt_blob_decrypts [OF assms(1,2,4,9,8,10) blob] purge_payload_parses [OF assms(6,5) pb]
      handle_blob_purge_ok [OF assms(3,7) _ assms(13-15)] assms(12)
    by (simp add: process_blob_def BLOB_MAX_AGE_SECS_def)
  with pay show ?thesis by blast
qed

text \<open>
  A purge is not bound to its recipient: \<open>b\<close>, who opened \<open>a\<close>'s purge, can wrap the same payload
  for a third client \<open>c\<close> that has \<open>a\<close> as a contact, and \<open>c\<close> deletes its conversation with \<open>a\<close>,
  although \<open>a\<close> never asked for that.
\<close>

theorem purge_forwardable:
  assumes "hkdf_ok L" and "aead_ok L" and "ed_ok L" and "dh_ok L" and "sha_ok L" and "blob_codec_ok V"
    and "length k = 32" and "length b = 32" and "length c = 32" and "length eph = 32" and "length bn = 12"
    and "length eph' = 32" and "length bn' = 12"
    and gen: "generate_purge_message L V ts t' \<lparr>pk_public = x25519_public L b, pk_verifying = vb\<rparr> pub k eph bn = Inr msg"
    and "sint (i64_abs (now - ts)) \<le> 2592000"
    and "fst (load_peer_data L (identity_hash L pub (ed_public L k)) (net_disk s)) = Inr peer" and "pk_verifying peer = ed_public L k"
    and "purge_peer_chat L (identity_hash L pub (ed_public L k)) (net_disk s) = (Inr (), d)"
  shows "\<exists>blob opened. cts_payload msg = SendBlob (identity_hash L (x25519_public L b) vb) blob \<and> decrypt_blob L blob b = Inr opened
    \<and> (\<forall>blob'. encrypt_blob L (x25519_public L c) opened eph' bn' = Inr blob' \<longrightarrow>
         process_blob L V now blob' c nonce s = (Inr (), s\<lparr>net_disk := d\<rparr>))"
proof -
  obtain pb blob where pb: "blob_to_vec V (purge_payload L pub k ts) = Inr pb"
    and blob: "encrypt_blob L (x25519_public L b) pb eph bn = Inr blob"
    and pay: "cts_payload msg = SendBlob (identity_hash L (x25519_public L b) vb) blob"
    by (rule generate_purge_Inr [OF gen]) (simp add: generate_peer_hash_def)
  have "process_blob L V now blob' c nonce s = (Inr (), s\<lparr>net_disk := d\<rparr>)"
    if "encrypt_blob L (x25519_public L c) pb eph' bn' = Inr blob'" for blob'
    using encrypt_blob_decrypts [OF assms(1,2,4,12,9,13) that] purge_payload_parses [OF assms(6,5) pb]
      handle_blob_purge_ok [OF assms(3,7) _ assms(16-18)] assms(15)
    by (simp add: process_blob_def BLOB_MAX_AGE_SECS_def)
  then show ?thesis using pay encrypt_blob_decrypts [OF assms(1,2,4,10,8,11) blob] by blast
qed

lemma demo_hash_a: "identity_hash demo_lib (key_of 1) (ed_public demo_lib (key_of 1)) = key_of 1"
  by code_simp

lemma demo_inbox_contact: "fst (load_peer_data demo_lib (key_of 1) (net_disk demo_inbox)) = Inr demo_peer_a"
  unfolding demo_peer_a_eq by code_simp

lemma demo_inbox_purges: "\<exists>d. purge_peer_chat demo_lib (key_of 1) (net_disk demo_inbox) = (Inr (), d)"
proof -
  have "fst (purge_peer_chat demo_lib (key_of 1) (net_disk demo_inbox)) = Inr ()" by code_simp
  then show ?thesis by (metis prod.collapse)
qed

lemma demo_purge_made:
  "\<exists>msg. generate_purge_message demo_lib demo_server ts t' \<lparr>pk_public = x25519_public demo_lib (key_of n), pk_verifying = v\<rparr> (key_of 1) (key_of 1) e bn = Inr msg"
  by (simp add: generate_purge_message_def generate_blob_def encrypt_blob_def demo_lib_def demo_server_def Let_def)

theorem purge_forwardable_witness:
  "\<exists>(msg :: client_to_server) blob opened blob' d. cts_payload msg = SendBlob (identity_hash demo_lib (x25519_public demo_lib (key_of 4)) (key_of 3)) blob
    \<and> decrypt_blob demo_lib blob (key_of 4) = Inr opened
    \<and> encrypt_blob demo_lib (x25519_public demo_lib (key_of 2)) opened (key_of 8) (replicate 12 9) = Inr blob'
    \<and> process_blob demo_lib demo_server 200 blob' (key_of 2) [] demo_inbox = (Inr (), demo_inbox\<lparr>net_disk := d\<rparr>)"
proof -
  obtain msg where gen: "generate_purge_message demo_lib demo_server 100 101 \<lparr>pk_public = x25519_public demo_lib (key_of 4), pk_verifying = key_of 3\<rparr>
       (key_of 1) (key_of 1) (key_of 6) (replicate 12 7) = Inr msg"
    using demo_purge_made by blast
  obtain d where d: "purge_peer_chat demo_lib (key_of 1) (net_disk demo_inbox) = (Inr (), d)" using demo_inbox_purges by blast
  have age: "sint (i64_abs (200 - 100)) \<le> 2592000" by code_simp
  have "\<exists>blob'. encrypt_blob demo_lib (x25519_public demo_lib (key_of 2)) opened (key_of 8) (replicate 12 9) = Inr blob'" for opened
    by (simp add: encrypt_blob_def demo_lib_def)
  then show ?thesis
    using purge_forwardable [where c = "key_of 2" and eph' = "key_of 8" and bn' = "replicate 12 9" and nonce = "[]",
        OF demo_hkdf demo_aead demo_ed demo_dh demo_sha demo_blob_codec length_key_of length_key_of length_key_of length_key_of _
        length_key_of _ gen age, unfolded demo_hash_a, OF _ _ demo_inbox_contact _ d]
    by (simp add: demo_peer_a_def del: demo_x25519) blast
qed

theorem blob_accepted_authentic_witness:
  "\<exists>blob d payload peer. process_blob demo_lib demo_server 200 blob (key_of 2) [] demo_inbox = (Inr (), demo_inbox\<lparr>net_disk := d\<rparr>)
    \<and> fst (load_peer_data demo_lib (blob_hash payload) (net_disk demo_inbox)) = Inr peer
    \<and> authentic_effect demo_lib 200 (key_of 2) [] payload peer True demo_inbox (demo_inbox\<lparr>net_disk := d\<rparr>)"
proof -
  obtain msg where gen: "generate_purge_message demo_lib demo_server 100 101 \<lparr>pk_public = x25519_public demo_lib (key_of 2), pk_verifying = key_of 3\<rparr>
       (key_of 1) (key_of 1) (key_of 6) (replicate 12 7) = Inr msg"
    using demo_purge_made by blast
  obtain d where d: "purge_peer_chat demo_lib (key_of 1) (net_disk demo_inbox) = (Inr (), d)" using demo_inbox_purges by blast
  have age: "sint (i64_abs (200 - 100)) \<le> 2592000" by code_simp
  obtain blob where blob: "process_blob demo_lib demo_server 200 blob (key_of 2) [] demo_inbox = (Inr (), demo_inbox\<lparr>net_disk := d\<rparr>)"
    using purge_obeyed [OF demo_hkdf demo_aead demo_ed demo_dh demo_sha demo_blob_codec length_key_of length_key_of length_key_of _ gen age,
        unfolded demo_hash_a, OF _ demo_inbox_contact _ d] by (auto simp: demo_peer_a_def)
  with blob_accepted_authentic [OF blob] show ?thesis by auto
qed

section \<open>The connection handshake\<close>

text \<open>
  Blobs never touch our own address, and the events they add to those for the core are not about
  the presence of a peer.
\<close>

definition quiet :: "'d net \<Rightarrow> 'd net \<Rightarrow> bool" where
  "quiet s s' \<longleftrightarrow> (\<exists>new. net_events s' = net_events s @ new \<and> (\<forall>h a. EPeerOnline h a \<notin> set new \<and> EPeerOffline h \<notin> set new))"

definition blob_effect :: "'d net \<Rightarrow> 'd net \<Rightarrow> bool" where
  "blob_effect s s' \<longleftrightarrow> net_address s' = net_address s \<and> quiet s s'"

lemma quiet_same: "net_events s' = net_events s \<Longrightarrow> quiet s s'"
  by (simp add: quiet_def)

lemma quiet_trans: "quiet s s' \<Longrightarrow> quiet s' s'' \<Longrightarrow> quiet s s''"
  unfolding quiet_def by (elim exE conjE) (rule_tac x = "new @ newa" in exI, auto)

lemma blob_effect_trans: "transp blob_effect"
  by (rule transpI) (auto simp: blob_effect_def intro: quiet_trans)

lemma blob_effect_ops [simp]:
  "blob_effect s s" "blob_effect s (snd (on_disk m s))" "blob_effect s (snd (op_map_err g (on_disk m) s))"
  "blob_effect s (snd (op_lift r s))" "blob_effect s (snd (send_event (EBlobStored h) s))"
  by (auto simp: blob_effect_def quiet_def on_disk_def send_event_def op_map_err_def op_lift_def split: prod.split)

lemma process_blob_effect: "blob_effect s (snd (process_blob L V now blob priv nonce s))"
proof -
  have "blob_effect s (snd (handle_blob L V now p priv nonce s))" for p s
    by (cases p) (auto simp: handle_blob_def Let_def intro!: op_bind_keeps [OF blob_effect_trans])
  then show ?thesis unfolding process_blob_def by (intro op_bind_keeps [OF blob_effect_trans]) simp_all
qed

lemma ack_blob_net: "ack_blob V now i sc = (r, sc') \<Longrightarrow> fst sc' = fst sc"
  by (auto simp: ack_blob_def send_wrapped_def conn_send_def op_bind_def
      split: sum.splits list.splits option.splits)

declare drain_blobs.simps [simp del]

text \<open>One turn of the drain loop.\<close>

fun drain_skips :: "server_message \<Rightarrow> bool" where
  "drain_skips SPendingBlobsEnd = False"
| "drain_skips (SPendingBlob _ _ _) = False"
| "drain_skips (SAuthFailed _) = False"
| "drain_skips (SError _) = False"
| "drain_skips _ = True"

lemma drain_skip:
  assumes "receive_message V (conn_in (snd sc)) = (Inr msg, ws)" and "drain_skips (stc_payload msg)"
  shows "drain_blobs L V clk rng priv sc = drain_blobs L V clk rng priv (fst sc, (snd sc)\<lparr>conn_in := ws\<rparr>)"
  using assms(2) by (subst drain_blobs.simps) (cases "stc_payload msg"; simp add: assms(1) Let_def)

lemma drain_blob:
  assumes "receive_message V (conn_in (snd sc)) = (Inr msg, ws)" and "stc_payload msg = SPendingBlob i b t"
  shows "drain_blobs L V clk rng priv sc =
    (case ack_blob V (clk (length ws)) i
        (snd (process_blob L V (clk (length ws)) b priv (rng (length ws)) (fst sc)), (snd sc)\<lparr>conn_in := ws\<rparr>) of
       (Inl e, sc') \<Rightarrow> (Inl e, sc') | (Inr _, sc') \<Rightarrow> drain_blobs L V clk rng priv sc')"
  by (subst drain_blobs.simps) (simp add: assms Let_def)

lemma drain_stops:
  assumes "receive_message V (conn_in (snd sc)) = (r, ws)"
    and "\<forall>msg. r = Inr msg \<longrightarrow> \<not> drain_skips (stc_payload msg) \<and> (\<forall>i b t. stc_payload msg \<noteq> SPendingBlob i b t)"
  shows "snd (drain_blobs L V clk rng priv sc) = (fst sc, (snd sc)\<lparr>conn_in := ws\<rparr>)"
proof (cases r)
  case (Inl e)
  then show ?thesis using assms(1) by (subst drain_blobs.simps) simp
next
  case (Inr msg)
  then show ?thesis
    using assms by (subst drain_blobs.simps) (cases "stc_payload msg"; simp add: Let_def)
qed

lemma drain_blobs_effect: "blob_effect (fst sc) (fst (snd (drain_blobs L V clk rng priv sc)))"
proof (induction "length (conn_in (snd sc))" arbitrary: sc rule: less_induct)
  case less
  obtain r ws where rm: "receive_message V (conn_in (snd sc)) = (r, ws)" by fastforce
  let ?c = "(snd sc)\<lparr>conn_in := ws\<rparr>" and ?n = "length ws"
  consider (skip) msg where "r = Inr msg" "drain_skips (stc_payload msg)"
    | (blob) msg i b t where "r = Inr msg" "stc_payload msg = SPendingBlob i b t"
    | (stop) "\<forall>msg. r = Inr msg \<longrightarrow> \<not> drain_skips (stc_payload msg) \<and> (\<forall>i b t. stc_payload msg \<noteq> SPendingBlob i b t)"
    by blast
  then show ?case
  proof cases
    case skip
    have "length ws < length (conn_in (snd sc))" using rm skip(1) by (simp add: receive_message_shorter)
    then show ?thesis using less [of "(fst sc, ?c)"] drain_skip [OF rm [unfolded skip(1)] skip(2)] by simp
  next
    case blob
    let ?s = "snd (process_blob L V (clk ?n) b priv (rng ?n) (fst sc))"
    obtain r' sc' where a: "ack_blob V (clk ?n) i (?s, ?c) = (r', sc')" by (meson surj_pair)
    have "length (conn_in (snd sc')) < length (conn_in (snd sc))"
      using ack_blob_in [OF a] rm blob(1) by (simp add: receive_message_shorter)
    moreover have "blob_effect (fst sc) (fst sc')"
      using ack_blob_net [OF a] by (simp add: process_blob_effect)
    ultimately show ?thesis
      using less [of sc'] drain_blob [OF rm [unfolded blob(1)] blob(2)] a transpD [OF blob_effect_trans, of "fst sc" "fst sc'"]
      by (simp split: sum.split)
  next
    case stop
    then show ?thesis using drain_stops [OF rm stop] by simp
  qed
qed

text \<open>The bytes of one announcement of \<open>addr\<close> to a peer.\<close>

definition announcement :: "'d crypto_lib \<Rightarrow> server_lib \<Rightarrow> i64 \<Rightarrow> bytes \<Rightarrow> rstr \<Rightarrow> peer_public \<Rightarrow> bytes \<Rightarrow> bool" where
  "announcement L V now privkey addr peer b \<longleftrightarrow> (\<exists>token. presence_token L privkey (pk_public peer) now = Inr token
     \<and> cts_to_vec V \<lparr>cts_payload = Announce token addr, cts_timestamp = now\<rparr> = Inr b)"

lemma send_wrapped_Inr:
  "send_wrapped V m sc = (Inr (), sc') \<Longrightarrow> \<exists>b. cts_to_vec V m = Inr b \<and> fst sc' = fst sc \<and> conn_out (snd sc') = conn_out (snd sc) @ [b]"
  by (auto simp: send_wrapped_def conn_send_def op_bind_def map_err_def split: sum.splits list.splits option.splits)

lemma announce_all_Inr:
  assumes "announce_all L V now priv addr peers sc = (Inr (), sc')"
  shows "fst sc' = fst sc \<and> (\<exists>bs. conn_out (snd sc') = conn_out (snd sc) @ bs \<and> list_all2 (announcement L V now priv addr) peers bs)"
  using assms
proof (induction peers arbitrary: sc)
  case (Cons peer peers)
  obtain token sc1 where t: "presence_token L priv (pk_public peer) now = Inr token"
    and s: "send_wrapped V (client_to_server_new now (Announce token addr) None) sc = (Inr (), sc1)"
    and r: "announce_all L V now priv addr peers sc1 = (Inr (), sc')"
    using Cons.prems by (auto simp: op_bind_def generate_announce_message_def and_then_Inr split: prod.splits sum.splits)
  from send_wrapped_Inr [OF s] obtain b where b: "cts_to_vec V (client_to_server_new now (Announce token addr) None) = Inr b"
    "fst sc1 = fst sc" "conn_out (snd sc1) = conn_out (snd sc) @ [b]" by blast
  from Cons.IH [OF r] obtain bs where "fst sc' = fst sc1" "conn_out (snd sc') = conn_out (snd sc1) @ bs"
    "list_all2 (announcement L V now priv addr) peers bs" by blast
  moreover have "announcement L V now priv addr peer b"
    using t b(1) by (simp add: announcement_def client_to_server_new_def)
  ultimately show ?case using b(2,3) by (intro conjI exI [of _ "b # bs"]) simp_all
qed simp

lemma op_bind_InrD: "op_bind m f s = (Inr b, s'') \<Longrightarrow> \<exists>a s'. m s = (Inr a, s') \<and> f a s' = (Inr b, s'')"
  by (auto simp: op_bind_def split: prod.splits sum.splits)

text \<open>The state after authentication: our address recorded and the event sent.\<close>

definition authenticated :: "rstr \<Rightarrow> rstr \<Rightarrow> 'd net \<Rightarrow> 'd net" where
  "authenticated addr observed s =
     (let s1 = snd (get_or_set_my_address (Some addr) s) in s1\<lparr>net_events := net_events s1 @ [EAuthenticated observed]\<rparr>)"

lemma handshake_Inr:
  assumes "server_initial_handshake L V now clk rng public signing privkey udp_port over sc = (Inr observed, sc')"
  obtains c sc4 peers where
    "drain_blobs L V clk rng privkey (authenticated (announce_address over observed udp_port) observed (fst sc), c) = (Inr (), sc4)"
    and "fst (load_peers L (net_disk (fst sc4))) = Inr peers"
    and "announce_all L V (clk 0) privkey observed peers sc4 = (Inr (), sc')"
proof -
  obtain m sc1 resp sc2 obs sc3 sc4 sc5 peers where
    w: "send_wrapped V m sc = (Inr (), sc1)" and r: "conn_recv V sc1 = (Inr resp, sc2)"
    and n: "on_net (\<lambda>s. (Inr (), snd (get_or_set_my_address (Some (announce_address over obs udp_port)) s))) sc2 = (Inr () :: client_errors + unit, sc3)"
    and e: "\<exists>scx. on_net (send_event (EAuthenticated obs)) sc3 = (Inr () :: client_errors + unit, scx) \<and> drain_blobs L V clk rng privkey scx = (Inr (), sc4)"
    and p: "op_map_err (\<lambda>e. PeerLoadFailed (debug_crypto V e)) (on_net (on_disk (load_peers L))) sc4 = (Inr peers, sc5)"
    and a: "announce_all L V (clk 0) privkey obs peers sc5 = (Inr (), sc')" and o: "obs = observed"
    using assms unfolding server_initial_handshake_def
    by (auto simp: op_ret_def op_lift_def dest!: op_bind_InrD)
  have "fst sc1 = fst sc" using send_wrapped_Inr [OF w] by blast
  moreover have "fst sc2 = fst sc1" using r by (auto simp: conn_recv_def split: prod.splits)
  ultimately have "on_net (send_event (EAuthenticated obs)) sc3 =
      (Inr () :: client_errors + unit, (authenticated (announce_address over obs udp_port) obs (fst sc), snd sc2))"
    using n by (auto simp: on_net_def send_event_def authenticated_def Let_def)
  moreover have "on_disk (load_peers L) (fst sc4) = (fst (load_peers L (net_disk (fst sc4))), fst sc4)"
    by (rule on_disk_pure) simp
  then have "fst (load_peers L (net_disk (fst sc4))) = Inr peers" "sc5 = sc4"
    using p by (auto simp: op_map_err_def on_net_def prod_eq_iff split: prod.splits)
  ultimately show ?thesis using that e a o by auto
qed

text \<open>
  When the connection handshake succeeds, the address the client records for later
  announcements is the configured override or else the observed host with the client's UDP port;
  but the announcements the handshake itself sends, one to each contact, carry the address the
  server observed for the web socket, which is also what it returns.
\<close>

theorem handshake_addresses:
  assumes "server_initial_handshake L V now clk rng public signing privkey udp_port over (s, c) = (Inr observed, (s', c'))"
    and "\<not> net_address_poisoned s"
  shows "net_address s' = Some (announce_address over observed udp_port)
    \<and> (\<exists>peers before bs. fst (load_peers L (net_disk s')) = Inr peers \<and> conn_out c' = before @ bs
         \<and> list_all2 (announcement L V (clk 0) privkey observed) peers bs)"
proof -
  let ?A = "announce_address over observed udp_port"
  obtain c1 sc4 peers where d: "drain_blobs L V clk rng privkey (authenticated ?A observed s, c1) = (Inr (), sc4)"
    and l: "fst (load_peers L (net_disk (fst sc4))) = Inr peers"
    and a: "announce_all L V (clk 0) privkey observed peers sc4 = (Inr (), (s', c'))"
    by (rule handshake_Inr [OF assms(1)]) simp
  from announce_all_Inr [OF a] obtain bs where s': "s' = fst sc4"
    and bs: "conn_out c' = conn_out (snd sc4) @ bs" "list_all2 (announcement L V (clk 0) privkey observed) peers bs"
    by auto
  have "net_address (authenticated ?A observed s) = Some ?A"
    using assms(2) by (simp add: authenticated_def get_or_set_my_address_def Let_def)
  then have "net_address (fst sc4) = Some ?A"
    using drain_blobs_effect [of "(authenticated ?A observed s, c1)" L V clk rng privkey] d by (simp add: blob_effect_def)
  then show ?thesis using s' bs l by blast
qed

definition demo_home :: "demo_db net" where
  "demo_home = demo_inbox\<lparr>net_disk := demo_disk [(peers_dir demo_lib, DirNode)]\<rparr>"

definition demo_conn :: conn where
  "demo_conn = \<lparr>conn_in = [WsBinary (as_bytes (lit ''h:9'')), WsOther, WsBinary [1]], conn_faults = [], conn_out = []\<rparr>"

theorem handshake_addresses_witness:
  "\<exists>s' c'. server_initial_handshake demo_lib demo_server 100 (\<lambda>_. 101) (\<lambda>_. []) (key_of 1) (key_of 1) (key_of 1) 7 None (demo_home, demo_conn)
       = (Inr (lit ''h:9''), (s', c')) \<and> net_address s' = Some (lit ''h:7'')"
proof -
  have "fst (server_initial_handshake demo_lib demo_server 100 (\<lambda>_. 101) (\<lambda>_. []) (key_of 1) (key_of 1) (key_of 1) 7 None (demo_home, demo_conn))
      = Inr (lit ''h:9'')"
    by code_simp
  then obtain s' c' where h: "server_initial_handshake demo_lib demo_server 100 (\<lambda>_. 101) (\<lambda>_. []) (key_of 1) (key_of 1) (key_of 1) 7 None (demo_home, demo_conn)
      = (Inr (lit ''h:9''), (s', c'))"
    by (metis prod.collapse)
  have p: "\<not> net_address_poisoned demo_home" by (simp add: demo_home_def demo_inbox_def)
  have "announce_address None (lit ''h:9'') 7 = lit ''h:7''" by code_simp
  then show ?thesis using handshake_addresses [OF h p] h by auto
qed

end
