(* ===== verification/Server_Loops.thy ===== *)
theory Server_Loops
  imports Server_Handlers
begin

text \<open>
  The tasks of a server connection (\<^verbatim>\<open>crates/serverclient/src/lib.rs\<close>): dispatching received
  messages, refreshing presence, writing and reading the web socket, and \<^verbatim>\<open>run_client\<close> that
  connects, shakes hands and starts them. Each loop is a function of what it takes in turn by turn;
  whether the channel or socket it feeds still takes messages is part of each turn.
\<close>

section \<open>Definitions\<close>

text \<open>The URL of the server; \<open>insecure\<close> tells whether \<^verbatim>\<open>SECHAT_DEV_INSECURE\<close> is set.\<close>

definition server_url :: "bool \<Rightarrow> rstr \<Rightarrow> rstr" where
  "server_url insecure server_address =
     (if insecure then lit ''ws'' else lit ''wss'') @ lit ''://'' @ server_address @ lit ''/ws''"

text \<open>\<^verbatim>\<open>connect\<close> is the outcome of opening the socket: an error text or the connection.\<close>

definition run_client ::
  "'d crypto_lib \<Rightarrow> server_lib \<Rightarrow> (rstr \<Rightarrow> rstr + conn) \<Rightarrow> bool \<Rightarrow> i64 \<Rightarrow> (nat \<Rightarrow> i64) \<Rightarrow> (nat \<Rightarrow> bytes)
   \<Rightarrow> bytes \<Rightarrow> bytes \<Rightarrow> bytes \<Rightarrow> rstr \<Rightarrow> nat \<Rightarrow> rstr option \<Rightarrow> ('d net, client_errors, conn) op" where
  "run_client L V connect insecure now clk rng public signing privkey server_address udp_port announce_override s =
     (case connect (server_url insecure server_address) of
        Inl e \<Rightarrow> (Inl (ConnectionFailed e), s)
      | Inr c \<Rightarrow>
          (case server_initial_handshake L V now clk rng public signing privkey udp_port announce_override (s, c) of
             (Inl e, (s', _)) \<Rightarrow> (Inl e, s')
           | (Inr _, (s', c')) \<Rightarrow> (Inr c', s')))"

text \<open>When any of the four tasks ends, the core is told.\<close>

definition connection_ended :: "'d net \<Rightarrow> 'd net" where
  "connection_ended s = snd (send_event EDisconnected s :: (client_errors + unit) \<times> 'd net)"

text \<open>
  One turn of the dispatcher per received message: the clock, a random nonce, whether the
  outgoing channel is open. Errors are printed and the loop goes on.
\<close>

fun main_dispatch_loop ::
  "'d crypto_lib \<Rightarrow> server_lib \<Rightarrow> bytes \<Rightarrow> (i64 \<times> bytes \<times> bool \<times> server_to_client) list \<Rightarrow> 'd net
   \<Rightarrow> client_to_server list \<times> 'd net" where
  "main_dispatch_loop L V privkey [] s = ([], s)"
| "main_dispatch_loop L V privkey ((now, nonce, up, msg) # ms) s =
     (case handle_message L V now msg privkey nonce s of
        (Inr (Some response), s') \<Rightarrow>
          if up then (case main_dispatch_loop L V privkey ms s' of (out, s'') \<Rightarrow> (response # out, s''))
          else ([], s')
      | (_, s') \<Rightarrow> main_dispatch_loop L V privkey ms s')"

text \<open>
  The announcements of one presence tick, and whether the loop goes on. The tokens are of the time \<open>timestamp\<close>; each
  message is stamped with a reading of the clock of its own, \<open>clk k\<close> when \<open>k\<close> contacts are left.
\<close>

fun announce_peers ::
  "'d crypto_lib \<Rightarrow> i64 \<Rightarrow> (nat \<Rightarrow> i64) \<Rightarrow> bytes \<Rightarrow> rstr \<Rightarrow> bool list \<Rightarrow> peer_public list \<Rightarrow> client_to_server list \<times> bool" where
  "announce_peers L timestamp clk privkey address ups [] = ([], True)"
| "announce_peers L timestamp clk privkey address ups (peer # peers) =
     (case generate_announce_message L privkey (pk_public peer) timestamp address of
        Inl _ \<Rightarrow> announce_peers L timestamp clk privkey address ups peers
      | Inr msg \<Rightarrow>
          (case ups of
             False # _ \<Rightarrow> ([], False)
           | _ \<Rightarrow> (case announce_peers L timestamp clk privkey address (tl ups) peers of
               (out, go) \<Rightarrow> (client_to_server_new (clk (length peers)) msg None # out, go))))"

definition presence_refresh_tick ::
  "'d crypto_lib \<Rightarrow> i64 \<Rightarrow> (nat \<Rightarrow> i64) \<Rightarrow> bytes \<Rightarrow> bool list \<Rightarrow> 'd net \<Rightarrow> client_to_server list \<times> bool" where
  "presence_refresh_tick L timestamp clk privkey ups s =
     (case fst (get_or_set_my_address None s) of
        None \<Rightarrow> ([], True)
      | Some address \<Rightarrow>
          (case fst (load_peers L (net_disk s)) of
             Inl _ \<Rightarrow> ([], True)
           | Inr peers \<Rightarrow> announce_peers L timestamp clk privkey address ups peers))"

text \<open>The writer: messages that do not serialise are skipped, a failed send ends it.\<close>

fun write_loop :: "server_lib \<Rightarrow> (client_to_server \<times> bool) list \<Rightarrow> bytes list" where
  "write_loop V [] = []"
| "write_loop V ((msg, up) # ms) =
     (case cts_to_vec V msg of
        Inl _ \<Rightarrow> write_loop V ms
      | Inr b \<Rightarrow> if up then b # write_loop V ms else [])"

text \<open>The reader: \<open>up\<close> tells whether the dispatcher's channel is open.\<close>

fun read_loop :: "server_lib \<Rightarrow> (ws_event \<times> bool) list \<Rightarrow> server_to_client list" where
  "read_loop V [] = []"
| "read_loop V ((WsBinary data, up) # ms) =
     (case parse_server_message V data of
        Inl _ \<Rightarrow> read_loop V ms
      | Inr m \<Rightarrow> if up then m # read_loop V ms else [])"
| "read_loop V ((WsClose, up) # ms) = []"
| "read_loop V ((WsOther, up) # ms) = read_loop V ms"
| "read_loop V ((WsError e, up) # ms) = []"

section \<open>Properties\<close>

fun pending_id :: "server_message \<Rightarrow> rstr option" where
  "pending_id (SPendingBlob i _ _) = Some i"
| "pending_id _ = None"

fun acked_id :: "client_message \<Rightarrow> rstr option" where
  "acked_id (AckBlob i) = Some i"
| "acked_id _ = None"

definition acked_of :: "client_to_server \<Rightarrow> rstr option" where
  "acked_of m = acked_id (cts_payload m)"

definition pending_of :: "i64 \<times> bytes \<times> bool \<times> server_to_client \<Rightarrow> rstr option" where
  "pending_of x = (case x of (_, _, _, msg) \<Rightarrow> pending_id (stc_payload msg))"

lemma pending_of_simp [simp]: "pending_of (now, nonce, up, msg) = pending_id (stc_payload msg)"
  by (simp add: pending_of_def)

lemma acked_of_simp [simp]: "acked_of \<lparr>cts_payload = m, cts_timestamp = t\<rparr> = acked_id m"
  by (simp add: acked_of_def)

lemma handle_pending:
  assumes "pending_id (stc_payload msg) = Some i"
  shows "fst (handle_message L V now msg priv nonce s) = Inr (Some \<lparr>cts_payload = AckBlob i, cts_timestamp = now\<rparr>)"
  using assms by (cases "stc_payload msg")
    (simp_all add: handle_message_def generate_ack_blob_def client_to_server_new_def split: prod.split)

lemma handle_other:
  assumes "pending_id (stc_payload msg) = None" and "handle_message L V now msg priv nonce s = (Inr (Some m), s')"
  shows "acked_of m = None"
  using assms by (cases "stc_payload msg")
    (auto simp: handle_message_def acked_of_def client_to_server_new_def op_bind_def op_ret_def split: prod.splits sum.splits)

text \<open>
  C30: While the outgoing channel is open, the dispatcher acknowledges every pending blob it
  receives, exactly once and in order, whatever the blobs contain and whatever other messages
  (errors included) come between them.
\<close>

theorem dispatch_acks_every_blob:
  assumes "\<forall>(now, nonce, up, msg) \<in> set ms. up"
  shows "List.map_filter acked_of (fst (main_dispatch_loop L V priv ms s)) = List.map_filter pending_of ms"
  using assms
proof (induction ms arbitrary: s)
  case (Cons x ms)
  obtain now nonce up msg where x: "x = (now, nonce, up, msg)" by (cases x)
  with Cons.prems have up: up by simp
  have IH: "List.map_filter acked_of (fst (main_dispatch_loop L V priv ms s')) = List.map_filter pending_of ms" for s'
    by (rule Cons.IH) (use Cons.prems in simp)
  obtain r s' where h: "handle_message L V now msg priv nonce s = (r, s')" by fastforce
  show ?case
  proof (cases "pending_id (stc_payload msg)")
    case None
    then show ?thesis
      using x up IH [of s'] h handle_other [OF None, of L V now priv nonce s]
      by (auto simp: map_filter_simps split: sum.split option.split prod.split)
  next
    case (Some i)
    then show ?thesis
      using x up IH [of s'] h handle_pending [OF Some, of L V now priv nonce s]
      by (auto simp: map_filter_simps split: prod.split)
  qed
qed (simp add: map_filter_simps)

theorem dispatch_acks_every_blob_witness:
  "List.map_filter acked_of (fst (main_dispatch_loop demo_lib demo_server (key_of 2)
     [(1, [], True, \<lparr>stc_payload = SPendingBlob (lit ''x'') [9] 0, stc_timestamp = 0\<rparr>),
      (2, [], True, \<lparr>stc_payload = SError (lit ''bad''), stc_timestamp = 0\<rparr>),
      (3, [], True, \<lparr>stc_payload = SPendingBlob (lit ''y'') [] 0, stc_timestamp = 0\<rparr>)] demo_inbox)) = [lit ''x'', lit ''y'']"
  by (subst dispatch_acks_every_blob) (simp_all add: map_filter_simps)

text \<open>The tokens a client shares with a list of peers at a time.\<close>

lemma presence_tokens_exist:
  fixes peers :: "peer_public list"
  assumes "hkdf_ok L"
  obtains tokens where "map (\<lambda>p. presence_token L privkey (pk_public p) now) peers = map Inr tokens"
proof -
  have "\<exists>t. presence_token L privkey (pk_public p) now = Inr t" for p :: peer_public
  proof -
    obtain k where "hkdf_expand L (diffie_hellman L privkey (pk_public p)) (info ''presence'') 32 = Some k"
      using assms by (rule hkdf_okE [where n = 32]) simp_all
    then show ?thesis by (simp add: presence_token_def)
  qed
  then have "\<exists>tokens. map (\<lambda>p. presence_token L privkey (pk_public p) now) ps = map Inr tokens" for ps :: "peer_public list"
    by (induction ps) (simp, metis list.simps(9))
  then show ?thesis using that by blast
qed

lemma announce_peers_tokens:
  assumes "map (\<lambda>p. presence_token L privkey (pk_public p) now) peers = map Inr tokens" and "list_all (\<lambda>b. b) ups"
  shows "map cts_payload (fst (announce_peers L now clk privkey address ups peers)) = map (\<lambda>t. Announce t address) tokens"
    and "snd (announce_peers L now clk privkey address ups peers)"
proof -
  have "map cts_payload (fst (announce_peers L now clk privkey address ups peers)) = map (\<lambda>t. Announce t address) tokens
      \<and> snd (announce_peers L now clk privkey address ups peers)"
    using assms
  proof (induction peers arbitrary: tokens ups)
    case (Cons p ps)
    then obtain t ts where t: "tokens = t # ts" "presence_token L privkey (pk_public p) now = Inr t"
      "map (\<lambda>p. presence_token L privkey (pk_public p) now) ps = map Inr ts" by (cases tokens) auto
    have "list_all (\<lambda>b. b) (tl ups)" using Cons.prems(2) by (cases ups) simp_all
    from Cons.IH [OF t(3) this] show ?case
      using t Cons.prems(2) by (cases ups) (auto simp: generate_announce_message_def client_to_server_new_def split: prod.split)
  qed simp
  then show "map cts_payload (fst (announce_peers L now clk privkey address ups peers)) = map (\<lambda>t. Announce t address) tokens"
    and "snd (announce_peers L now clk privkey address ups peers)" by blast+
qed

text \<open>
  A presence tick with an open channel announces our current address to every contact, once,
  under the presence token shared with that contact at that time.
\<close>

lemma presence_tick_announces_all:
  assumes "hkdf_ok L" and "fst (get_or_set_my_address None s) = Some address"
    and "fst (load_peers L (net_disk s)) = Inr peers" and "list_all (\<lambda>b. b) ups"
  obtains tokens where "map cts_payload (fst (presence_refresh_tick L now clk privkey ups s)) = map (\<lambda>t. Announce t address) tokens"
    and "snd (presence_refresh_tick L now clk privkey ups s)"
    and "map (\<lambda>p. presence_token L privkey (pk_public p) now) peers = map Inr tokens"
proof -
  obtain tokens where "map (\<lambda>p. presence_token L privkey (pk_public p) now) peers = map Inr tokens"
    using presence_tokens_exist [OF assms(1)] .
  then show ?thesis
    using announce_peers_tokens [OF _ assms(4), of L privkey now peers tokens clk address] assms(2,3)
    by (intro that [of tokens]) (simp_all add: presence_refresh_tick_def)
qed

end
