(* ===== verification/Client_Retry.thy ===== *)
theory Client_Retry
  imports Server_Loops
begin

text \<open>
  The retry ladder of the client core (\<^verbatim>\<open>crates/client/src/lib.rs\<close>): connect intents, the pure
  decision \<^verbatim>\<open>next_retry_action\<close>, the exponential backoff, one pass of \<^verbatim>\<open>drive_retries\<close> and any number of them. A hash map
  is the list of its entries in iteration order. Instants are nanoseconds of a monotonic clock.
\<close>

section \<open>Events of the client\<close>

text \<open>\<^verbatim>\<open>AppEvent\<close>, the constructors with an \<open>A\<close> in front.\<close>

datatype app_event =
  AConnected rstr
| APeerOnline bytes
| APeerOffline bytes
| AMessageArrived bytes bool
| AHolePunchDenied bytes rstr
| ASessionUp bytes bool
| ASessionDown bytes
| AConnectRetrying bytes "32 word" u64
| AConnectGaveUp bytes
| ADisconnected
| AError rstr

section \<open>Intents\<close>

type_synonym instant = nat

definition secs :: "u64 \<Rightarrow> nat" where
  "secs w = unat w * 1000000000"

definition MAX_CONNECT_ATTEMPTS :: "32 word" where
  "MAX_CONNECT_ATTEMPTS = 5"

definition RETRY_BACKOFF_CAP_SECS :: u64 where
  "RETRY_BACKOFF_CAP_SECS = 30"

record connect_intent =
  ci_attempts :: "32 word"
  ci_backoff_secs :: u64
  ci_due_at :: instant
  ci_online :: bool

definition armed :: "instant \<Rightarrow> bool \<Rightarrow> connect_intent" where
  "armed now on = \<lparr>ci_attempts = 0, ci_backoff_secs = 1, ci_due_at = now, ci_online = on\<rparr>"

definition rearm :: "instant \<Rightarrow> connect_intent \<Rightarrow> connect_intent" where
  "rearm now i = i\<lparr>ci_attempts := 0, ci_backoff_secs := 1, ci_due_at := now\<rparr>"

datatype retry_action = Punch | GiveUp | Wait | Done

definition next_retry_action :: "connect_intent \<Rightarrow> bool \<Rightarrow> instant \<Rightarrow> retry_action" where
  "next_retry_action intent has_session now =
     (if has_session then Done
      else if \<not> ci_online intent then Wait
      else if ci_attempts intent > MAX_CONNECT_ATTEMPTS then Wait
      else if ci_attempts intent = MAX_CONNECT_ATTEMPTS then GiveUp
      else if now < ci_due_at intent then Wait
      else Punch)"

definition bump_backoff :: "u64 \<Rightarrow> u64" where
  "bump_backoff current = min (current * 2) RETRY_BACKOFF_CAP_SECS"

definition peer_is_online :: "'d crypto_lib \<Rightarrow> i64 \<Rightarrow> bytes \<Rightarrow> 'd net \<Rightarrow> bool \<times> 'd net" where
  "peer_is_online L now peer s =
     (case load_online_peers now s of
        (r, s') \<Rightarrow> (\<exists>p \<in> set (unwrap_or [] r). identity_hash L (pk_public (op_keys p)) (pk_verifying (op_keys p)) = peer, s'))"

section \<open>Driving them\<close>

text \<open>
  \<open>up\<close>: whether the channel to the server takes the message. The result: whether the request
  left, the message sent, the events for the user.
\<close>

definition send_punch_request ::
  "'d crypto_lib \<Rightarrow> i64 \<Rightarrow> bytes \<Rightarrow> bool \<Rightarrow> bytes \<Rightarrow> 'd disk \<Rightarrow> bool \<times> client_to_server list \<times> app_event list" where
  "send_punch_request L now priv up peer d =
     (case fst (load_peer_data L peer d) of
        Inl e \<Rightarrow> (False, [], [AError (lit ''unknown peer: '' @ show_crypto_errors L e)])
      | Inr peer_pub \<Rightarrow>
          (case generate_p2p_request L now (pk_public peer_pub) priv of
             Inr msg \<Rightarrow>
               if up then (True, [client_to_server_new now msg None], [])
               else (False, [], [AError (lit ''not connected to relay'')])
           | Inl e \<Rightarrow> (False, [], [AError (lit ''connect request failed: '' @ show_client_errors e)])))"

text \<open>The body of the loop for one intent; \<open>sent\<close> is the outcome of the request, if one is made.\<close>

definition drive_intent :: "bool \<Rightarrow> instant \<Rightarrow> bool \<Rightarrow> bytes \<Rightarrow> connect_intent \<Rightarrow> connect_intent \<times> app_event list" where
  "drive_intent has_session now sent peer intent =
     (case next_retry_action intent has_session now of
        Done \<Rightarrow>
          (if ci_attempts intent \<noteq> 0 \<or> ci_backoff_secs intent \<noteq> 1 then rearm now intent else intent, [])
      | Punch \<Rightarrow>
          if sent then
            (intent\<lparr>ci_attempts := ci_attempts intent + 1, ci_due_at := now + secs (ci_backoff_secs intent),
                    ci_backoff_secs := bump_backoff (ci_backoff_secs intent)\<rparr>,
             [AConnectRetrying peer (ci_attempts intent + 1) (ci_backoff_secs intent)])
          else
            (intent\<lparr>ci_due_at := now + secs (max (ci_backoff_secs intent) 1),
                    ci_backoff_secs := bump_backoff (ci_backoff_secs intent)\<rparr>, [])
      | GiveUp \<Rightarrow> (intent\<lparr>ci_attempts := MAX_CONNECT_ATTEMPTS + 1\<rparr>, [AConnectGaveUp peer])
      | Wait \<Rightarrow> (intent, []))"

fun drive_retries ::
  "'d crypto_lib \<Rightarrow> i64 \<Rightarrow> bytes \<Rightarrow> (bytes \<Rightarrow> bool) \<Rightarrow> bytes set \<Rightarrow> bytes set \<Rightarrow> instant \<Rightarrow> 'd disk
   \<Rightarrow> (bytes \<times> connect_intent) list \<Rightarrow> (bytes \<times> connect_intent) list \<times> client_to_server list \<times> app_event list" where
  "drive_retries L ts priv up live in_flight now d [] = ([], [], [])"
| "drive_retries L ts priv up live in_flight now d ((peer, intent) # intents) =
     (let has_session = (peer \<in> live \<or> peer \<in> in_flight);
          (sent, msgs, errs) =
            (if next_retry_action intent has_session now = Punch then send_punch_request L ts priv (up peer) peer d
             else (False, [], []));
          (intent', evs) = drive_intent has_session now sent peer intent;
          (intents', msgs', evs') = drive_retries L ts priv up live in_flight now d intents
      in ((peer, intent') # intents', msgs @ msgs', errs @ evs @ evs'))"

section \<open>Bounds\<close>

text \<open>Attempts never pass the parking value and delays stay between 1 and 30 seconds.\<close>

definition intent_ok :: "connect_intent \<Rightarrow> bool" where
  "intent_ok i \<longleftrightarrow> ci_attempts i \<le> MAX_CONNECT_ATTEMPTS + 1 \<and> 1 \<le> ci_backoff_secs i \<and> ci_backoff_secs i \<le> RETRY_BACKOFF_CAP_SECS"

lemma bump_backoff_nat: "w \<le> 30 \<Longrightarrow> unat (bump_backoff w) = min (2 * unat w) 30"
proof -
  assume "w \<le> 30"
  then have w: "unat w \<le> 30" by (simp add: word_le_nat_alt)
  then have "unat (w * 2) = unat w * 2" by (simp add: unat_word_ariths)
  then show ?thesis
    by (simp add: bump_backoff_def RETRY_BACKOFF_CAP_SECS_def min_def word_le_nat_alt)
qed

lemma bump_backoff_bounds:
  assumes "1 \<le> w" and "w \<le> RETRY_BACKOFF_CAP_SECS"
  shows "1 \<le> bump_backoff w \<and> bump_backoff w \<le> RETRY_BACKOFF_CAP_SECS"
  using bump_backoff_nat [of w] assms by (simp add: word_le_nat_alt RETRY_BACKOFF_CAP_SECS_def)

lemma attempts_succ: "a < 5 \<Longrightarrow> unat (a + 1) = unat a + 1" for a :: "32 word"
  by (simp add: word_less_nat_alt unat_word_ariths)

lemma next_punch_iff:
  "next_retry_action i has now = Punch \<longleftrightarrow> \<not> has \<and> ci_online i \<and> ci_attempts i < 5 \<and> ci_due_at i \<le> now"
  by (auto simp: next_retry_action_def MAX_CONNECT_ATTEMPTS_def)

lemma next_give_up_iff:
  "next_retry_action i has now = GiveUp \<longleftrightarrow> \<not> has \<and> ci_online i \<and> ci_attempts i = 5"
  by (auto simp: next_retry_action_def MAX_CONNECT_ATTEMPTS_def)

lemma next_done_iff: "next_retry_action i has now = Done \<longleftrightarrow> has"
  by (auto simp: next_retry_action_def)

lemma drive_intent_ok:
  assumes "intent_ok i"
  shows "intent_ok (fst (drive_intent has now sent peer i))"
proof (cases "next_retry_action i has now")
  case Punch
  then have "ci_attempts i < 5" by (simp add: next_punch_iff)
  then have "ci_attempts i + 1 \<le> 6" using attempts_succ by (simp add: word_le_nat_alt word_less_nat_alt)
  then show ?thesis
    using assms Punch bump_backoff_bounds [of "ci_backoff_secs i"]
    by (auto simp: drive_intent_def intent_ok_def MAX_CONNECT_ATTEMPTS_def)
next
  case Done
  then show ?thesis using assms by (simp add: drive_intent_def intent_ok_def rearm_def RETRY_BACKOFF_CAP_SECS_def)
qed (use assms in \<open>simp_all add: drive_intent_def intent_ok_def\<close>)

section \<open>Presence events and the life of the intents\<close>

text \<open>What the core does to an intent when its peer comes online or goes offline.\<close>

definition intent_online :: "instant \<Rightarrow> bytes \<Rightarrow> (bytes \<times> connect_intent) list \<Rightarrow> (bytes \<times> connect_intent) list" where
  "intent_online now h is = map (\<lambda>(p, i). (p, if p \<noteq> h then i else
     let i' = i\<lparr>ci_online := True\<rparr> in if ci_attempts i' > MAX_CONNECT_ATTEMPTS then rearm now i' else i')) is"

definition intent_offline :: "bytes \<Rightarrow> (bytes \<times> connect_intent) list \<Rightarrow> (bytes \<times> connect_intent) list" where
  "intent_offline h is = map (\<lambda>(p, i). (p, if p = h then i\<lparr>ci_online := False\<rparr> else i)) is"

text \<open>\<^verbatim>\<open>HashMap::insert\<close> and \<^verbatim>\<open>remove\<close>; a new key may enter the iteration order anywhere, here at the end.\<close>

definition intents_insert :: "bytes \<Rightarrow> connect_intent \<Rightarrow> (bytes \<times> connect_intent) list \<Rightarrow> (bytes \<times> connect_intent) list" where
  "intents_insert h i is =
     (if h \<in> fst ` set is then map (\<lambda>(p, j). (p, if p = h then i else j)) is else is @ [(h, i)])"

definition intents_remove :: "bytes \<Rightarrow> (bytes \<times> connect_intent) list \<Rightarrow> (bytes \<times> connect_intent) list" where
  "intents_remove h is = filter (\<lambda>(p, _). p \<noteq> h) is"

inductive intents_step ::
  "'d crypto_lib \<times> (bytes \<times> connect_intent) list \<Rightarrow> 'd crypto_lib \<times> (bytes \<times> connect_intent) list \<Rightarrow> bool" where
  step_tick: "intents_step (L, is) (L, fst (drive_retries L ts priv up live in_flight now d is))"
| step_connect: "intents_step (L, is) (L, intents_insert h (armed now on) is)"
| step_remove: "intents_step (L, is) (L, intents_remove h is)"
| step_online: "intents_step (L, is) (L, intent_online now h is)"
| step_offline: "intents_step (L, is) (L, intent_offline h is)"

definition intents_init :: "'d crypto_lib \<times> (bytes \<times> connect_intent) list \<Rightarrow> bool" where
  "intents_init s \<longleftrightarrow> snd s = []"

definition intents_inv :: "'d crypto_lib \<times> (bytes \<times> connect_intent) list \<Rightarrow> bool" where
  "intents_inv s \<longleftrightarrow> distinct (map fst (snd s)) \<and> (\<forall>x \<in> set (snd s). intent_ok (snd x))"

lemma armed_ok: "intent_ok (armed now on)"
  by (simp add: intent_ok_def armed_def RETRY_BACKOFF_CAP_SECS_def)

lemma rearm_ok: "intent_ok (rearm now i)"
  by (simp add: intent_ok_def rearm_def RETRY_BACKOFF_CAP_SECS_def)

text \<open>One pass of the tick, entry by entry.\<close>

definition drive_entry ::
  "'d crypto_lib \<Rightarrow> i64 \<Rightarrow> bytes \<Rightarrow> (bytes \<Rightarrow> bool) \<Rightarrow> bytes set \<Rightarrow> bytes set \<Rightarrow> instant \<Rightarrow> 'd disk
   \<Rightarrow> bytes \<times> connect_intent \<Rightarrow> (bytes \<times> connect_intent) \<times> client_to_server list \<times> app_event list" where
  "drive_entry L ts priv up live in_flight now d x =
     (case x of (peer, intent) \<Rightarrow>
        let has_session = (peer \<in> live \<or> peer \<in> in_flight);
            (sent, msgs, errs) =
              (if next_retry_action intent has_session now = Punch then send_punch_request L ts priv (up peer) peer d
               else (False, [], []));
            (intent', evs) = drive_intent has_session now sent peer intent
        in ((peer, intent'), msgs, errs @ evs))"

lemma drive_retries_entries:
  "drive_retries L ts priv up live in_flight now d xs =
     (map (fst \<circ> drive_entry L ts priv up live in_flight now d) xs,
      concat (map (fst \<circ> snd \<circ> drive_entry L ts priv up live in_flight now d) xs),
      concat (map (snd \<circ> snd \<circ> drive_entry L ts priv up live in_flight now d) xs))"
proof (induction xs)
  case (Cons x xs)
  then show ?case by (cases x) (auto simp: drive_entry_def Let_def split: prod.split)
qed simp

lemma drive_entry_intent:
  "\<exists>sent. fst (drive_entry L ts priv up live in_flight now d (p, i))
     = (p, fst (drive_intent (p \<in> live \<or> p \<in> in_flight) now sent p i))"
  by (auto simp: drive_entry_def Let_def split: prod.split) (metis fst_conv)+

lemma drive_entry_ok:
  assumes "intent_ok (snd x)"
  shows "fst (fst (drive_entry L ts priv up live in_flight now d x)) = fst x
    \<and> intent_ok (snd (fst (drive_entry L ts priv up live in_flight now d x)))"
proof -
  obtain p i where x: "x = (p, i)" by (cases x)
  obtain sent where e: "fst (drive_entry L ts priv up live in_flight now d x)
      = (p, fst (drive_intent (p \<in> live \<or> p \<in> in_flight) now sent p i))"
    using drive_entry_intent x by blast
  have "intent_ok (fst (drive_intent (p \<in> live \<or> p \<in> in_flight) now sent p i))"
    using assms x by (intro drive_intent_ok) simp
  then show ?thesis using x e by simp
qed

lemma intents_inv_step:
  assumes "intents_inv s" and "intents_step s t"
  shows "intents_inv t"
  using assms(2,1)
proof (induction rule: intents_step.induct)
  case (step_tick L "is" ts priv up live in_flight now d)
  then have "map fst (map (fst \<circ> drive_entry L ts priv up live in_flight now d) is) = map fst is"
    by (auto simp: intents_inv_def drive_entry_ok)
  moreover have "\<forall>x \<in> set (map (fst \<circ> drive_entry L ts priv up live in_flight now d) is). intent_ok (snd x)"
    using step_tick by (auto simp: intents_inv_def drive_entry_ok)
  ultimately show ?case
    using step_tick unfolding intents_inv_def snd_conv drive_retries_entries fst_conv by argo
next
  case (step_connect L "is" h now on)
  then show ?case
    by (auto simp: intents_inv_def intents_insert_def armed_ok comp_def case_prod_unfold)
next
  case (step_remove L "is" h)
  then show ?case by (auto simp: intents_inv_def intents_remove_def distinct_map_filter)
next
  case (step_online L "is" now h)
  have "intent_ok i \<Longrightarrow> intent_ok (i\<lparr>ci_online := True\<rparr>)" for i by (simp add: intent_ok_def)
  with step_online show ?case
    by (auto simp: intents_inv_def intent_online_def rearm_ok Let_def comp_def case_prod_unfold)
next
  case (step_offline L "is" h)
  have "intent_ok i \<Longrightarrow> intent_ok (i\<lparr>ci_online := False\<rparr>)" for i by (simp add: intent_ok_def)
  with step_offline show ?case
    by (auto simp: intents_inv_def intent_offline_def comp_def case_prod_unfold)
qed

interpretation retry_ladder: invariant_system intents_init intents_step intents_inv
proof
  show "intents_inv s" if "intents_init s" for s :: "'d crypto_lib \<times> (bytes \<times> connect_intent) list"
    using that by (simp add: intents_init_def intents_inv_def)
qed (rule intents_inv_step)

text \<open>
  In every state the client core can reach, each peer has at most one connect intent, its attempts
  are at most 6 (so the 32-bit counter never wraps) and its delay lies between 1 and 30 seconds (so
  doubling never wraps).
\<close>

lemma intents_inv_bounds:
  assumes "intents_inv (L, is)" and "(peer, i) \<in> set is"
  shows "unat (ci_attempts i) \<le> 6 \<and> 1 \<le> unat (ci_backoff_secs i) \<and> unat (ci_backoff_secs i) \<le> 30
    \<and> (\<forall>j. (peer, j) \<in> set is \<longrightarrow> j = i)"
proof -
  have "intent_ok i" using assms by (auto simp: intents_inv_def)
  moreover have "j = i" if "(peer, j) \<in> set is" for j
    using assms that by (auto simp: intents_inv_def dest: eq_key_imp_eq_value)
  ultimately show ?thesis
    by (auto simp: intent_ok_def MAX_CONNECT_ATTEMPTS_def RETRY_BACKOFF_CAP_SECS_def word_le_nat_alt)
qed

section \<open>The ladder\<close>

text \<open>What one tick of the core meets: its instant and time of day, the state of the channel, the sessions, the attempts in flight, the disk.\<close>

record 'd retry_env =
  re_now :: instant
  re_ts :: i64
  re_up :: "bytes \<Rightarrow> bool"
  re_live :: "bytes set"
  re_in_flight :: "bytes set"
  re_disk :: "'d disk"

fun retry_ticks ::
  "'d crypto_lib \<Rightarrow> bytes \<Rightarrow> 'd retry_env list \<Rightarrow> (bytes \<times> connect_intent) list
   \<Rightarrow> (bytes \<times> connect_intent) list \<times> client_to_server list \<times> app_event list" where
  "retry_ticks L priv [] is = (is, [], [])"
| "retry_ticks L priv (e # es) is =
     (let (is1, ms1, evs1) = drive_retries L (re_ts e) priv (re_up e) (re_live e) (re_in_flight e) (re_now e) (re_disk e) is;
          (is2, ms2, evs2) = retry_ticks L priv es is1
      in (is2, ms1 @ ms2, evs1 @ evs2))"

text \<open>The peer counts as connected at a tick when it has a session or an attempt in flight.\<close>

definition busy :: "bytes \<Rightarrow> 'd retry_env \<Rightarrow> bool" where
  "busy peer e \<longleftrightarrow> peer \<in> re_live e \<or> peer \<in> re_in_flight e"

fun is_retrying :: "app_event \<Rightarrow> bool" where
  "is_retrying (AConnectRetrying _ _ _) = True"
| "is_retrying _ = False"

text \<open>The events about the ladder of one peer: an attempt, and giving up.\<close>

fun asks :: "bytes \<Rightarrow> app_event \<Rightarrow> bool" where
  "asks peer (AConnectRetrying p _ _) = (p = peer)"
| "asks peer _ = False"

fun gives_up :: "bytes \<Rightarrow> app_event \<Rightarrow> bool" where
  "gives_up peer (AConnectGaveUp p) = (p = peer)"
| "gives_up peer _ = False"

definition on_ladder :: "bytes \<Rightarrow> app_event \<Rightarrow> bool" where
  "on_ladder peer ev \<longleftrightarrow> asks peer ev \<or> gives_up peer ev"

text \<open>The ticks from the view of one intent: whether its peer is busy, the instant, and whether a request would leave.\<close>

fun intent_run :: "bytes \<Rightarrow> (bool \<times> instant \<times> bool) list \<Rightarrow> connect_intent \<Rightarrow> connect_intent \<times> app_event list" where
  "intent_run peer [] i = (i, [])"
| "intent_run peer ((has, now, sent) # ts) i =
     (case drive_intent has now sent peer i of (j, es) \<Rightarrow> (case intent_run peer ts j of (k, es') \<Rightarrow> (k, es @ es')))"

definition tick_of :: "'d crypto_lib \<Rightarrow> bytes \<Rightarrow> bytes \<Rightarrow> 'd retry_env \<Rightarrow> bool \<times> instant \<times> bool" where
  "tick_of L priv peer e = (busy peer e, re_now e, fst (send_punch_request L (re_ts e) priv (re_up e peer) peer (re_disk e)))"

lemma drive_intent_events: "\<forall>ev \<in> set (snd (drive_intent has now sent peer i)). on_ladder peer ev"
  by (auto simp: drive_intent_def on_ladder_def split: retry_action.split)

lemma drive_entry_peer:
  assumes "tick_of L priv peer e = (has, now, sent)"
  shows "fst (drive_entry L (re_ts e) priv (re_up e) (re_live e) (re_in_flight e) (re_now e) (re_disk e) (peer, i)) = (peer, fst (drive_intent has now sent peer i))"
    and "filter (on_ladder peer) (snd (snd (drive_entry L (re_ts e) priv (re_up e) (re_live e) (re_in_flight e) (re_now e) (re_disk e) (peer, i))))
      = snd (drive_intent has now sent peer i)"
proof -
  have e: "has = (peer \<in> re_live e \<or> peer \<in> re_in_flight e)" "now = re_now e"
    "sent = fst (send_punch_request L (re_ts e) priv (re_up e peer) peer (re_disk e))"
    using assms by (auto simp: tick_of_def busy_def)
  have same: "drive_intent has now False peer i = drive_intent has now x peer i" if "next_retry_action i has now \<noteq> Punch" for x
    using that by (auto simp: drive_intent_def split: retry_action.split)
  have err: "filter (on_ladder peer) (snd (snd (send_punch_request L (re_ts e) priv (re_up e peer) peer (re_disk e)))) = []"
    by (auto simp: send_punch_request_def on_ladder_def split: sum.split)
  have "filter (on_ladder peer) (snd (drive_intent has now sent peer i)) = snd (drive_intent has now sent peer i)"
    using drive_intent_events by simp
  then show "fst (drive_entry L (re_ts e) priv (re_up e) (re_live e) (re_in_flight e) (re_now e) (re_disk e) (peer, i)) = (peer, fst (drive_intent has now sent peer i))"
    and "filter (on_ladder peer) (snd (snd (drive_entry L (re_ts e) priv (re_up e) (re_live e) (re_in_flight e) (re_now e) (re_disk e) (peer, i))))
      = snd (drive_intent has now sent peer i)"
    using same [of sent] err unfolding e by (auto simp: drive_entry_def Let_def case_prod_beta)
qed

lemma drive_entry_other:
  assumes "p \<noteq> peer"
  shows "filter (on_ladder peer) (snd (snd (drive_entry L ts priv up live in_flight now d (p, i)))) = []"
proof -
  have "\<not> on_ladder peer ev" if "ev \<in> set (snd (drive_intent has now sent p i))" for has sent ev
    using that assms by (auto simp: drive_intent_def on_ladder_def split: retry_action.splits if_splits)
  moreover have "\<not> on_ladder peer ev" if "ev \<in> set (snd (snd (send_punch_request L ts priv (up p) p d)))" for ev
    using that by (auto simp: send_punch_request_def on_ladder_def split: sum.splits if_splits)
  ultimately show ?thesis by (auto simp: drive_entry_def Let_def case_prod_beta filter_empty_conv)
qed

lemma drive_retries_peer:
  assumes "distinct (map fst is)" and "map_of is peer = Some i" and "tick_of L priv peer e = (has, now, sent)"
    and "drive_retries L (re_ts e) priv (re_up e) (re_live e) (re_in_flight e) (re_now e) (re_disk e) is = (is', ms, evs)"
  shows "map fst is' = map fst is" and "map_of is' peer = Some (fst (drive_intent has now sent peer i))"
    and "filter (on_ladder peer) evs = snd (drive_intent has now sent peer i)"
proof -
  let ?f = "drive_entry L (re_ts e) priv (re_up e) (re_live e) (re_in_flight e) (re_now e) (re_disk e)"
  have eq: "is' = map (fst \<circ> ?f) is" "evs = concat (map (snd \<circ> snd \<circ> ?f) is)"
    using assms(4) by (simp_all add: drive_retries_entries)
  have k: "fst (fst (?f x)) = fst x" for x
    by (cases x) (simp add: drive_entry_def Let_def case_prod_beta)
  then show keys: "map fst is' = map fst is" by (simp add: eq)
  obtain xs ys where split: "is = xs @ (peer, i) # ys" using map_of_SomeD [OF assms(2)] by (meson split_list)
  have none: "filter (on_ladder peer) (snd (snd (?f x))) = []" if "x \<in> set xs \<union> set ys" for x
    using drive_entry_other [of "fst x" peer] that assms(1) split by (cases x) (force simp: image_iff)
  have "filter (on_ladder peer) (concat (map (snd \<circ> snd \<circ> ?f) zs)) = []" if "set zs \<subseteq> set xs \<union> set ys" for zs
    using that none by (induction zs) auto
  then show "filter (on_ladder peer) evs = snd (drive_intent has now sent peer i)"
    using drive_entry_peer(2) [OF assms(3), of i] by (simp add: eq split)
  have "(peer, fst (drive_intent has now sent peer i)) \<in> set is'"
    using drive_entry_peer(1) [OF assms(3), of i] by (force simp: eq split)
  then show "map_of is' peer = Some (fst (drive_intent has now sent peer i))"
    using assms(1) keys by (metis map_of_is_SomeI)
qed

lemma retry_ticks_peer:
  assumes "distinct (map fst is)" and "map_of is peer = Some i" and "retry_ticks L priv es is = (is', ms, evs)"
  shows "map_of is' peer = Some (fst (intent_run peer (map (tick_of L priv peer) es) i))
    \<and> filter (on_ladder peer) evs = snd (intent_run peer (map (tick_of L priv peer) es) i)"
  using assms
proof (induction es arbitrary: "is" i ms evs)
  case (Cons e es)
  obtain is1 ms1 evs1 where d: "drive_retries L (re_ts e) priv (re_up e) (re_live e) (re_in_flight e) (re_now e) (re_disk e) is = (is1, ms1, evs1)"
    by (metis prod_cases3)
  obtain ms2 evs2 where r: "retry_ticks L priv es is1 = (is', ms2, evs2)" and evs: "evs = evs1 @ evs2"
    using Cons.prems(3) d by (auto simp: Let_def case_prod_beta prod_eq_iff)
  obtain has now sent where t: "tick_of L priv peer e = (has, now, sent)" by (metis prod_cases3)
  note dp = drive_retries_peer [OF Cons.prems(1,2) t d]
  have "distinct (map fst is1)" using dp(1) Cons.prems(1) by simp
  from Cons.IH [OF this dp(2) r] show ?case
    using dp(3) t by (simp add: evs case_prod_beta)
qed simp

lemma drive_punch:
  assumes "ci_online i" and "ci_attempts i < 5" and "ci_due_at i \<le> now"
  shows "drive_intent False now True peer i =
    (i\<lparr>ci_attempts := ci_attempts i + 1, ci_due_at := now + secs (ci_backoff_secs i),
       ci_backoff_secs := bump_backoff (ci_backoff_secs i)\<rparr>,
     [AConnectRetrying peer (ci_attempts i + 1) (ci_backoff_secs i)])"
proof -
  have "next_retry_action i False now = Punch" using assms by (simp add: next_punch_iff)
  then show ?thesis by (simp add: drive_intent_def)
qed

lemma drive_give_up:
  assumes "ci_online i" and "ci_attempts i = 5"
  shows "drive_intent False now sent peer i = (i\<lparr>ci_attempts := 6\<rparr>, [AConnectGaveUp peer])"
proof -
  have "next_retry_action i False now = GiveUp" using assms by (simp add: next_give_up_iff)
  then show ?thesis by (simp add: drive_intent_def MAX_CONNECT_ATTEMPTS_def)
qed

text \<open>How far an intent has climbed, and whether it is parked.\<close>

definition climbed :: "connect_intent \<Rightarrow> nat" where
  "climbed i = min (unat (ci_attempts i)) 5"

definition parked :: "connect_intent \<Rightarrow> nat" where
  "parked i = (if unat (ci_attempts i) = 6 then 1 else 0)"

lemma drive_intent_counts:
  assumes "unat (ci_attempts i) \<le> 6" and "drive_intent has now sent peer i = (j, es)"
  shows "unat (ci_attempts j) \<le> 6"
    and "has \<Longrightarrow> climbed j = 0 \<and> parked j = 0 \<and> es = []"
    and "\<not> has \<Longrightarrow> climbed j = climbed i + length (filter (asks peer) es) \<and> parked j = parked i + length (filter (gives_up peer) es)"
proof -
  have "unat (ci_attempts j) \<le> 6 \<and> (has \<longrightarrow> climbed j = 0 \<and> parked j = 0 \<and> es = [])
      \<and> (\<not> has \<longrightarrow> climbed j = climbed i + length (filter (asks peer) es) \<and> parked j = parked i + length (filter (gives_up peer) es))"
  proof (cases "next_retry_action i has now")
    case Punch
    then have "unat (ci_attempts i + 1) = unat (ci_attempts i) + 1" "unat (ci_attempts i) < 5" "\<not> has"
      using attempts_succ [of "ci_attempts i"] by (simp_all add: next_punch_iff word_less_nat_alt)
    then show ?thesis using assms Punch by (auto simp: drive_intent_def climbed_def parked_def split: if_splits)
  next
    case GiveUp
    then have "ci_online i" "ci_attempts i = 5" "\<not> has" by (simp_all add: next_give_up_iff)
    then show ?thesis using assms by (auto simp: drive_give_up climbed_def parked_def)
  next
    case Done
    then have "has" by (simp add: next_done_iff)
    then show ?thesis using assms Done by (auto simp: drive_intent_def climbed_def parked_def rearm_def split: if_splits)
  next
    case Wait
    then have "\<not> has" by (auto simp: next_retry_action_def)
    then show ?thesis using assms Wait by (auto simp: drive_intent_def)
  qed
  then show "unat (ci_attempts j) \<le> 6" "has \<Longrightarrow> climbed j = 0 \<and> parked j = 0 \<and> es = []"
    "\<not> has \<Longrightarrow> climbed j = climbed i + length (filter (asks peer) es) \<and> parked j = parked i + length (filter (gives_up peer) es)" by blast+
qed

lemma intent_run_counts:
  assumes "unat (ci_attempts i) \<le> 6" and "intent_run peer ts i = (k, es)"
  shows "climbed i + length (filter (asks peer) es) \<le> 5 + 5 * length (filter fst ts)
    \<and> parked i + length (filter (gives_up peer) es) \<le> 1 + length (filter fst ts)
    \<and> (filter fst ts = [] \<longrightarrow> climbed i + length (filter (asks peer) es) = climbed k \<and> parked i + length (filter (gives_up peer) es) = parked k)"
  using assms
proof (induction ts arbitrary: i es)
  case Nil
  then show ?case by (simp add: climbed_def parked_def)
next
  case (Cons t ts)
  obtain has now sent where t: "t = (has, now, sent)" by (metis prod_cases3)
  obtain j es1 where d: "drive_intent has now sent peer i = (j, es1)" by fastforce
  obtain es2 where r: "intent_run peer ts j = (k, es2)" and es: "es = es1 @ es2"
    using Cons.prems(2) t d by (auto split: prod.splits)
  note c = drive_intent_counts [OF Cons.prems(1) d]
  have b: "climbed i \<le> 5" "parked i \<le> 1" by (simp_all add: climbed_def parked_def)
  show ?case
  proof (cases has)
    case True
    then show ?thesis using Cons.IH [OF c(1) r] c(2) b t es by auto
  next
    case False
    then show ?thesis using Cons.IH [OF c(1) r] c(3) t es by auto
  qed
qed

lemma filter_on_ladder: "filter (asks peer) (filter (on_ladder peer) es) = filter (asks peer) es"
  "filter (gives_up peer) (filter (on_ladder peer) es) = filter (gives_up peer) es"
  by (auto simp: on_ladder_def intro: filter_cong)

text \<open>
  One pass of the retry tick asks for a hole punch only to peers that are neither connected nor
  mid-connect, and sends exactly one request per reported attempt.
\<close>

lemma drive_never_repunches:
  assumes "drive_retries L ts priv up live in_flight now d xs = (xs', msgs, evs)"
  shows "length msgs = length (filter is_retrying evs)
    \<and> (\<forall>p a b. AConnectRetrying p a b \<in> set evs \<longrightarrow> p \<notin> live \<and> p \<notin> in_flight \<and> p \<in> fst ` set xs)"
  using assms
proof (induction xs arbitrary: xs' msgs evs)
  case (Cons x xs)
  obtain p i where x: "x = (p, i)" by (cases x)
  obtain y m1 e1 where e: "drive_entry L ts priv up live in_flight now d x = (y, m1, e1)" by (metis prod_cases3)
  obtain xs2 m2 e2 where r: "drive_retries L ts priv up live in_flight now d xs = (xs2, m2, e2)" by (metis prod_cases3)
  have eq: "msgs = m1 @ m2" "evs = e1 @ e2"
    using Cons.prems r e by (auto simp: drive_retries_entries)
  have free: "next_retry_action i (p \<in> live \<or> p \<in> in_flight) now = Punch \<Longrightarrow> p \<notin> live \<and> p \<notin> in_flight"
    by (simp add: next_punch_iff)
  have "length m1 = length (filter is_retrying e1)
      \<and> (\<forall>q a b. AConnectRetrying q a b \<in> set e1 \<longrightarrow> q = p \<and> p \<notin> live \<and> p \<notin> in_flight)"
    using e x free
    by (cases "next_retry_action i (p \<in> live \<or> p \<in> in_flight) now")
      (auto simp: drive_entry_def Let_def drive_intent_def send_punch_request_def split: if_splits sum.splits)
  with Cons.IH [OF r] eq x show ?case by simp blast
qed simp

lemma ticks_one_request:
  "retry_ticks L priv es is = (is', ms, evs) \<Longrightarrow> length ms = length (filter is_retrying evs)"
proof (induction es arbitrary: "is" is' ms evs)
  case (Cons e es)
  obtain is1 ms1 evs1 where d: "drive_retries L (re_ts e) priv (re_up e) (re_live e) (re_in_flight e) (re_now e) (re_disk e) is = (is1, ms1, evs1)"
    by (metis prod_cases3)
  obtain is2 ms2 evs2 where r: "retry_ticks L priv es is1 = (is2, ms2, evs2)" by (metis prod_cases3)
  show ?case using Cons.prems Cons.IH [OF r] drive_never_repunches [OF d] d r by (auto simp: Let_def)
qed simp

text \<open>
  C26: Requests are bounded by how often a connection was at least begun. However many ticks pass, whenever they come, whatever becomes
  of the sessions, attempts and files and whatever other intents there are, as long as neither a new connect command nor news of the peer's presence re-arms the intent between
  them: a freshly armed intent makes at most five reported attempts, and five more for each tick that finds its peer with a session or an attempt in flight, since that
  starts the ladder anew; it reports giving up at most once, and once more for each such tick. As long as there is no such tick, giving up is reported only after exactly five attempts. Each reported attempt, of
  whichever peer, is one request sent to the relay.
\<close>

theorem retries_bounded:
  assumes "distinct (map fst is)" and "map_of is peer = Some (armed t on)" and "retry_ticks L priv es is = (is', ms, evs)"
  shows "length (filter (asks peer) evs) \<le> 5 * (1 + length (filter (busy peer) es))
    \<and> length (filter (gives_up peer) evs) \<le> 1 + length (filter (busy peer) es)
    \<and> (filter (busy peer) es = [] \<and> filter (gives_up peer) evs \<noteq> [] \<longrightarrow> length (filter (asks peer) evs) = 5)
    \<and> length ms = length (filter is_retrying evs)"
proof -
  let ?ts = "map (tick_of L priv peer) es"
  obtain k es' where run: "intent_run peer ?ts (armed t on) = (k, es')" by fastforce
  have f: "filter (on_ladder peer) evs = es'" using retry_ticks_peer [OF assms] run by simp
  have ev: "filter (asks peer) evs = filter (asks peer) es'" "filter (gives_up peer) evs = filter (gives_up peer) es'"
    using filter_on_ladder [of peer evs] f by simp_all
  have b: "filter fst ?ts = map (tick_of L priv peer) (filter (busy peer) es)"
    by (induction es) (simp_all add: tick_of_def)
  have z: "climbed (armed t on) = 0" "parked (armed t on) = 0" "unat (ci_attempts (armed t on)) \<le> 6"
    by (simp_all add: climbed_def parked_def armed_def)
  note c = intent_run_counts [OF z(3) run, unfolded z(1,2) b length_map]
  have "length (filter (asks peer) es') = 5" if "filter (busy peer) es = []" "filter (gives_up peer) es' \<noteq> []"
  proof -
    have "length (filter (gives_up peer) es') \<noteq> 0" using that(2) by simp
    moreover have "length (filter (gives_up peer) es') = parked k" "climbed k = length (filter (asks peer) es')" using c that(1) by simp_all
    ultimately have "parked k \<noteq> 0" "climbed k = length (filter (asks peer) es')" by (simp_all only: not_False_eq_True)
    then show ?thesis by (simp add: parked_def climbed_def split: if_splits)
  qed
  then show ?thesis using c ticks_one_request [OF assms(3)] unfolding ev by auto
qed

text \<open>
  The bound cannot do without the attempts in flight: a peer that never gets a session can be asked for as often as one likes, when each request
  is followed by an attempt that fails.
\<close>

lemma retries_unbounded:
  assumes "hkdf_ok L" and "fst (load_peer_data L peer d) = Inr p"
  obtains es evs ms is' where "\<forall>e \<in> set es. re_live e = {}" and "retry_ticks L priv es [(peer, armed 0 True)] = (is', ms, evs)"
    and "length ms = n" and "filter (gives_up peer) evs = []"
proof -
  let ?e = "\<lambda>f. \<lparr>re_now = 0, re_ts = 0, re_up = \<lambda>_. True, re_live = {}, re_in_flight = f, re_disk = d\<rparr>"
  obtain token where "presence_token L priv (pk_public p) 0 = Inr token"
    using presence_tokens_exist [OF assms(1), of priv 0 "[p]"] by auto
  then have s: "send_punch_request L 0 priv True peer d = (True, [client_to_server_new 0 (RequestHolePunch token) None], [])"
    using assms(2) by (simp add: send_punch_request_def generate_p2p_request_def map_err_def)
  have a: "ci_online (armed 0 True)" "ci_attempts (armed 0 True) < 5" "ci_due_at (armed 0 True) \<le> 0" by (simp_all add: armed_def)
  have p1: "next_retry_action (armed 0 True) False 0 = Punch" using a by (simp add: next_punch_iff)
  have "\<exists>evs ms. retry_ticks L priv (concat (replicate k [?e {}, ?e {peer}])) [(peer, armed 0 True)] = ([(peer, armed 0 True)], ms, evs)
      \<and> length ms = k \<and> filter (gives_up peer) evs = []" for k
  proof (induction k)
    case (Suc k)
    let ?i = "fst (drive_intent False 0 True peer (armed 0 True))"
    have 1: "drive_retries L 0 priv (\<lambda>_. True) {} {} 0 d [(peer, armed 0 True)]
        = ([(peer, ?i)], [client_to_server_new 0 (RequestHolePunch token) None], [AConnectRetrying peer 1 1])"
      using p1 s drive_punch [OF a] by (simp add: Let_def armed_def)
    have "next_retry_action ?i True 0 = Done" by (simp add: next_done_iff)
    then have "drive_intent True 0 x peer ?i = (armed 0 True, [])" for x
      using drive_punch [OF a] by (simp add: drive_intent_def rearm_def armed_def)
    then have 2: "drive_retries L 0 priv (\<lambda>_. True) {} {peer} 0 d [(peer, ?i)] = ([(peer, armed 0 True)], [], [])"
      by (simp add: Let_def next_retry_action_def)
    show ?case using Suc.IH 1 2 by (auto simp: Let_def)
  qed simp
  then obtain evs ms where r: "retry_ticks L priv (concat (replicate n [?e {}, ?e {peer}])) [(peer, armed 0 True)] = ([(peer, armed 0 True)], ms, evs)"
    "length ms = n" "filter (gives_up peer) evs = []" by blast
  have "re_live e = {}" if "e \<in> set (concat (replicate n [?e {}, ?e {peer}]))" for e using that by (auto simp: set_replicate_conv_if split: if_splits)
  then show ?thesis using that r by blast
qed

text \<open>Ticks that are never more than \<open>gap\<close> apart, from \<open>lo\<close> until \<open>hi\<close>.\<close>

definition covered :: "nat \<Rightarrow> instant \<Rightarrow> instant \<Rightarrow> instant list \<Rightarrow> bool" where
  "covered gap lo hi ts \<longleftrightarrow> (\<forall>x. lo \<le> x \<and> x \<le> hi \<longrightarrow> (\<exists>u \<in> set ts. x \<le> u \<and> u \<le> x + gap))"

abbreviation climb :: "instant \<Rightarrow> connect_intent \<Rightarrow> connect_intent" where
  "climb u i \<equiv> i\<lparr>ci_attempts := ci_attempts i + 1, ci_due_at := u + secs (ci_backoff_secs i), ci_backoff_secs := bump_backoff (ci_backoff_secs i)\<rparr>"

text \<open>An intent with attempts left makes the next one at the first tick that finds it due.\<close>

lemma next_attempt:
  assumes "ci_online i" and "ci_attempts i < 5" and "sorted ts" and "covered gap (ci_due_at i) hi ts" and "ci_due_at i \<le> hi"
  obtains u ts' where "u \<le> ci_due_at i + gap" and "sorted ts'" and "covered gap (u + 1) hi ts'"
    and "snd (intent_run peer (map (\<lambda>u. (False, u, True)) ts) i)
       = AConnectRetrying peer (ci_attempts i + 1) (ci_backoff_secs i) # snd (intent_run peer (map (\<lambda>u. (False, u, True)) ts') (climb u i))"
  using assms
proof (induction ts arbitrary: thesis)
  case Nil
  then show ?case by (auto simp: covered_def)
next
  case (Cons v ts)
  show ?case
  proof (cases "v < ci_due_at i")
    case True
    then have w: "drive_intent False v True peer i = (i, [])"
      using Cons.prems(3) by (auto simp: drive_intent_def next_retry_action_def MAX_CONNECT_ATTEMPTS_def)
    have "covered gap (ci_due_at i) hi ts" using Cons.prems(5) True unfolding covered_def by fastforce
    then show ?thesis
      using Cons.IH [OF _ Cons.prems(2,3)] Cons.prems(1,4,6) w by (auto simp: case_prod_beta)
  next
    case False
    obtain x where "x \<in> set (v # ts)" "x \<le> ci_due_at i + gap" using Cons.prems(5,6) unfolding covered_def by blast
    then have "v \<le> ci_due_at i + gap" using Cons.prems(4) by auto
    moreover have "covered gap (v + 1) hi ts"
      unfolding covered_def
    proof (intro allI impI)
      fix x assume x: "v + 1 \<le> x \<and> x \<le> hi"
      then obtain u where "u \<in> set (v # ts)" "x \<le> u" "u \<le> x + gap" using Cons.prems(5) False unfolding covered_def by (meson le_trans not_le add_leD1)
      then show "\<exists>u \<in> set ts. x \<le> u \<and> u \<le> x + gap" using x by auto
    qed
    ultimately show ?thesis
      using Cons.prems(1) [of v ts] Cons.prems(4) drive_punch [OF Cons.prems(2,3)] False by (simp add: case_prod_beta)
  qed
qed

lemma covered_later: "covered gap lo hi ts \<Longrightarrow> lo \<le> lo' \<Longrightarrow> covered gap lo' hi ts"
  by (auto simp: covered_def)

lemma parked_silent: "ci_attempts i = 6 \<Longrightarrow> snd (intent_run peer (map (\<lambda>u. (False, u, True)) ts) i) = []"
  by (induction ts) (auto simp: drive_intent_def next_retry_action_def MAX_CONNECT_ATTEMPTS_def case_prod_beta)

lemma ladder_run:
  assumes "sorted ts" and "covered gap t (t + 15000000000 + 5 * gap + 1) ts"
  shows "snd (intent_run peer (map (\<lambda>u. (False, u, True)) ts) (armed t True))
    = [AConnectRetrying peer 1 1, AConnectRetrying peer 2 2, AConnectRetrying peer 3 4, AConnectRetrying peer 4 8,
       AConnectRetrying peer 5 16, AConnectGaveUp peer]"
proof -
  let ?hi = "t + 15000000000 + 5 * gap + 1" and ?T = "\<lambda>ts. map (\<lambda>u. (False, u, True)) ts" and ?a = "\<lambda>n b d. \<lparr>ci_attempts = n, ci_backoff_secs = b, ci_due_at = d, ci_online = True\<rparr>"
  have s: "secs 1 = 1000000000" "secs 2 = 2000000000" "secs 4 = 4000000000" "secs 8 = 8000000000" "secs 16 = 16000000000" by (simp_all add: secs_def)
  have b: "bump_backoff 1 = 2" "bump_backoff 2 = 4" "bump_backoff 4 = 8" "bump_backoff 8 = 16" "bump_backoff 16 = 30" by code_simp+
  obtain u1 ts1 where 1: "u1 \<le> t + gap" "sorted ts1" "covered gap (u1 + 1) ?hi ts1"
    "snd (intent_run peer (?T ts) (armed t True)) = AConnectRetrying peer 1 1 # snd (intent_run peer (?T ts1) (?a 1 2 (u1 + 1000000000)))"
    by (rule next_attempt [of "armed t True" ts gap ?hi peer]) (use assms s b in \<open>simp_all add: armed_def\<close>)
  obtain u2 ts2 where 2: "u2 \<le> u1 + 1000000000 + gap" "sorted ts2" "covered gap (u2 + 1) ?hi ts2"
    "snd (intent_run peer (?T ts1) (?a 1 2 (u1 + 1000000000))) = AConnectRetrying peer 2 2 # snd (intent_run peer (?T ts2) (?a 2 4 (u2 + 2000000000)))"
    by (rule next_attempt [of "?a 1 2 (u1 + 1000000000)" ts1 gap ?hi peer]) (use 1 s b covered_later [OF 1(3)] in simp_all)
  obtain u3 ts3 where 3: "u3 \<le> u2 + 2000000000 + gap" "sorted ts3" "covered gap (u3 + 1) ?hi ts3"
    "snd (intent_run peer (?T ts2) (?a 2 4 (u2 + 2000000000))) = AConnectRetrying peer 3 4 # snd (intent_run peer (?T ts3) (?a 3 8 (u3 + 4000000000)))"
    by (rule next_attempt [of "?a 2 4 (u2 + 2000000000)" ts2 gap ?hi peer]) (use 1(1) 2 s b covered_later [OF 2(3)] in simp_all)
  obtain u4 ts4 where 4: "u4 \<le> u3 + 4000000000 + gap" "sorted ts4" "covered gap (u4 + 1) ?hi ts4"
    "snd (intent_run peer (?T ts3) (?a 3 8 (u3 + 4000000000))) = AConnectRetrying peer 4 8 # snd (intent_run peer (?T ts4) (?a 4 16 (u4 + 8000000000)))"
    by (rule next_attempt [of "?a 3 8 (u3 + 4000000000)" ts3 gap ?hi peer]) (use 1(1) 2(1) 3 s b covered_later [OF 3(3)] in simp_all)
  obtain u5 ts5 where 5: "u5 \<le> u4 + 8000000000 + gap" "covered gap (u5 + 1) ?hi ts5"
    "snd (intent_run peer (?T ts4) (?a 4 16 (u4 + 8000000000))) = AConnectRetrying peer 5 16 # snd (intent_run peer (?T ts5) (?a 5 30 (u5 + 16000000000)))"
    by (rule next_attempt [of "?a 4 16 (u4 + 8000000000)" ts4 gap ?hi peer]) (use 1(1) 2(1) 3(1) 4 s b covered_later [OF 4(3)] in simp_all)
  have "u5 + 1 \<le> ?hi" using 1(1) 2(1) 3(1) 4(1) 5(1) by simp
  then obtain v vs where "ts5 = v # vs" using 5(2) by (cases ts5) (auto simp: covered_def)
  then have "snd (intent_run peer (?T ts5) (?a 5 30 (u5 + 16000000000))) = [AConnectGaveUp peer]"
    by (simp add: drive_give_up case_prod_beta parked_silent)
  then show ?thesis using 1(4) 2(4) 3(4) 4(4) 5(3) by simp
qed

text \<open>
  C27: The ladder climbs to its end. An intent armed at \<open>t\<close> for an online peer, while ticks come at most \<open>gap\<close> nanoseconds apart until 15 seconds and five gaps later, the
  peer has neither a session nor an attempt in flight, its keys load, the relay takes every request and nothing but the ticks touches the intent: whatever the ticks are and whatever other intents there are, it reports
  exactly five attempts, with delays of 1, 2, 4, 8 and 16 seconds, then that it gave up, and nothing more.
\<close>

theorem retry_ladder_climbs:
  assumes "hkdf_ok L" and "distinct (map fst is)" and "map_of is peer = Some (armed t True)" and "retry_ticks L priv es is = (is', ms, evs)"
    and "\<forall>e \<in> set es. \<not> busy peer e \<and> re_up e peer \<and> fst (load_peer_data L peer (re_disk e)) = Inr p"
    and "sorted (map re_now es)" and "covered gap t (t + 15000000000 + 5 * gap + 1) (map re_now es)"
  shows "filter (on_ladder peer) evs = [AConnectRetrying peer 1 1, AConnectRetrying peer 2 2, AConnectRetrying peer 3 4, AConnectRetrying peer 4 8,
       AConnectRetrying peer 5 16, AConnectGaveUp peer]"
proof -
  have "tick_of L priv peer e = (False, re_now e, True)" if "e \<in> set es" for e
  proof -
    obtain token where "presence_token L priv (pk_public p) (re_ts e) = Inr token"
      using presence_tokens_exist [OF assms(1), of priv "re_ts e" "[p]"] by auto
    then show ?thesis using that assms(5) by (simp add: tick_of_def send_punch_request_def generate_p2p_request_def map_err_def)
  qed
  then have "map (tick_of L priv peer) es = map (\<lambda>u. (False, u, True)) (map re_now es)" by simp
  then show ?thesis using retry_ticks_peer [OF assms(2-4)] ladder_run [OF assms(6,7), of peer] by (simp only:)
qed

definition demo_ticks :: "(instant \<times> bool) list \<Rightarrow> demo_db retry_env list" where
  "demo_ticks xs = map (\<lambda>(now, flying). \<lparr>re_now = now, re_ts = 100, re_up = \<lambda>_. True, re_live = {},
     re_in_flight = if flying then {key_of 1} else {}, re_disk = net_disk demo_inbox\<rparr>) xs"

theorem retries_bounded_witness:
  "\<exists>is' ms evs. retry_ticks demo_lib (key_of 2) (demo_ticks [(0, False), (500000000, True), (1000000000, False)]) [(key_of 1, armed 0 True)] = (is', ms, evs)
     \<and> length (filter (asks (key_of 1)) evs) \<le> 10 \<and> length ms = length (filter is_retrying evs)"
proof -
  obtain is' ms evs where r: "retry_ticks demo_lib (key_of 2) (demo_ticks [(0, False), (500000000, True), (1000000000, False)]) [(key_of 1, armed 0 True)] = (is', ms, evs)"
    by (metis prod_cases3)
  show ?thesis using retries_bounded [OF _ _ r, of "key_of 1" 0 True] r by (auto simp: demo_ticks_def busy_def)
qed

theorem retry_ladder_climbs_witness:
  "\<exists>is' ms evs. retry_ticks demo_lib (key_of 2) (demo_ticks (map (\<lambda>k. (500000000 * k, False)) [0..<40])) [(key_of 1, armed 0 True)] = (is', ms, evs)
     \<and> filter (on_ladder (key_of 1)) evs = [AConnectRetrying (key_of 1) 1 1, AConnectRetrying (key_of 1) 2 2, AConnectRetrying (key_of 1) 3 4,
          AConnectRetrying (key_of 1) 4 8, AConnectRetrying (key_of 1) 5 16, AConnectGaveUp (key_of 1)]"
proof -
  let ?es = "demo_ticks (map (\<lambda>k. (500000000 * k, False)) [0..<40])"
  obtain is' ms evs where r: "retry_ticks demo_lib (key_of 2) ?es [(key_of 1, armed 0 True)] = (is', ms, evs)" by (metis prod_cases3)
  have m: "map re_now ?es = map (\<lambda>k. 500000000 * k) [0..<40]" by (simp add: demo_ticks_def)
  have "covered 500000000 0 (0 + 15000000000 + 5 * 500000000 + 1) (map re_now ?es)"
    unfolding covered_def m
  proof (intro allI impI)
    fix x :: nat assume x: "0 \<le> x \<and> x \<le> 0 + 15000000000 + 5 * 500000000 + 1"
    let ?k = "x div 500000000 + 1"
    have k: "?k < 40" "x \<le> 500000000 * ?k" "500000000 * ?k \<le> x + 500000000" using x by auto
    moreover have "500000000 * ?k \<in> set (map (\<lambda>k. 500000000 * k) [0..<40])"
      using imageI [of ?k "{0..<40}" "\<lambda>k. 500000000 * k"] k(1) by (simp only: set_map set_upt atLeastLessThan_iff le0 simp_thms)
    ultimately show "\<exists>u \<in> set (map (\<lambda>k. 500000000 * k) [0..<40]). x \<le> u \<and> u \<le> x + 500000000"
      by blast
  qed
  moreover have "sorted (map re_now ?es)" unfolding m by (simp add: sorted_map mono_def)
  moreover have "fst (load_peer_data demo_lib (key_of 1) (net_disk demo_inbox)) = Inr demo_peer_a" by (rule demo_inbox_contact)
  ultimately show ?thesis
    using retry_ladder_climbs [OF demo_hkdf _ _ r, of "key_of 1" 0 demo_peer_a 500000000] r by (auto simp: demo_ticks_def busy_def)
qed

end
