(* ===== verification/Client_Connect.thy ===== *)
theory Client_Connect
  imports Client_Retry
begin

text \<open>
  Connecting to a peer (\<^verbatim>\<open>connect_session\<close> and \<^verbatim>\<open>establish_relay\<close> of \<^verbatim>\<open>crates/client/src/lib.rs\<close>). Each
  attempt is a task; the tasks of a client interleave at their await points and locks. The session
  map, the set of reservations, the tasks and the watchers of running sessions are the state of
  the step relation \<open>connect_step\<close>.
\<close>

section \<open>Choosing the transport\<close>

text \<open>
  From the outcomes of the hole punch, of the direct handshake and of the handshake over the relay
  (each consulted only where the code runs it): the transport, the session key and whether it
  is direct; \<open>None\<close> when the attempt is abandoned.
\<close>

definition establish_relay :: "p2p_error + bytes \<Rightarrow> (transport \<times> bytes) option" where
  "establish_relay relay = (case relay of Inr key \<Rightarrow> Some (Relay, key) | Inl _ \<Rightarrow> None)"

definition connect_transport ::
  "punch_hole_result + socket_addr \<Rightarrow> p2p_error + bytes \<Rightarrow> p2p_error + bytes \<Rightarrow> (transport \<times> bytes \<times> bool) option" where
  "connect_transport punch handshake relay =
     (case punch of
        Inr remote \<Rightarrow>
          (case handshake of
             Inr k \<Rightarrow> Some (Direct remote, k, True)
           | Inl _ \<Rightarrow> map_option (\<lambda>(t, k). (t, k, False)) (establish_relay relay))
      | Inl _ \<Rightarrow> map_option (\<lambda>(t, k). (t, k, False)) (establish_relay relay))"

text \<open>Storing a message of a conversation; \<open>nonce\<close> is the random nonce of the stored record.\<close>

definition persist_message ::
  "'d crypto_lib \<Rightarrow> keys \<Rightarrow> peer_public \<Rightarrow> bytes \<Rightarrow> rstr \<Rightarrow> author \<Rightarrow> i64 \<Rightarrow> bytes \<Rightarrow> ('d disk, rstr, unit) op" where
  "persist_message L keys peer_pub peer_id text a timestamp nonce =
     op_bind (op_lift (map_err (\<lambda>e. lit ''key derivation failed: '' @ show_crypto_errors L e)
       (load_storage_key L (pk_public peer_pub) (x25519_priv keys)))) (\<lambda>storage_key.
     op_bind (op_map_err (\<lambda>e. lit ''open chat db: '' @ show_crypto_errors L e) (load_peer_chat_file L peer_id)) (\<lambda>_.
     op_map_err (\<lambda>e. lit ''store message: '' @ show_crypto_errors L e)
       (insert_message_stored L (from_parts text a timestamp) storage_key nonce (chat_path L peer_id))))"

section \<open>Tasks\<close>

text \<open>
  Where an attempt is: it was spawned; it has read whether a session is live; it holds the
  reservation; it has entered its session and only drops the guard.
\<close>

datatype connect_pc = Spawned | Looked bool | Reserved | Landed

text \<open>A session in the map: which attempt made it, its state, whether frames from the relay go to it.\<close>

record session_entry =
  se_id :: nat
  se_session :: session
  se_relay_in :: bool

record 'd core =
  co_net :: "'d net"
  co_sessions :: "bytes \<rightharpoonup> session_entry"
  co_connecting :: "bytes set"
  co_tasks :: "nat \<rightharpoonup> peer_public \<times> connect_pc"
  co_watchers :: "(nat \<times> peer_public) set"
  co_next :: nat
  co_events :: "app_event list"

definition core_init :: "'d core \<Rightarrow> bool" where
  "core_init c \<longleftrightarrow> co_sessions c = Map.empty \<and> co_connecting c = {} \<and> co_tasks c = Map.empty
     \<and> co_watchers c = {} \<and> co_events c = []"

definition spawn_connect :: "peer_public \<Rightarrow> 'd core \<Rightarrow> 'd core" where
  "spawn_connect peer c = c\<lparr>co_tasks := (co_tasks c)(co_next c \<mapsto> (peer, Spawned)), co_next := co_next c + 1\<rparr>"

inductive connect_step :: "'d crypto_lib \<Rightarrow> keys \<Rightarrow> 'd core \<Rightarrow> 'd core \<Rightarrow> bool" for L me where
  spawn: "connect_step L me c (spawn_connect peer c)"
| look:
    "co_tasks c n = Some (peer, Spawned) \<Longrightarrow> h = generate_peer_hash L peer \<Longrightarrow>
     connect_step L me c (c\<lparr>co_tasks := (co_tasks c)(n \<mapsto> (peer, Looked (co_sessions c h \<noteq> None)))\<rparr>)"
| skip:
    "co_tasks c n = Some (peer, Looked live) \<Longrightarrow> h = generate_peer_hash L peer \<Longrightarrow>
     live \<or> h \<in> co_connecting c \<Longrightarrow>
     connect_step L me c (c\<lparr>co_tasks := (co_tasks c)(n := None)\<rparr>)"
| reserve:
    "co_tasks c n = Some (peer, Looked False) \<Longrightarrow> h = generate_peer_hash L peer \<Longrightarrow> h \<notin> co_connecting c \<Longrightarrow>
     connect_step L me c (c\<lparr>co_tasks := (co_tasks c)(n \<mapsto> (peer, Reserved)),
                            co_connecting := insert h (co_connecting c)\<rparr>)"
| abandon:
    "co_tasks c n = Some (peer, Reserved) \<Longrightarrow> h = generate_peer_hash L peer \<Longrightarrow>
     connect_transport punch handshake relay = None \<Longrightarrow>
     connect_step L me c (c\<lparr>co_tasks := (co_tasks c)(n := None), co_connecting := co_connecting c - {h}\<rparr>)"
| land:
    "co_tasks c n = Some (peer, Reserved) \<Longrightarrow> h = generate_peer_hash L peer \<Longrightarrow>
     connect_transport punch handshake relay = Some (tr, key, direct) \<Longrightarrow>
     start_session L tr key (x25519_pub me) (ed25519_signing me) peer (am_i_first (x25519_pub me) (pk_public peer)) = Some s \<Longrightarrow>
     connect_step L me c (c\<lparr>co_tasks := (co_tasks c)(n \<mapsto> (peer, Landed)),
       co_sessions := (co_sessions c)(h \<mapsto> \<lparr>se_id = n, se_session = s, se_relay_in = (tr = Relay)\<rparr>),
       co_watchers := insert (n, peer) (co_watchers c),
       co_events := co_events c @ [ASessionUp h direct]\<rparr>)"
| drop_guard:
    "co_tasks c n = Some (peer, Landed) \<Longrightarrow> h = generate_peer_hash L peer \<Longrightarrow>
     connect_step L me c (c\<lparr>co_tasks := (co_tasks c)(n := None), co_connecting := co_connecting c - {h}\<rparr>)"
| message:
    "(n, peer) \<in> co_watchers c \<Longrightarrow> h = generate_peer_hash L peer \<Longrightarrow>
     connect_step L me c (c\<lparr>co_net := snd (on_disk (persist_message L me peer h text Peer timestamp nonce) (co_net c)),
       co_events := co_events c @ [AMessageArrived h False]\<rparr>)"
| closed:
    "(n, peer) \<in> co_watchers c \<Longrightarrow> h = generate_peer_hash L peer \<Longrightarrow>
     connect_step L me c (c\<lparr>co_watchers := co_watchers c - {(n, peer)}, co_sessions := (co_sessions c)(h := None),
       co_events := co_events c @ [ASessionDown h]\<rparr>)"

text \<open>
  The task that watches a session, on the events of the session so far: messages are stored and
  reported, the end of the session takes it out of the map.
\<close>

fun watch_session ::
  "'d crypto_lib \<Rightarrow> keys \<Rightarrow> nat \<Rightarrow> peer_public \<Rightarrow> (nat \<Rightarrow> bytes) \<Rightarrow> nat \<Rightarrow> session_event list \<Rightarrow> 'd core \<Rightarrow> 'd core" where
  "watch_session L me n peer nonce i [] c = c"
| "watch_session L me n peer nonce i (SessionMessage text timestamp # es) c =
     (let h = generate_peer_hash L peer in
      watch_session L me n peer nonce (i + 1) es
        (c\<lparr>co_net := snd (on_disk (persist_message L me peer h text Peer timestamp (nonce i)) (co_net c)),
           co_events := co_events c @ [AMessageArrived h False]\<rparr>))"
| "watch_session L me n peer nonce i (SessionClosed # es) c =
     (let h = generate_peer_hash L peer in
      c\<lparr>co_watchers := co_watchers c - {(n, peer)}, co_sessions := (co_sessions c)(h := None), co_events := co_events c @ [ASessionDown h]\<rparr>)"

lemma watch_session_run:
  assumes "(n, peer) \<in> co_watchers c"
  shows "run_of (connect_step L me) c (watch_session L me n peer nonce i es c)"
  using assms
proof (induction es arbitrary: i c)
  case (Cons e es)
  have trans: "run_of (connect_step L me) x z" if "run_of (connect_step L me) y z" "connect_step L me x y" for x y z
    using that by (induction rule: run_of.induct) (auto intro: run_step run_refl)
  show ?case
  proof (cases e)
    case (SessionMessage t ts)
    let ?h = "generate_peer_hash L peer"
    let ?c = "c\<lparr>co_net := snd (on_disk (persist_message L me peer ?h t Peer ts (nonce i)) (co_net c)),
           co_events := co_events c @ [AMessageArrived ?h False]\<rparr>"
    have "connect_step L me c ?c" using Cons.prems by (intro message) simp_all
    moreover have "run_of (connect_step L me) ?c (watch_session L me n peer nonce (i + 1) es ?c)"
      using Cons.prems by (intro Cons.IH) simp
    ultimately show ?thesis using trans SessionMessage by (simp add: Let_def)
  next
    case SessionClosed
    have "connect_step L me c (watch_session L me n peer nonce i (e # es) c)"
      using closed [OF Cons.prems refl, of L me] SessionClosed by (simp add: Let_def)
    then show ?thesis by (blast intro: run_step run_refl)
  qed
qed (simp add: run_refl)

lemma persist_message_disk:
  "load_storage_key L (pk_public p) (x25519_priv me) = Inr sk \<Longrightarrow>
    snd (persist_message L me p h t a ts nonce d) = snd (store_message L h (from_parts t a ts) sk nonce d)"
  by (cases "load_peer_chat_file L h d"; cases "fst (load_peer_chat_file L h d)") (auto simp: persist_message_def store_message_def op_bind_def op_map_err_def split: prod.split)

text \<open>Messages the watcher of a session stores are read back as the peer's, in order.\<close>

lemma watch_session_stores:
  assumes "ch_lib c = L" and "ch_disk c = net_disk (co_net k)" and "load_storage_key L (pk_public (ch_peer c)) (x25519_priv me) = Inr (ch_key c)"
    and "chat_inv c" and "length ms \<le> chat_room c" and "\<forall>j < length ms. chat_accepts c (from_parts (fst (ms ! j)) Peer (snd (ms ! j)), nonce (i + j))"
    and "k' = watch_session L me n (ch_peer c) nonce i (map (\<lambda>(t, ts). SessionMessage t ts) ms) k"
  shows "chat_read (c\<lparr>ch_disk := net_disk (co_net k')\<rparr>) = chat_read c @ map (\<lambda>(t, ts). from_parts t Peer ts) ms
    \<and> co_events k' = co_events k @ replicate (length ms) (AMessageArrived (generate_peer_hash L (ch_peer c)) False)
    \<and> co_sessions k' = co_sessions k"
  using assms
proof (induction ms arbitrary: i c k)
  case Nil
  have "c\<lparr>ch_disk := net_disk (co_net k)\<rparr> = c" unfolding Nil.prems(2) [symmetric] by simp
  then show ?case unfolding Nil.prems(7) by simp
next
  case (Cons m ms)
  obtain t ts where m: "m = (t, ts)" by (cases m)
  let ?h = "generate_peer_hash L (ch_peer c)" and ?mn = "(from_parts t Peer ts, nonce i)"
  let ?k = "k\<lparr>co_net := snd (on_disk (persist_message L me (ch_peer c) ?h t Peer ts (nonce i)) (co_net k)),
           co_events := co_events k @ [AMessageArrived ?h False]\<rparr>"
  have acc: "0 < chat_room c" "chat_accepts c ?mn" using Cons.prems(5,6) m by auto
  have frame: "ch_lib (chat_append x c) = ch_lib c" "ch_peer (chat_append x c) = ch_peer c" "ch_key (chat_append x c) = ch_key c" for x
    by (simp_all add: chat_append_def)
  have disk: "ch_disk (chat_append ?mn c) = net_disk (co_net ?k)"
    using persist_message_disk [OF Cons.prems(3), of ?h t Peer ts "nonce i" "net_disk (co_net k)"] Cons.prems(1,2)
    by (simp add: chat_append_def on_disk_def generate_peer_hash_def split: prod.split) (metis snd_conv)
  have "chat_read ((chat_append ?mn c)\<lparr>ch_disk := net_disk (co_net k')\<rparr>) = chat_read (chat_append ?mn c) @ map (\<lambda>(t, ts). from_parts t Peer ts) ms
    \<and> co_events k' = co_events ?k @ replicate (length ms) (AMessageArrived ?h False) \<and> co_sessions k' = co_sessions ?k"
  proof (rule Cons.IH [of "chat_append ?mn c" ?k "i + 1", unfolded frame])
    show "\<forall>j<length ms. chat_accepts (chat_append ?mn c) (from_parts (fst (ms ! j)) Peer (snd (ms ! j)), nonce (i + 1 + j))"
      using Cons.prems(6) by (fastforce simp: chat_db.accepts_append)
  qed (use Cons.prems acc disk m chat_db.inv_append [OF Cons.prems(4) acc] chat_db.room_append [OF Cons.prems(4) acc] in \<open>auto simp: Let_def\<close>)
  moreover have "(chat_append ?mn c)\<lparr>ch_disk := d\<rparr> = c\<lparr>ch_disk := d\<rparr>" for d by (simp add: chat_append_def)
  ultimately show ?case using chat_db.read_append [OF Cons.prems(4) acc] m by (simp add: replicate_append_same [symmetric])
qed

text \<open>Attempts that hold the reservation of a peer.\<close>

definition holds :: "'d crypto_lib \<Rightarrow> 'd core \<Rightarrow> bytes \<Rightarrow> nat \<Rightarrow> bool" where
  "holds L c h n \<longleftrightarrow> (\<exists>peer pc. co_tasks c n = Some (peer, pc) \<and> (pc = Reserved \<or> pc = Landed) \<and> generate_peer_hash L peer = h)"

definition core_inv :: "'d crypto_lib \<Rightarrow> 'd core \<Rightarrow> bool" where
  "core_inv L c \<longleftrightarrow> (\<forall>h n m. holds L c h n \<longrightarrow> holds L c h m \<longrightarrow> n = m)
     \<and> (\<forall>h. h \<in> co_connecting c \<longleftrightarrow> (\<exists>n. holds L c h n))
     \<and> (\<forall>n. co_tasks c n \<noteq> None \<longrightarrow> n < co_next c)"

lemma holds_frame [simp]:
  "holds L (c\<lparr>co_events := e\<rparr>) = holds L c" "holds L (c\<lparr>co_watchers := w\<rparr>) = holds L c"
  "holds L (c\<lparr>co_sessions := s\<rparr>) = holds L c" "holds L (c\<lparr>co_connecting := k\<rparr>) = holds L c"
  "holds L (c\<lparr>co_next := j\<rparr>) = holds L c" "holds L (c\<lparr>co_net := d\<rparr>) = holds L c"
  by (simp_all add: holds_def fun_eq_iff)

lemma holds_update:
  "holds L (c\<lparr>co_tasks := (co_tasks c)(n \<mapsto> (peer, pc))\<rparr>) h m \<longleftrightarrow>
     (if m = n then (pc = Reserved \<or> pc = Landed) \<and> generate_peer_hash L peer = h else holds L c h m)"
  by (auto simp: holds_def)

lemma holds_delete:
  "holds L (c\<lparr>co_tasks := (co_tasks c)(n := None)\<rparr>) h m \<longleftrightarrow> m \<noteq> n \<and> holds L c h m"
  by (auto simp: holds_def)

lemma core_inv_keep:
  assumes "core_inv L c" and "holds L c' = holds L c" and "co_connecting c' = co_connecting c"
    and "co_tasks c' = co_tasks c" and "co_next c' = co_next c"
  shows "core_inv L c'"
  using assms by (simp add: core_inv_def)

lemma core_inv_release:
  assumes "core_inv L c" and "holds L c h n"
    and "\<And>k m. holds L c' k m \<longleftrightarrow> m \<noteq> n \<and> holds L c k m" and "co_connecting c' = co_connecting c - {h}"
    and "\<forall>m. co_tasks c' m \<noteq> None \<longrightarrow> m < co_next c'"
  shows "core_inv L c'"
proof -
  have one: "k = h" if "holds L c k n" for k using that assms(2) by (auto simp: holds_def)
  have u: "holds L c k m \<Longrightarrow> holds L c k m' \<Longrightarrow> m = m'" and con: "k \<in> co_connecting c \<longleftrightarrow> (\<exists>m. holds L c k m)" for k m m'
    using assms(1) unfolding core_inv_def by blast+
  have "k \<in> co_connecting c - {h} \<longleftrightarrow> (\<exists>m. m \<noteq> n \<and> holds L c k m)" for k
  proof
    assume "k \<in> co_connecting c - {h}"
    then obtain m where "holds L c k m" "k \<noteq> h" using con by blast
    then show "\<exists>m. m \<noteq> n \<and> holds L c k m" using one by metis
  next
    assume "\<exists>m. m \<noteq> n \<and> holds L c k m"
    then obtain m where m: "m \<noteq> n" "holds L c k m" by blast
    then have "k \<noteq> h" using u assms(2) by metis
    then show "k \<in> co_connecting c - {h}" using con m(2) by blast
  qed
  then show ?thesis using u assms(5) unfolding core_inv_def assms(3,4) by blast
qed

lemma core_inv_step:
  assumes "connect_step L me c c'" and "core_inv L c"
  shows "core_inv L c'"
  using assms
proof (induction rule: connect_step.induct)
  case (spawn c peer)
  have "co_tasks c (co_next c) = None" using spawn unfolding core_inv_def by (metis less_irrefl)
  then have "holds L (spawn_connect peer c) = holds L c" by (auto simp: fun_eq_iff holds_def spawn_connect_def)
  then show ?case using spawn by (auto simp: core_inv_def less_Suc_eq spawn_connect_def)
next
  case (look c n peer h)
  have "holds L (c\<lparr>co_tasks := (co_tasks c)(n \<mapsto> (peer, Looked (co_sessions c h \<noteq> None)))\<rparr>) = holds L c"
    using look(1) by (auto simp: fun_eq_iff holds_def)
  then show ?case using look by (auto simp: core_inv_def)
next
  case (skip c n peer live h)
  have "holds L (c\<lparr>co_tasks := (co_tasks c)(n := None)\<rparr>) = holds L c"
    using skip(1) by (auto simp: fun_eq_iff holds_def)
  then show ?case using skip by (auto simp: core_inv_def)
next
  case (reserve c n peer h)
  let ?c = "c\<lparr>co_tasks := (co_tasks c)(n \<mapsto> (peer, Reserved)), co_connecting := insert h (co_connecting c)\<rparr>"
  have new: "holds L ?c k m \<longleftrightarrow> holds L c k m \<or> m = n \<and> k = h" for k m
    using reserve(1,2) by (auto simp: holds_def)
  have free: "\<not> holds L c h m" for m using reserve(3,4) by (auto simp: core_inv_def)
  have fresh: "\<not> holds L c k n" for k using reserve(1) by (auto simp: holds_def)
  have lt: "\<forall>m. co_tasks ?c m \<noteq> None \<longrightarrow> m < co_next ?c" using reserve(1,4) by (auto simp: core_inv_def)
  show ?case
    unfolding core_inv_def new
  proof (intro conjI allI impI)
    fix k m m'
    assume "holds L c k m \<or> m = n \<and> k = h" "holds L c k m' \<or> m' = n \<and> k = h"
    then show "m = m'" using free fresh reserve(4) by (auto simp: core_inv_def)
  next
    fix k
    show "k \<in> co_connecting ?c \<longleftrightarrow> (\<exists>m. holds L c k m \<or> m = n \<and> k = h)"
      using reserve(4) by (auto simp: core_inv_def)
  qed (use lt in blast)
next
  case (abandon c n peer h punch handshake relay)
  have "holds L c h n" using abandon by (auto simp: holds_def)
  then show ?case
    by (rule core_inv_release [OF abandon(4)]) (use abandon in \<open>auto simp: holds_delete core_inv_def\<close>)
next
  case (land c n peer h punch handshake relay tr key direct s)
  let ?c = "c\<lparr>co_tasks := (co_tasks c)(n \<mapsto> (peer, Landed)),
       co_sessions := (co_sessions c)(h \<mapsto> \<lparr>se_id = n, se_session = s, se_relay_in = (tr = Relay)\<rparr>),
       co_watchers := insert (n, peer) (co_watchers c), co_events := co_events c @ [ASessionUp h direct]\<rparr>"
  have "holds L ?c = holds L c" using land(1) by (auto simp: fun_eq_iff holds_def)
  then show ?case using land by (auto simp: core_inv_def)
next
  case (drop_guard c n peer h)
  have "holds L c h n" using drop_guard by (auto simp: holds_def)
  then show ?case
    by (rule core_inv_release [OF drop_guard(3)]) (use drop_guard in \<open>auto simp: holds_delete core_inv_def\<close>)
next
  case (message n peer c h "text" timestamp nonce)
  then show ?case by (auto intro: core_inv_keep)
next
  case (closed n peer c h)
  then show ?case by (auto intro: core_inv_keep)
qed

interpretation connecting: invariant_system core_init "connect_step L me" "core_inv L" for L me
proof
  show "core_inv L c" if "core_init c" for c
    using that by (simp add: core_init_def core_inv_def holds_def)
qed (rule core_inv_step)

section \<open>Races\<close>

lemma start_session_total:
  assumes "hkdf_ok L"
  shows "\<exists>s. start_session L tr key pub signing peer first = Some s"
proof -
  obtain k1 where k1: "hkdf_expand L key (info ''a2b'') 32 = Some k1"
    using assms by (rule hkdf_okE [where n = 32]) simp_all
  obtain k2 where k2: "hkdf_expand L key (info ''b2a'') 32 = Some k2"
    using assms by (rule hkdf_okE [where n = 32]) simp_all
  show ?thesis
    using k1 k2 by (cases first) (simp_all add: start_session_def session_labels_def derive_directional_key_def)
qed

definition core0 :: "'d net \<Rightarrow> 'd core" where
  "core0 d = \<lparr>co_net = d, co_sessions = Map.empty, co_connecting = {}, co_tasks = Map.empty, co_watchers = {}, co_next = 0, co_events = []\<rparr>"

lemma core0_init: "core_init (core0 d)"
  by (simp add: core_init_def core0_def)

text \<open>Steps that keep only what the race needs.\<close>

lemma connect_look:
  assumes "run_of (connect_step L me) c0 c" and "h = generate_peer_hash L peer"
  shows "run_of (connect_step L me) c0 (c\<lparr>co_tasks := (co_tasks c)(co_next c \<mapsto> (peer, Looked (co_sessions c h \<noteq> None))), co_next := co_next c + 1\<rparr>)"
proof -
  let ?c = "spawn_connect peer c"
  have "run_of (connect_step L me) c0 ?c" using assms(1) by (blast intro: run_step spawn)
  moreover have "co_tasks ?c (co_next c) = Some (peer, Spawned)" by (simp add: spawn_connect_def)
  ultimately have "run_of (connect_step L me) c0 (?c\<lparr>co_tasks := (co_tasks ?c)(co_next c \<mapsto> (peer, Looked (co_sessions ?c h \<noteq> None)))\<rparr>)"
    using assms(2) by (blast intro: run_step look)
  then show ?thesis by (cases c) (simp add: spawn_connect_def)
qed

text \<open>
  The run of two attempts that both look before either reserves: the first lands and drops its
  guard, the second then reserves although a session is live. \<open>s\<close> is the first session.
\<close>

definition raced :: "'d crypto_lib \<Rightarrow> 'd net \<Rightarrow> peer_public \<Rightarrow> session \<Rightarrow> 'd core" where
  "raced L d peer s = (let h = generate_peer_hash L peer in
     \<lparr>co_net = d, co_sessions = [h \<mapsto> \<lparr>se_id = 0, se_session = s, se_relay_in = True\<rparr>], co_connecting = {h},
      co_tasks = [1 \<mapsto> (peer, Reserved)], co_watchers = {(0, peer)}, co_next = 2, co_events = [ASessionUp h False]\<rparr>)"

lemma run_raced:
  assumes "start_session L Relay key (x25519_pub me) (ed25519_signing me) peer (am_i_first (x25519_pub me) (pk_public peer)) = Some s"
  shows "run_of (connect_step L me) (core0 d) (raced L d peer s)"
proof -
  let ?h = "generate_peer_hash L peer"
  have tr: "connect_transport (Inl PunchTimeout) (Inl Timeout) (Inr key) = Some (Relay, key, False)"
    by (simp add: connect_transport_def establish_relay_def)
  have "run_of (connect_step L me) (core0 d) (core0 d)" by (rule run_refl)
  from connect_look [OF connect_look [OF this refl, of peer] refl, of peer]
  have "run_of (connect_step L me) (core0 d) ((core0 d)\<lparr>co_tasks := [0 \<mapsto> (peer, Looked False), 1 \<mapsto> (peer, Looked False)], co_next := 2\<rparr>)"
    by (simp add: core0_def numeral_2_eq_2)
  from run_step [OF this reserve [of _ 0 peer ?h]]
  have "run_of (connect_step L me) (core0 d)
      ((core0 d)\<lparr>co_tasks := [0 \<mapsto> (peer, Reserved), 1 \<mapsto> (peer, Looked False)], co_next := 2, co_connecting := {?h}\<rparr>)"
    by (simp add: core0_def fun_upd_twist)
  from run_step [OF this land [of _ 0 peer ?h, OF _ refl tr assms]]
  have "run_of (connect_step L me) (core0 d)
      ((core0 d)\<lparr>co_tasks := [0 \<mapsto> (peer, Landed), 1 \<mapsto> (peer, Looked False)], co_next := 2, co_connecting := {?h},
         co_sessions := [?h \<mapsto> \<lparr>se_id = 0, se_session = s, se_relay_in = True\<rparr>], co_watchers := {(0, peer)}, co_events := [ASessionUp ?h False]\<rparr>)"
    by (simp add: core0_def fun_upd_twist)
  from run_step [OF this drop_guard [of _ 0 peer ?h]]
  have "run_of (connect_step L me) (core0 d)
      ((core0 d)\<lparr>co_tasks := [1 \<mapsto> (peer, Looked False)], co_next := 2, co_connecting := {},
         co_sessions := [?h \<mapsto> \<lparr>se_id = 0, se_session = s, se_relay_in = True\<rparr>], co_watchers := {(0, peer)}, co_events := [ASessionUp ?h False]\<rparr>)"
    by (simp add: core0_def fun_upd_twist)
  from run_step [OF this reserve [of _ 1 peer ?h]] show ?thesis
    by (simp add: core0_def raced_def Let_def)
qed

text \<open>
  Two races the reservation does not prevent. Two attempts that both look for a live session
  before either reserves lead to a second attempt for a peer whose session is already up; and when
  the second attempt lands too, the end of the first session removes the second one from the
  session map while it is still running.
\<close>

theorem connect_races:
  assumes "hkdf_ok L"
  shows "(\<exists>c. run_of (connect_step L me) (core0 d) c \<and> co_sessions c (generate_peer_hash L peer) \<noteq> None
            \<and> co_tasks c 1 = Some (peer, Reserved))
    \<and> (\<exists>c. run_of (connect_step L me) (core0 d) c \<and> co_sessions c (generate_peer_hash L peer) = None
            \<and> (1, peer) \<in> co_watchers c)"
proof -
  let ?h = "generate_peer_hash L peer"
  obtain s where s: "start_session L Relay [] (x25519_pub me) (ed25519_signing me) peer (am_i_first (x25519_pub me) (pk_public peer)) = Some s"
    using start_session_total [OF assms] by blast
  have tr: "connect_transport (Inl PunchTimeout) (Inl Timeout) (Inr []) = Some (Relay, [], False)"
    by (simp add: connect_transport_def establish_relay_def)
  have r: "run_of (connect_step L me) (core0 d) (raced L d peer s)" using s by (rule run_raced)
  have t: "co_tasks (raced L d peer s) 1 = Some (peer, Reserved)" by (simp add: raced_def Let_def)
  define c where "c = (raced L d peer s)\<lparr>co_tasks := (co_tasks (raced L d peer s))(1 \<mapsto> (peer, Landed)),
       co_sessions := (co_sessions (raced L d peer s))(?h \<mapsto> \<lparr>se_id = 1, se_session = s, se_relay_in = (Relay = Relay)\<rparr>),
       co_watchers := insert (1, peer) (co_watchers (raced L d peer s)),
       co_events := co_events (raced L d peer s) @ [ASessionUp ?h False]\<rparr>"
  have "run_of (connect_step L me) (core0 d) c"
    unfolding c_def using run_step [OF r land [OF t refl tr s]] .
  moreover have "(0, peer) \<in> co_watchers c" by (simp add: c_def raced_def Let_def)
  ultimately have e: "run_of (connect_step L me) (core0 d) (c\<lparr>co_watchers := co_watchers c - {(0, peer)},
      co_sessions := (co_sessions c)(?h := None), co_events := co_events c @ [ASessionDown ?h]\<rparr>)" (is "run_of _ _ ?c")
    by (blast intro: run_step closed)
  have "co_sessions ?c ?h = None" "(1, peer) \<in> co_watchers ?c" by (simp_all add: c_def)
  with e have "\<exists>c. run_of (connect_step L me) (core0 d) c \<and> co_sessions c ?h = None \<and> (1, peer) \<in> co_watchers c" by blast
  moreover have "co_sessions (raced L d peer s) ?h \<noteq> None" by (simp add: raced_def Let_def)
  ultimately show ?thesis using r t by blast
qed

theorem connect_races_witness:
  "\<exists>c. run_of (connect_step demo_lib \<lparr>x25519_priv = key_of 2, x25519_pub = key_of 2, ed25519_signing = key_of 2, ed25519_verifying = key_of 2\<rparr>)
       (core0 demo_net) c
     \<and> co_sessions c (generate_peer_hash demo_lib demo_peer_a) = None \<and> (1, demo_peer_a) \<in> co_watchers c"
  using connect_races [OF demo_hkdf] by blast

section \<open>Relay frames during a handshake\<close>

text \<open>
  What the core does with a frame relayed by the server (\<^verbatim>\<open>ServerEvent::RelayData\<close> in
  \<^verbatim>\<open>handle_server_event\<close>): the attempt whose session gets it, if any.
\<close>

definition route_relay_data :: "'d core \<Rightarrow> bytes \<Rightarrow> nat option" where
  "route_relay_data c sender_hash =
     (case co_sessions c sender_hash of
        Some e \<Rightarrow> if se_relay_in e then Some (se_id e) else None
      | None \<Rightarrow> None)"

definition route_inv :: "'d core \<Rightarrow> bool" where
  "route_inv c \<longleftrightarrow> (\<forall>n. co_tasks c n \<noteq> None \<longrightarrow> n < co_next c)
     \<and> (\<forall>h e. co_sessions c h = Some e \<longrightarrow> se_id e < co_next c
          \<and> (\<forall>peer pc. co_tasks c (se_id e) = Some (peer, pc) \<longrightarrow> pc = Landed))"

lemma route_inv_step:
  assumes "connect_step L me c c'" and "route_inv c"
  shows "route_inv c'"
  using assms by (cases rule: connect_step.cases) (fastforce simp: route_inv_def spawn_connect_def split: if_splits)+

interpretation routing: invariant_system core_init "connect_step L me" route_inv for L me
proof
  show "route_inv c" if "core_init c" for c
    using that by (simp add: core_init_def route_inv_def)
qed (rule route_inv_step)

text \<open>
  C36: The fallback to the relay starves. A frame the server relays is handed only to a session
  that has already landed, never to an attempt that is still shaking hands; and a handshake over
  the relay that is handed no frame never yields a key, whatever else happens to it.
\<close>

theorem relay_handshake_starves:
  assumes "core_init c" and "run_of (connect_step L me) c c'" and "co_tasks c' n = Some (peer, Reserved)"
  shows "route_relay_data c' h \<noteq> Some n
    \<and> ((\<forall>(t, u, ev) \<in> set es. \<forall>b addr. ev \<noteq> Recv b addr) \<longrightarrow>
         (\<forall>key. snd (relay_handshake L C pub priv eph remote signing now up es) \<noteq> Some (Inr key)))"
proof -
  have inv: "route_inv c'" using routing.inv_reachable [OF assms(1,2)] .
  have "route_relay_data c' h \<noteq> Some n"
  proof
    assume "route_relay_data c' h = Some n"
    then obtain e where "co_sessions c' h = Some e" "se_id e = n"
      by (auto simp: route_relay_data_def split: option.splits if_splits)
    with inv assms(3) have "Reserved = Landed" unfolding route_inv_def by metis
    then show False by simp
  qed
  moreover have "snd (relay_handshake L C pub priv eph remote signing now up es) \<noteq> Some (Inr key)"
    if none: "\<forall>(t, u, ev) \<in> set es. \<forall>b addr. ev \<noteq> Recv b addr" for key
  proof
    assume "snd (relay_handshake L C pub priv eph remote signing now up es) = Some (Inr key)"
    then obtain x where x: "x \<in> set es" "relay_decides L C remote priv x = Some (Inr key)"
      unfolding snd_relay_handshake using shake.result_mem by metis
    obtain t u ev where "x = (t, u, ev)" by (cases x)
    then show False using x none by (cases ev) auto
  qed
  ultimately show ?thesis by blast
qed

theorem relay_handshake_starves_witness:
  "\<exists>c :: demo_db core. co_tasks c 1 = Some (demo_peer_a, Reserved) \<and> route_relay_data c (generate_peer_hash demo_lib demo_peer_a) \<noteq> Some 1"
proof -
  let ?me = "\<lparr>x25519_priv = key_of 2, x25519_pub = key_of 2, ed25519_signing = key_of 2, ed25519_verifying = key_of 2\<rparr>"
  obtain s where "start_session demo_lib Relay [] (x25519_pub ?me) (ed25519_signing ?me) demo_peer_a (am_i_first (x25519_pub ?me) (pk_public demo_peer_a)) = Some s"
    using start_session_total [OF demo_hkdf] by blast
  then have r: "run_of (connect_step demo_lib ?me) (core0 demo_net) (raced demo_lib demo_net demo_peer_a s)"
    by (rule run_raced)
  have t: "co_tasks (raced demo_lib demo_net demo_peer_a s) 1 = Some (demo_peer_a, Reserved)"
    by (simp add: raced_def Let_def)
  show ?thesis using relay_handshake_starves [OF core0_init r t] t by blast
qed

end
