(* ===== verification/Client_Config.thy ===== *)
theory Client_Config
  imports Client_Connect "HOL-Library.Multiset"
begin

text \<open>
  What the client keeps in its own files and how it names peers
  (\<^verbatim>\<open>crates/client/src/lib.rs\<close>): the server address, the aliases, the identity, the list of
  contacts, looking a contact up by what the user typed, the conversation history, and the STUN
  address derived from the server address. The alias file implements the interface
  \<open>contact_book\<close> of the peers directory.
\<close>

section \<open>Server address\<close>

definition fingerprint :: "'d crypto_lib \<Rightarrow> bytes \<Rightarrow> rstr" where
  "fingerprint L ident = hex_encode L (take 6 ident)"

definition server_config_path :: "'d crypto_lib \<Rightarrow> path" where
  "server_config_path L = sechat_dir L @ [lit ''server'']"

definition load_server :: "'d crypto_lib \<Rightarrow> 'd disk \<Rightarrow> rstr option" where
  "load_server L d =
     Option.bind (map_option trim (ok (fst (read_to_string (server_config_path L) d))))
       (\<lambda>s. if s \<noteq> [] then Some s else None)"

definition save_server :: "'d crypto_lib \<Rightarrow> rstr \<Rightarrow> ('d disk, io_error, unit) op" where
  "save_server L addr =
     op_bind (fs_create_dir_all (sechat_dir L)) (\<lambda>_. fs_write (server_config_path L) (as_bytes (trim addr)))"

text \<open>\<open>env\<close>: the variable \<^verbatim>\<open>SECHAT_SERVER\<close>, when it is set to a valid string.\<close>

definition resolve_server :: "'d crypto_lib \<Rightarrow> rstr option \<Rightarrow> 'd disk \<Rightarrow> rstr option" where
  "resolve_server L env d =
     (case Option.bind env (\<lambda>s. if s \<noteq> [] then Some s else None) of
        Some s \<Rightarrow> Some s | None \<Rightarrow> load_server L d)"

section \<open>Aliases\<close>

definition aliases_path :: "'d crypto_lib \<Rightarrow> path" where
  "aliases_path L = sechat_dir L @ [lit ''aliases'']"

text \<open>One line of the file: a hex identity, a tab, the name.\<close>

definition parse_alias :: "'d crypto_lib \<Rightarrow> rstr \<Rightarrow> (bytes \<times> rstr) option" where
  "parse_alias L line =
     Option.bind (split_once 9 line) (\<lambda>(hex_id, name).
     Option.bind (hex_decode L hex_id) (\<lambda>b.
     map_option (\<lambda>ident. (ident, name)) (try32 b)))"

text \<open>A \<^verbatim>\<open>HashMap\<close> as an association list with distinct keys.\<close>

definition load_aliases :: "'d crypto_lib \<Rightarrow> 'd disk \<Rightarrow> (bytes \<times> rstr) list" where
  "load_aliases L d =
     (case fst (read_to_string (aliases_path L) d) of
        Inr content \<Rightarrow>
          fold (\<lambda>line m. case parse_alias L line of Some (ident, name) \<Rightarrow> AList.update ident name m | None \<Rightarrow> m)
            (lines content) []
      | Inl _ \<Rightarrow> [])"

definition alias_text :: "'d crypto_lib \<Rightarrow> (bytes \<times> rstr) list \<Rightarrow> rstr" where
  "alias_text L m = concat (map (\<lambda>(k, v). hex_encode L k @ [9] @ v @ [10]) m)"

text \<open>
  \<open>iter\<close>: the order in which iterating over a map visits its entries, which the language leaves
  open; \<open>iter_ok\<close> says that it visits each of them once.
\<close>

definition iter_ok :: "((bytes \<times> rstr) list \<Rightarrow> (bytes \<times> rstr) list) \<Rightarrow> bool" where
  "iter_ok iter \<longleftrightarrow> (\<forall>m. distinct (map fst m) \<longrightarrow> distinct (map fst (iter m)) \<and> set (iter m) = set m)"

definition set_alias ::
  "'d crypto_lib \<Rightarrow> ((bytes \<times> rstr) list \<Rightarrow> (bytes \<times> rstr) list) \<Rightarrow> bytes \<Rightarrow> rstr \<Rightarrow> ('d disk, rstr, unit) op" where
  "set_alias L iter ident name0 d =
     (let name = trim name0 in
      if name = [] \<or> length name > 32 then (Inl (lit ''alias must be 1-32 characters''), d)
      else
        (let m = AList.update ident name (load_aliases L d) in
         op_map_err (io_display L)
           (op_bind (fs_create_dir_all (sechat_dir L)) (\<lambda>_. fs_write (aliases_path L) (as_bytes (alias_text L (iter m))))) d))"

definition alias_of :: "'d crypto_lib \<Rightarrow> bytes \<Rightarrow> 'd disk \<Rightarrow> rstr option" where
  "alias_of L ident d = map_of (load_aliases L d) ident"

definition remove_alias ::
  "'d crypto_lib \<Rightarrow> ((bytes \<times> rstr) list \<Rightarrow> (bytes \<times> rstr) list) \<Rightarrow> bytes \<Rightarrow> ('d disk, rstr, unit) op" where
  "remove_alias L iter ident d =
     (let m = load_aliases L d in
      if map_of m ident = None then (Inr (), d)
      else op_map_err (io_display L) (fs_write (aliases_path L) (as_bytes (alias_text L (iter (AList.delete ident m))))) d)"

definition data_dir :: "'d crypto_lib \<Rightarrow> rstr" where
  "data_dir L = path_str (sechat_dir L)"

section \<open>Contacts\<close>

record contact =
  ct_id :: bytes
  ct_fingerprint :: rstr
  ct_online :: bool
  ct_address :: "rstr option"
  ct_alias :: "rstr option"

definition label :: "contact \<Rightarrow> rstr" where
  "label c = (case ct_alias c of Some a \<Rightarrow> a | None \<Rightarrow> ct_fingerprint c)"

text \<open>The later of two online entries with one identity wins in the collected map.\<close>

definition contacts :: "'d crypto_lib \<Rightarrow> i64 \<Rightarrow> 'd net \<Rightarrow> contact list \<times> 'd net" where
  "contacts L now s =
     (let all = unwrap_or [] (fst (load_peers L (net_disk s)));
          (r, s') = load_online_peers now s;
          live = map_of (rev (map (\<lambda>p. (identity_hash L (pk_public (op_keys p)) (pk_verifying (op_keys p)), op_address p)) (unwrap_or [] r)));
          aliases = map_of (load_aliases L (net_disk s))
      in (map (\<lambda>p. let ident = identity_hash L (pk_public p) (pk_verifying p); address = live ident in
            \<lparr>ct_id = ident, ct_fingerprint = fingerprint L ident, ct_online = address \<noteq> None,
             ct_address = address, ct_alias = aliases ident\<rparr>) all, s'))"

definition resolve_query :: "contact list \<Rightarrow> rstr \<Rightarrow> bytes option" where
  "resolve_query cs query =
     (let q = trim query in
      if q = [] then None
      else map_option ct_id
        (case List.find (\<lambda>c. ct_alias c = Some q) cs of
           Some c \<Rightarrow> Some c
         | None \<Rightarrow>
             (case List.find (\<lambda>c. case ct_alias c of Some a \<Rightarrow> prefix q a | None \<Rightarrow> False) cs of
                Some c \<Rightarrow> Some c
              | None \<Rightarrow> List.find (\<lambda>c. prefix q (ct_fingerprint c)) cs)))"

definition resolve_peer :: "'d crypto_lib \<Rightarrow> i64 \<Rightarrow> rstr \<Rightarrow> 'd net \<Rightarrow> bytes option \<times> 'd net" where
  "resolve_peer L now query s = (case contacts L now s of (cs, s') \<Rightarrow> (resolve_query cs query, s'))"

section \<open>Identity and history\<close>

definition identity_exists :: "'d crypto_lib \<Rightarrow> 'd disk \<Rightarrow> bool" where
  "identity_exists L d = exists d (identity_key_path L)"

text \<open>\<open>None\<close>: the panic of \<open>decrypt_keyfile\<close>.\<close>

definition unlock :: "'d crypto_lib \<Rightarrow> rstr \<Rightarrow> 'd disk \<Rightarrow> (rstr + keys) option" where
  "unlock L password d =
     (case fst (read_keyfile L d) of
        Inl e \<Rightarrow> Some (Inl (lit ''failed to read identity file''))
      | Inr f \<Rightarrow> map_option (map_err (\<lambda>_. lit ''wrong password'')) (decrypt_keyfile L password f))"

text \<open>\<open>show\<close>: how the error of writing the key file prints.\<close>

definition create_identity ::
  "'d crypto_lib \<Rightarrow> (keyfile_error \<Rightarrow> rstr) \<Rightarrow> rstr \<Rightarrow> bytes \<Rightarrow> bytes \<Rightarrow> bytes \<Rightarrow> bytes \<Rightarrow> ('d disk, rstr, keys) op" where
  "create_identity L show password secret signing salt nonce =
     (let (x_priv, x_pub) = generate_x25519 L secret; verifying = ed_public L signing in
      op_bind (op_map_err (\<lambda>e. lit ''failed to write identity: '' @ show e)
        (encrypt_keyfile L password x_priv x_pub signing salt nonce)) (\<lambda>_.
      op_ret \<lparr>x25519_priv = x_priv, x25519_pub = x_pub, ed25519_signing = signing, ed25519_verifying = verifying\<rparr>))"

record chat_line =
  cl_from_me :: bool
  cl_text :: rstr
  cl_timestamp :: i64

definition chat_line_of :: "message \<Rightarrow> chat_line" where
  "chat_line_of m = \<lparr>cl_from_me = (msg_author m = You), cl_text = msg_text m, cl_timestamp = msg_timestamp m\<rparr>"

definition history :: "'d crypto_lib \<Rightarrow> keys \<Rightarrow> bytes \<Rightarrow> ('d disk, rstr, chat_line list) op" where
  "history L me peer =
     op_bind (op_map_err (\<lambda>e. lit ''unknown peer: '' @ show_crypto_errors L e) (load_peer_data L peer)) (\<lambda>peer_pub.
     op_bind (op_lift (map_err (\<lambda>e. lit ''key derivation failed: '' @ show_crypto_errors L e)
       (load_storage_key L (pk_public peer_pub) (x25519_priv me)))) (\<lambda>storage_key.
     op_bind (op_map_err (\<lambda>e. lit ''failed to read history: '' @ show_crypto_errors L e)
       (load_peer_chat_messages L peer_pub storage_key)) (\<lambda>ms.
     op_ret (map chat_line_of (ms_data ms)))))"

section \<open>STUN address\<close>

definition default_stun_addr :: "rstr \<Rightarrow> rstr" where
  "default_stun_addr server_address =
     (let host = (case rsplit_once 58 server_address of Some (h, _) \<Rightarrow> h | None \<Rightarrow> server_address);
          host' = (case strip_prefix (lit ''relay.'') host of Some rest \<Rightarrow> lit ''stun.'' @ rest | None \<Rightarrow> host)
      in host' @ lit '':3478'')"

section \<open>Reading back what was written\<close>

lemma read_to_string_file:
  "readable d p \<Longrightarrow> node_at d p = Some (FileNode (as_bytes s)) \<Longrightarrow> rust_str s \<Longrightarrow> read_to_string p d = (Inr s, d)"
  by (simp add: read_to_string_def readable_def fs_open_read_file fs_contents_file from_utf8_as_bytes)

lemma rust_str_trim: "rust_str s \<Longrightarrow> rust_str (trim s)"
  using set_trim by (auto simp: rust_str_def list_all_iff)

text \<open>
  The server address survives a restart. What \<open>save_server\<close> wrote is what \<open>load_server\<close> and
  \<open>resolve_server\<close> return, without the blanks around it; a non-empty \<^verbatim>\<open>SECHAT_SERVER\<close> in the
  environment takes precedence over it.
\<close>

lemma server_address_roundtrip:
  assumes "rust_str addr" and "trim addr \<noteq> []" and "readable d (server_config_path L)"
    and "save_server L addr d = (Inr (), d')"
  shows "load_server L d' = Some (trim addr)
    \<and> resolve_server L env d' = (if env = None \<or> env = Some [] then Some (trim addr) else env)"
proof -
  from assms(4) obtain d1 where m: "fs_create_dir_all (sechat_dir L) d = (Inr (), d1)"
    and w: "fs_write (server_config_path L) (as_bytes (trim addr)) d1 = (Inr (), d')"
    by (auto simp: save_server_def op_bind_ok)
  have "readable d' (server_config_path L)"
    using assms(3) create_dir_all_ok(2) [OF m] by (simp add: fs_write_ok(1) [OF w] readable_def)
  moreover have "node_at d' (server_config_path L) = Some (FileNode (as_bytes (trim addr)))"
    by (simp add: fs_write_ok(1) [OF w])
  ultimately have "read_to_string (server_config_path L) d' = (Inr (trim addr), d')"
    using assms(1) by (simp add: read_to_string_file rust_str_trim)
  then show ?thesis
    using assms(2) by (auto simp: load_server_def resolve_server_def split: option.splits)
qed

section \<open>The alias file as a contact book\<close>

text \<open>A pair that survives the file: a 32-byte identity and a name on one line.\<close>

definition alias_entry :: "bytes \<times> rstr \<Rightarrow> bool" where
  "alias_entry e \<longleftrightarrow> length (fst e) = 32 \<and> rust_str (snd e) \<and> 10 \<notin> set (snd e) \<and> (snd e = [] \<or> last (snd e) \<noteq> 13)"

lemma hex_digits: "hex_ok L \<Longrightarrow> \<forall>c \<in> set (hex_encode L k). hex_digit c"
  by (simp add: hex_ok_def list_all_iff)

lemma hex_no_control: "hex_ok L \<Longrightarrow> c < 48 \<Longrightarrow> c \<notin> set (hex_encode L k)"
  using hex_digits [of L k] by (auto simp: hex_digit_def)

lemma parse_alias_line: "hex_ok L \<Longrightarrow> length k = 32 \<Longrightarrow> parse_alias L (hex_encode L k @ 9 # v) = Some (k, v)"
  using hex_no_control [of L 9 k] by (simp add: parse_alias_def split_once_append hex_ok_def try32_len)

lemma lines_alias_text:
  "hex_ok L \<Longrightarrow> \<forall>e \<in> set m. alias_entry e \<Longrightarrow> lines (alias_text L m) = map (\<lambda>(k, v). hex_encode L k @ 9 # v) m"
proof (induction m)
  case (Cons e m)
  obtain k v where [simp]: "e = (k, v)" by (cases e)
  have "lines ((hex_encode L k @ 9 # v) @ 10 # alias_text L m) = (hex_encode L k @ 9 # v) # lines (alias_text L m)"
    using Cons.prems hex_no_control [of L 10 k] by (intro lines_line) (auto simp: alias_entry_def)
  with Cons show ?case by (simp add: alias_text_def)
qed (simp add: alias_text_def)

lemma update_new: "k \<notin> fst ` set m \<Longrightarrow> AList.update k v m = m @ [(k, v)]"
  by (induction m) auto

lemma fold_aliases:
  "hex_ok L \<Longrightarrow> \<forall>e \<in> set m. alias_entry e \<Longrightarrow> distinct (map fst (m0 @ m)) \<Longrightarrow>
    fold (\<lambda>line m. case parse_alias L line of Some (ident, name) \<Rightarrow> AList.update ident name m | None \<Rightarrow> m)
      (map (\<lambda>(k, v). hex_encode L k @ 9 # v) m) m0 = m0 @ m"
proof (induction m arbitrary: m0)
  case (Cons e m)
  obtain k v where [simp]: "e = (k, v)" by (cases e)
  have "parse_alias L (hex_encode L k @ 9 # v) = Some (k, v)"
    using Cons.prems by (simp add: parse_alias_line alias_entry_def)
  then show ?case using Cons.IH [of "m0 @ [(k, v)]"] Cons.prems by (simp add: update_new)
qed simp

lemma rust_str_alias_text:
  assumes "hex_ok L" and "\<forall>e \<in> set m. alias_entry e"
  shows "rust_str (alias_text L m)"
proof -
  have "rust_str (hex_encode L k)" for k
    using hex_digits [OF assms(1), of k] by (fastforce simp: rust_str_def list_all_iff hex_digit_def scalar_def)
  then show ?thesis
    using assms(2) by (fastforce simp: alias_text_def rust_str_def list_all_iff alias_entry_def scalar_def)
qed

lemma load_aliases_written:
  assumes "hex_ok L" and "readable d (aliases_path L)" and "\<forall>e \<in> set m. alias_entry e" and "distinct (map fst m)"
    and "node_at d (aliases_path L) = Some (FileNode (as_bytes (alias_text L m)))"
  shows "load_aliases L d = m"
  using read_to_string_file [OF assms(2,5) rust_str_alias_text [OF assms(1,3)]] fold_aliases [OF assms(1,3), of "[]"] assms(4)
  by (simp add: load_aliases_def lines_alias_text [OF assms(1,3)])

lemma distinct_load_aliases [simp]: "distinct (map fst (load_aliases L d))"
proof -
  let ?f = "\<lambda>line m. case parse_alias L line of Some (ident, name) \<Rightarrow> AList.update ident name m | None \<Rightarrow> m"
  have "distinct (map fst (fold ?f ls m))" if "distinct (map fst m)" for ls m
    using that by (induction ls arbitrary: m) (auto simp: distinct_update split: option.splits)
  then show ?thesis by (simp add: load_aliases_def split: sum.splits)
qed

lemma map_of_iter:
  "iter_ok iter \<Longrightarrow> distinct (map fst m) \<Longrightarrow> map_of (iter m) = map_of m"
  unfolding iter_ok_def by (metis map_of_inject_set)

type_synonym 'd alias_store = "'d crypto_lib \<times> ((bytes \<times> rstr) list \<Rightarrow> (bytes \<times> rstr) list) \<times> 'd disk"

text \<open>A disk on which the alias file can be rewritten, and what is in it would survive that.\<close>

definition aliases_ok :: "'d crypto_lib \<Rightarrow> 'd disk \<Rightarrow> bool" where
  "aliases_ok L d \<longleftrightarrow> (\<forall>k p. fault d k p = None)
     \<and> (\<forall>q. prefix q (sechat_dir L) \<longrightarrow> is_dir d q \<or> \<not> exists d q)
     \<and> \<not> is_dir d (aliases_path L) \<and> (exists d (aliases_path L) \<longrightarrow> is_dir d (sechat_dir L))
     \<and> (\<forall>e \<in> set (load_aliases L d). alias_entry e)"

definition alias_inv :: "'d alias_store \<Rightarrow> bool" where
  "alias_inv s \<longleftrightarrow> (case s of (L, iter, d) \<Rightarrow> hex_ok L \<and> iter_ok iter \<and> aliases_ok L d)"

definition alias_good :: "'d alias_store \<Rightarrow> bytes \<times> rstr \<Rightarrow> bool" where
  "alias_good s e \<longleftrightarrow> alias_entry e \<and> trim (snd e) = snd e \<and> snd e \<noteq> [] \<and> length (snd e) \<le> 32"

definition alias_find :: "'d alias_store \<Rightarrow> bytes \<Rightarrow> (bytes \<times> rstr) option" where
  "alias_find s k = (case s of (L, iter, d) \<Rightarrow> map_option (Pair k) (alias_of L k d))"

definition alias_add :: "bytes \<times> rstr \<Rightarrow> 'd alias_store \<Rightarrow> 'd alias_store" where
  "alias_add e s = (case s of (L, iter, d) \<Rightarrow> (L, iter, snd (set_alias L iter (fst e) (snd e) d)))"

definition alias_del :: "bytes \<Rightarrow> 'd alias_store \<Rightarrow> 'd alias_store" where
  "alias_del k s = (case s of (L, iter, d) \<Rightarrow> (L, iter, snd (remove_alias L iter k d)))"

lemma fs_write_total:
  "fault d OpenWrite p = None \<Longrightarrow> fault d WriteData p = None \<Longrightarrow> \<not> is_dir d p \<Longrightarrow> is_dir d (butlast p) \<Longrightarrow>
    fs_write p b d = (Inr (), put_node p (FileNode b) (put_node p (FileNode []) d))"
  by (simp add: fs_write_def fs_open_trunc_def fs_write_all_def)

lemma aliases_path_not_under [simp]:
  "\<not> prefix (aliases_path L) (sechat_dir L)" "butlast (aliases_path L) = sechat_dir L" "aliases_path L \<noteq> sechat_dir L"
  using prefix_length_le [of "aliases_path L" "sechat_dir L"] by (auto simp: aliases_path_def)

lemma aliases_okD:
  assumes "aliases_ok L d"
  shows "fault d k p = None" and "readable d p" and "prefix q (sechat_dir L) \<Longrightarrow> is_dir d q \<or> \<not> exists d q"
    and "\<not> is_dir d (aliases_path L)" and "exists d (aliases_path L) \<Longrightarrow> is_dir d (sechat_dir L)"
    and "e \<in> set (load_aliases L d) \<Longrightarrow> alias_entry e"
  using assms by (simp_all add: aliases_ok_def readable_def)

text \<open>Writing a table of aliases to a disk whose directory is there.\<close>

lemma write_aliases:
  assumes "hex_ok L" and "\<forall>k p. fault d k p = None" and "is_dir d (sechat_dir L)"
    and "\<forall>q. prefix q (sechat_dir L) \<longrightarrow> is_dir d q \<or> \<not> exists d q"
    and "\<not> is_dir d (aliases_path L)" and "\<forall>e \<in> set m. alias_entry e" and "distinct (map fst m)"
  obtains d' where "fs_write (aliases_path L) (as_bytes (alias_text L m)) d = (Inr (), d')"
    and "load_aliases L d' = m" and "aliases_ok L d'"
proof -
  let ?p = "aliases_path L" and ?b = "as_bytes (alias_text L m)"
  let ?d' = "put_node ?p (FileNode ?b) (put_node ?p (FileNode []) d)"
  have w: "fs_write ?p ?b d = (Inr (), ?d')" using assms(2,3,5) by (intro fs_write_total) simp_all
  have l: "load_aliases L ?d' = m"
    using assms by (intro load_aliases_written) (simp_all add: readable_def)
  have same: "node_at ?d' q = node_at d q" if "prefix q (sechat_dir L)" for q
    using that aliases_path_not_under(1) by auto
  have "is_dir ?d' q \<or> \<not> exists ?d' q" if "prefix q (sechat_dir L)" for q
    using assms(4) that same [OF that] by (auto simp: is_dir_def exists_def)
  moreover have "is_dir ?d' (sechat_dir L)" using assms(3) same by (simp add: is_dir_def)
  moreover have "\<not> is_dir ?d' ?p" by (simp add: is_dir_def aliases_path_def)
  ultimately have "aliases_ok L ?d'" using assms(2,6) l by (simp add: aliases_ok_def)
  with w l show ?thesis using that by blast
qed

lemma set_alias_effect:
  assumes "hex_ok L" and "iter_ok iter" and ok: "aliases_ok L d" and "alias_entry (k, v)"
    and "trim v = v" and "v \<noteq> []" and "length v \<le> 32"
  obtains d' where "set_alias L iter k v d = (Inr (), d')" and "aliases_ok L d'"
    and "map_of (load_aliases L d') = (map_of (load_aliases L d))(k \<mapsto> v)"
proof -
  let ?m = "AList.update k v (load_aliases L d)"
  have dist: "distinct (map fst ?m)" by (simp add: distinct_update)
  have it: "distinct (map fst (iter ?m))" "set (iter ?m) = set ?m"
    using assms(2) dist by (auto simp: iter_ok_def)
  have ents: "\<forall>e \<in> set (iter ?m). alias_entry e"
  proof
    fix e
    assume "e \<in> set (iter ?m)"
    then have "map_of ?m (fst e) = Some (snd e)" using it dist by simp
    then have "e = (k, v) \<or> e \<in> set (load_aliases L d)"
      by (cases e) (auto simp: update_conv' split: if_splits dest: map_of_SomeD)
    then show "alias_entry e" using assms(4) aliases_okD(6) [OF ok] by blast
  qed
  have "fst (fs_create_dir_all (sechat_dir L) d) = Inr ()"
    using aliases_okD(1,3) [OF ok] by (auto simp: fs_create_dir_all_def list_all_iff ancestors_iff)
  then obtain d1 where m1: "fs_create_dir_all (sechat_dir L) d = (Inr (), d1)"
    by (metis prod.collapse)
  note d1 = create_dir_all_ok [OF m1]
  have "\<not> is_dir d1 (aliases_path L)"
    using aliases_okD(4) [OF ok] d1(1) [of "aliases_path L"] by (simp add: is_dir_def)
  then obtain d' where "fs_write (aliases_path L) (as_bytes (alias_text L (iter ?m))) d1 = (Inr (), d')"
    "load_aliases L d' = iter ?m" "aliases_ok L d'"
    using write_aliases [OF assms(1) _ _ _ _ ents it(1), of d1] d1(2,3) aliases_okD(1) [OF ok] by auto
  then show ?thesis
    using m1 assms(5-7) map_of_iter [OF assms(2) dist]
    by (intro that [of d']) (simp_all add: set_alias_def Let_def update_conv')
qed

lemma remove_alias_effect:
  assumes "hex_ok L" and "iter_ok iter" and ok: "aliases_ok L d"
  obtains d' where "remove_alias L iter k d = (Inr (), d')" and "aliases_ok L d'"
    and "map_of (load_aliases L d') = (map_of (load_aliases L d))(k := None)"
proof (cases "map_of (load_aliases L d) k")
  case None
  then show ?thesis using ok by (intro that [of d]) (auto simp: remove_alias_def Let_def)
next
  case (Some v)
  let ?m = "AList.delete k (load_aliases L d)"
  have dist: "distinct (map fst ?m)" by (simp add: distinct_delete)
  have it: "distinct (map fst (iter ?m))" "set (iter ?m) = set ?m"
    using assms(2) dist by (auto simp: iter_ok_def)
  have "set ?m \<subseteq> set (load_aliases L d)" by (auto simp: AList.delete_eq)
  then have ents: "\<forall>e \<in> set (iter ?m). alias_entry e" using it aliases_okD(6) [OF ok] by blast
  have "exists d (aliases_path L)"
  proof (rule ccontr)
    assume "\<not> exists d (aliases_path L)"
    then have "load_aliases L d = []"
      using aliases_okD(1) [OF ok] by (simp add: load_aliases_def read_to_string_def fs_open_read_def)
    with Some show False by simp
  qed
  then have dir: "is_dir d (sechat_dir L)" using aliases_okD(5) [OF ok] by simp
  obtain d' where "fs_write (aliases_path L) (as_bytes (alias_text L (iter ?m))) d = (Inr (), d')"
    "load_aliases L d' = iter ?m" "aliases_ok L d'"
    using write_aliases [OF assms(1) _ dir _ _ ents it(1)] aliases_okD(1,3,4) [OF ok] by metis
  then show ?thesis
    using Some map_of_iter [OF assms(2) dist]
    by (intro that [of d']) (auto simp: remove_alias_def Let_def delete_conv')
qed

lemma alias_find_add:
  assumes "alias_inv s" and "alias_good s e"
  shows "alias_inv (alias_add e s) \<and> alias_find (alias_add e s) = (alias_find s)(fst e \<mapsto> e)"
proof -
  obtain L iter d where [simp]: "s = (L, iter, d)" by (cases s)
  obtain k v where [simp]: "e = (k, v)" by (cases e)
  from assms obtain d' where "set_alias L iter k v d = (Inr (), d')" "aliases_ok L d'"
    "map_of (load_aliases L d') = (map_of (load_aliases L d))(k \<mapsto> v)"
    by (auto simp: alias_inv_def alias_good_def elim: set_alias_effect)
  then show ?thesis
    using assms(1) by (auto simp: alias_inv_def alias_add_def alias_find_def alias_of_def)
qed

lemma alias_find_del:
  assumes "alias_inv s"
  shows "alias_inv (alias_del k s) \<and> alias_find (alias_del k s) = (alias_find s)(k := None)"
proof -
  obtain L iter d where [simp]: "s = (L, iter, d)" by (cases s)
  from assms obtain d' where "remove_alias L iter k d = (Inr (), d')" "aliases_ok L d'"
    "map_of (load_aliases L d') = (map_of (load_aliases L d))(k := None)"
    by (auto simp: alias_inv_def elim: remove_alias_effect)
  then show ?thesis
    using assms by (auto simp: alias_inv_def alias_del_def alias_find_def alias_of_def)
qed

text \<open>The alias file satisfies the contract of a contact book too.\<close>

interpretation alias_book: contact_book alias_inv alias_good "\<lambda>_. fst" alias_find alias_add alias_del
  by unfold_locales (simp_all add: alias_find_add alias_find_del, simp_all add: alias_good_def fun_eq_iff)

lemma fold_alias_map:
  "(\<lambda>k. map_option snd (fold (case_sum (\<lambda>e m. m(fst e \<mapsto> e)) (\<lambda>k m. m(k := None))) ops m k)) =
     fold (case_sum (\<lambda>e m. m(fst e \<mapsto> snd e)) (\<lambda>k m. m(k := None))) ops (\<lambda>k. map_option snd (m k))"
proof (induction ops arbitrary: m)
  case (Cons x ops)
  have "(\<lambda>k. map_option snd ((m(i := y)) k)) = (\<lambda>k. map_option snd (m k))(i := map_option snd y)"
    for i and y :: "('a \<times> 'b) option"
    by auto
  with Cons show ?case by (cases x) simp_all
qed simp

lemma alias_run_params: "fst (fold (case_sum alias_add alias_del) ops s) = fst s
   \<and> fst (snd (fold (case_sum alias_add alias_del) ops s)) = fst (snd s)"
  by (induction ops arbitrary: s) (auto simp: alias_add_def alias_del_def split: sum.splits)

text \<open>
  C18: The alias file behaves as a map. Any sequence of \<open>set_alias\<close> (of a non-blank, trimmed name of
  at most 32 characters without a line feed) and \<open>remove_alias\<close>, rewriting the file each time in
  whatever order the table is iterated, leaves \<open>alias_of\<close> equal to the map updated alike; the file
  stays well-formed.
\<close>

theorem aliases_refine_map:
  assumes "hex_ok L" and "iter_ok iter" and "aliases_ok L d"
    and "\<forall>k v. Inl (k, v) \<in> set ops \<longrightarrow> length k = 32 \<and> rust_str v \<and> 10 \<notin> set v \<and> trim v = v \<and> v \<noteq> [] \<and> length v \<le> 32"
  shows "aliases_ok L (snd (snd (fold (case_sum alias_add alias_del) ops (L, iter, d))))
    \<and> (\<lambda>k. alias_of L k (snd (snd (fold (case_sum alias_add alias_del) ops (L, iter, d))))) =
        fold (case_sum (\<lambda>e m. m(fst e \<mapsto> snd e)) (\<lambda>k m. m(k := None))) ops (\<lambda>k. alias_of L k d)"
proof -
  let ?s = "fold (case_sum alias_add alias_del) ops (L, iter, d)"
  obtain d' where s: "?s = (L, iter, d')"
    using alias_run_params [of ops "(L, iter, d)"] by (metis fst_conv snd_conv prod.collapse)
  have "last v \<noteq> 13" if "trim v = v" "v \<noteq> []" for v
    using trim_no_white_end [of v] that by (auto simp: is_white_def)
  then have "\<forall>e. Inl e \<in> set ops \<longrightarrow> alias_good (L, iter, d) e"
    using assms(4) by (auto simp: alias_good_def alias_entry_def)
  moreover have "alias_inv (L, iter, d)" using assms(1-3) by (simp add: alias_inv_def)
  ultimately have r: "alias_inv ?s \<and> alias_find ?s =
      fold (case_sum (\<lambda>e m. m(fst e \<mapsto> e)) (\<lambda>k m. m(k := None))) ops (alias_find (L, iter, d))"
    by (intro alias_book.run_refines) auto
  have af: "(\<lambda>k. map_option snd (alias_find (L, iter, x) k)) = (\<lambda>k. alias_of L k x)" for x
    by (simp add: alias_find_def option.map_comp comp_def option.map_ident)
  have "aliases_ok L d'" using r by (simp add: s alias_inv_def)
  moreover have "(\<lambda>k. alias_of L k d') = fold (case_sum (\<lambda>e m. m(fst e \<mapsto> snd e)) (\<lambda>k m. m(k := None))) ops (\<lambda>k. alias_of L k d)"
    unfolding af [symmetric] fold_alias_map [symmetric] using r by (simp add: s)
  ultimately show ?thesis by (simp add: s)
qed

theorem aliases_refine_map_witness:
  "alias_of demo_lib (key_of 2)
     (snd (snd (fold (case_sum alias_add alias_del)
       [Inl (key_of 1, lit ''alice''), Inl (key_of 2, lit ''bob''), Inr (key_of 1)] (demo_lib, rev, demo_disk [])))) = Some (lit ''bob'')"
proof -
  let ?ops = "[Inl (key_of 1, lit ''alice''), Inl (key_of 2, lit ''bob''), Inr (key_of 1)] :: (bytes \<times> rstr + bytes) list"
  have it: "iter_ok rev" by (simp add: iter_ok_def rev_map [symmetric])
  have ok: "aliases_ok demo_lib (demo_disk [])"
    by (auto simp: aliases_ok_def is_dir_def exists_def node_at_def demo_disk_def load_aliases_def read_to_string_def
        fs_open_read_def aliases_path_def)
  have good: "\<forall>k v. Inl (k, v) \<in> set ?ops \<longrightarrow> length k = 32 \<and> rust_str v \<and> 10 \<notin> set v \<and> trim v = v \<and> v \<noteq> [] \<and> length v \<le> 32"
    by (auto simp: lit_def trim_def is_white_def rust_str_def scalar_def)
  have "key_of 1 \<noteq> key_of 2" by (simp add: key_of_def byte_of_def)
  then show ?thesis
    using fun_cong [OF conjunct2 [OF aliases_refine_map [OF demo_hex_ok it ok good]], of "key_of 2"] by simp
qed

section \<open>Looking a contact up\<close>

text \<open>
  The reference: how well a contact matches what was typed (the whole alias, the beginning of the
  alias, the beginning of the fingerprint), and the best match, the first in the list among equals.
\<close>

definition match_rank :: "rstr \<Rightarrow> contact \<Rightarrow> nat option" where
  "match_rank q c =
     (if ct_alias c = Some q then Some 0
      else if (\<exists>a. ct_alias c = Some a \<and> prefix q a) then Some 1
      else if prefix q (ct_fingerprint c) then Some 2 else None)"

definition best_match :: "contact list \<Rightarrow> rstr \<Rightarrow> contact option" where
  "best_match cs q =
     (case sort_key (\<lambda>c. the (match_rank q c)) (filter (\<lambda>c. match_rank q c \<noteq> None) cs) of
        [] \<Rightarrow> None | c # _ \<Rightarrow> Some c)"

lemma sort_key_three:
  fixes f :: "'a \<Rightarrow> nat"
  assumes "\<forall>x \<in> set xs. f x \<le> 2"
  shows "sort_key f xs = filter (\<lambda>x. f x = 0) xs @ filter (\<lambda>x. f x = 1) xs @ filter (\<lambda>x. f x = 2) xs"
proof (rule properties_for_sort_key)
  let ?ys = "filter (\<lambda>x. f x = 0) xs @ filter (\<lambda>x. f x = 1) xs @ filter (\<lambda>x. f x = 2) xs"
  show "mset ?ys = mset xs" using assms by (induction xs) (auto simp: le_Suc_eq numeral_2_eq_2)
  show "filter (\<lambda>x. f k = f x) ?ys = filter (\<lambda>x. f k = f x) xs" if "k \<in> set ?ys" for k
  proof -
    have "f k = 0 \<or> f k = 1 \<or> f k = 2" using that by auto
    moreover have "(\<lambda>x. f k = f x) = (\<lambda>x. f x = f k)" by auto
    ultimately show ?thesis by (elim disjE; induction xs) auto
  qed
  have "sorted (map f (filter (\<lambda>x. f x = c) xs))" for c by (induction xs) auto
  then show "sorted (map f ?ys)" by (auto simp: sorted_append simp del: One_nat_def)
qed

lemma match_rank_le: "match_rank q c = Some r \<Longrightarrow> r \<le> 2"
  by (auto simp: match_rank_def split: if_splits)

lemma find_filter: "List.find P xs = (case filter P xs of [] \<Rightarrow> None | x # _ \<Rightarrow> Some x)"
  by (induction xs) auto

lemma best_match_ranks:
  "best_match cs q =
     (case filter (\<lambda>c. match_rank q c = Some 0) cs @ filter (\<lambda>c. match_rank q c = Some 1) cs @ filter (\<lambda>c. match_rank q c = Some 2) cs of
        [] \<Rightarrow> None | c # _ \<Rightarrow> Some c)"
proof -
  have f: "filter (\<lambda>x. the (match_rank q x) = r) (filter (\<lambda>c. match_rank q c \<noteq> None) cs) = filter (\<lambda>c. match_rank q c = Some r) cs" for r
    by (auto intro!: filter_cong)
  have "\<forall>x \<in> set (filter (\<lambda>c. match_rank q c \<noteq> None) cs). the (match_rank q x) \<le> 2"
    using match_rank_le by fastforce
  from sort_key_three [OF this] show ?thesis unfolding best_match_def f by simp
qed

text \<open>
  C29: Looking a peer up by what the user typed finds the best match. The three passes of
  \<open>resolve_query\<close> over the contacts return the contact that ranks first when all contacts are
  stably sorted by how well they match (whole alias, then beginning of the alias, then beginning
  of the fingerprint); a blank query, or one that matches nothing, finds none.
\<close>

theorem resolve_query_best_match:
  "resolve_query cs query = (if trim query = [] then None else map_option ct_id (best_match cs (trim query)))"
proof -
  let ?q = "trim query"
  have 0: "filter (\<lambda>c. match_rank ?q c = Some 0) cs = filter (\<lambda>c. ct_alias c = Some ?q) cs"
    by (rule filter_cong) (auto simp: match_rank_def)
  have 1: "filter (\<lambda>c. match_rank ?q c = Some 1) cs = filter (\<lambda>c. case ct_alias c of Some a \<Rightarrow> prefix ?q a | None \<Rightarrow> False) cs"
    if "filter (\<lambda>c. ct_alias c = Some ?q) cs = []"
    using that by (intro filter_cong) (auto simp: match_rank_def filter_empty_conv split: option.splits)
  have 2: "filter (\<lambda>c. match_rank ?q c = Some 2) cs = filter (\<lambda>c. prefix ?q (ct_fingerprint c)) cs"
    if "filter (\<lambda>c. ct_alias c = Some ?q) cs = []"
      and "filter (\<lambda>c. case ct_alias c of Some a \<Rightarrow> prefix ?q a | None \<Rightarrow> False) cs = []"
    using that by (intro filter_cong) (auto simp: match_rank_def filter_empty_conv split: option.splits)
  show ?thesis
    by (auto simp: resolve_query_def Let_def find_filter best_match_ranks 0 1 2 simp del: One_nat_def split: list.splits)
qed

section \<open>The identity of the user\<close>

text \<open>
  A new identity can be unlocked again. After \<open>create_identity\<close> succeeded, the identity file is
  found, and \<open>unlock\<close> with the same password returns the very keys that were created.
\<close>

lemma unlock_after_create:
  assumes "aead_ok L" and "argon2_ok L" and "ed_ok L" and "dh_ok L"
    and "length secret = 32" and "length signing = 32" and "length salt = 32" and "length nonce = 12"
    and "readable d (identity_key_path L)" and "readable d (identity_pub_path L)"
    and "create_identity L show password secret signing salt nonce d = (Inr ks, d')"
  shows "identity_exists L d' \<and> unlock L password d' = Some (Inr ks)"
proof -
  have x: "length (x25519_public L secret) = 32" using assms(4,5) unfolding dh_ok_def by blast
  from assms(11) have e: "encrypt_keyfile L password secret (x25519_public L secret) signing salt nonce d = (Inr (), d')"
    and k: "ks = \<lparr>x25519_priv = secret, x25519_pub = x25519_public L secret, ed25519_signing = signing,
              ed25519_verifying = ed_public L signing\<rparr>"
    by (auto simp: create_identity_def generate_x25519_def op_bind_ok op_map_err_ok)
  obtain c where "node_at d' (identity_key_path L) = Some (FileNode c)" using encrypt_keyfile_ok [OF e] by metis
  then have "identity_exists L d'" by (simp add: identity_exists_def exists_def)
  moreover obtain f where "read_keyfile L d' = (Inr f, d')" "decrypt_keyfile L password f = Some (Inr ks)"
    using keyfile_roundtrip [OF assms(1-3,5) x assms(6-10) e] k by auto
  ultimately show ?thesis by (simp add: unlock_def)
qed

text \<open>
  Unlocking never crashes the program: on any disk and with any password \<open>unlock\<close> returns a
  value, and one of exactly three kinds (the keys, a missing or unreadable identity file, a wrong
  password); a wrong password and a damaged file are told apart from an unreadable one only.
\<close>

theorem unlock_total:
  assumes "aead_ok L"
  shows "\<exists>r. unlock L password d = Some r
    \<and> (r = Inl (lit ''failed to read identity file'') \<longleftrightarrow> \<not> is_ok (fst (read_keyfile L d)))
    \<and> (\<forall>e. r = Inl e \<longrightarrow> e = lit ''failed to read identity file'' \<or> e = lit ''wrong password'')"
proof (cases "read_keyfile L d")
  case (Pair r d')
  show ?thesis
  proof (cases r)
    case (Inr f)
    with Pair have f: "read_keyfile L d = (Inr f, d')" by simp
    from decrypt_keyfile_no_panic [OF assms f] obtain x where "decrypt_keyfile L password f = Some x" by blast
    then show ?thesis using f by (cases x) (auto simp: unlock_def)
  qed (simp add: Pair unlock_def)
qed

theorem unlock_total_witness:
  "\<exists>r. unlock demo_lib (lit ''pw'') (demo_disk []) = Some r \<and> r = Inl (lit ''failed to read identity file'')"
proof -
  have "\<not> is_ok (fst (read_keyfile demo_lib (demo_disk [])))" by code_simp
  then show ?thesis using unlock_total [OF demo_aead, of "lit ''pw''" "demo_disk []"] by auto
qed

section \<open>STUN\<close>

lemma stun_of_host_port:
  assumes "58 \<notin> set port"
  shows "default_stun_addr (lit ''relay.'' @ rest @ 58 # port) = lit ''stun.'' @ rest @ lit '':3478''"
    and "\<not> prefix (lit ''relay.'') host \<Longrightarrow> default_stun_addr (host @ 58 # port) = host @ lit '':3478''"
  using rsplit_once_append [OF assms, of "lit ''relay.'' @ rest"] rsplit_once_append [OF assms, of host]
  by (simp_all add: default_stun_addr_def strip_prefix_def Let_def)

text \<open>A bracketed IPv6 address without a port loses its last group instead.\<close>

lemma stun_of_ipv6: "default_stun_addr (lit ''[fe80::1]'') = lit ''[fe80::3478''"
  by (simp add: default_stun_addr_def rsplit_once_def strip_prefix_def lit_def)

end
