(* ===== verification/Client_Core.thy ===== *)
theory Client_Core
  imports Client_Config
begin

text \<open>
  The orchestrator of the client (\<^verbatim>\<open>orchestrate\<close>, \<^verbatim>\<open>handle_server_event\<close>, \<^verbatim>\<open>handle_command\<close> and
  \<^verbatim>\<open>make_relay\<close> of \<^verbatim>\<open>crates/client/src/lib.rs\<close>): what the core does with events of the server,
  commands of the user and ticks of the retry timer, one turn at a time, and how it reconnects
  to the server. The sessions and connect attempts are those of \<open>Client_Connect\<close>, the intents those of
  \<open>Client_Retry\<close>.
\<close>

section \<open>State\<close>

text \<open>\<^verbatim>\<open>Command\<close>, the constructors with a \<open>C\<close> in front.\<close>

datatype command =
  CSend bytes rstr
| CConnect bytes
| CPurge bytes
| CRemovePeer bytes
| CAnnounceNow
| CSetServer rstr
| CShutdown

text \<open>
  The outside of one turn: successive readings of the clock, the monotonic clock, whether the
  channel to the server takes the message made for a peer, whether the channel of a session takes
  what it is given, and the random bytes drawn.
\<close>

record env =
  en_now :: "nat \<Rightarrow> i64"
  en_instant :: instant
  en_up :: "bytes \<Rightarrow> bool"
  en_session_up :: bool
  en_rand :: "nat \<Rightarrow> bytes"

text \<open>
  The core with its tasks; the intents; the messages given to the server connection; the
  texts given to the writers and the frames given to the readers of sessions, by the attempt that
  made the session.
\<close>

record 'd client =
  cl_core :: "'d core"
  cl_intents :: "(bytes \<times> connect_intent) list"
  cl_server_tx :: "client_to_server list"
  cl_outbound :: "(nat \<times> rstr) list"
  cl_relay_in :: "(nat \<times> bytes) list"

definition cl_disk :: "'d client \<Rightarrow> 'd disk" where
  "cl_disk s = net_disk (co_net (cl_core s))"

definition on_cl_net :: "('d net \<Rightarrow> 'a \<times> 'd net) \<Rightarrow> 'd client \<Rightarrow> 'a \<times> 'd client" where
  "on_cl_net m s = (case m (co_net (cl_core s)) of (r, n) \<Rightarrow> (r, s\<lparr>cl_core := (cl_core s)\<lparr>co_net := n\<rparr>\<rparr>))"

definition on_cl_disk :: "('d disk, 'e, 'a) op \<Rightarrow> ('d client, 'e, 'a) op" where
  "on_cl_disk m = on_cl_net (on_disk m)"

definition app_send :: "app_event \<Rightarrow> 'd client \<Rightarrow> 'd client" where
  "app_send e s = s\<lparr>cl_core := (cl_core s)\<lparr>co_events := co_events (cl_core s) @ [e]\<rparr>\<rparr>"

definition server_send :: "bool \<Rightarrow> client_to_server \<Rightarrow> 'd client \<Rightarrow> 'd client" where
  "server_send up msg s = (if up then s\<lparr>cl_server_tx := cl_server_tx s @ [msg]\<rparr> else s)"

definition remove_session :: "bytes \<Rightarrow> 'd client \<Rightarrow> 'd client" where
  "remove_session peer s = s\<lparr>cl_core := (cl_core s)\<lparr>co_sessions := (co_sessions (cl_core s))(peer := None)\<rparr>\<rparr>"

section \<open>Events of the server\<close>

text \<open>The keys of the peer a hole punch was brokered with: by identity, else by its address.\<close>

definition punch_peer :: "'d crypto_lib \<Rightarrow> i64 \<Rightarrow> bytes \<Rightarrow> rstr \<Rightarrow> 'd client \<Rightarrow> peer_public option \<times> 'd client" where
  "punch_peer L now peer_hash ip_port s =
     (case fst (load_peer_data L peer_hash (cl_disk s)) of
        Inr p \<Rightarrow> (Some p, s)
      | Inl _ \<Rightarrow>
          (case on_cl_net (load_online_peers now) s of
             (r, s') \<Rightarrow> (map_option op_keys (List.find (\<lambda>p. op_address p = ip_port) (unwrap_or [] r)), s')))"

definition handle_server_event :: "'d crypto_lib \<Rightarrow> env \<Rightarrow> server_event \<Rightarrow> 'd client \<Rightarrow> 'd client" where
  "handle_server_event L env event s =
     (case event of
        EAuthenticated observed_address \<Rightarrow> app_send (AConnected observed_address) s
      | ERelayData sender_hash payload \<Rightarrow>
          (case route_relay_data (cl_core s) sender_hash of
             Some n \<Rightarrow> if en_session_up env then s\<lparr>cl_relay_in := cl_relay_in s @ [(n, payload)]\<rparr> else s
           | None \<Rightarrow> s)
      | EPeerOnline h _ \<Rightarrow>
          app_send (APeerOnline h) (s\<lparr>cl_intents := intent_online (en_instant env) h (cl_intents s)\<rparr>)
      | EPeerOffline h \<Rightarrow>
          app_send (APeerOffline h) (s\<lparr>cl_intents := intent_offline h (cl_intents s)\<rparr>)
      | EBlobStored sender_hash \<Rightarrow> app_send (AMessageArrived sender_hash False) s
      | EHolePunchDenied peer reason \<Rightarrow> app_send (AHolePunchDenied peer reason) s
      | EPunchHole _ peer_hash ip_port _ \<Rightarrow>
          (case punch_peer L (en_now env 0) peer_hash ip_port s of
             (Some peer, s') \<Rightarrow> s'\<lparr>cl_core := spawn_connect peer (cl_core s')\<rparr>
           | (None, s') \<Rightarrow> s')
      | EDisconnected \<Rightarrow> s)"

section \<open>Commands\<close>

text \<open>The announcements of \<^verbatim>\<open>AnnounceNow\<close>; the clock is read once more for each message.\<close>

fun announce_now :: "'d crypto_lib \<Rightarrow> env \<Rightarrow> bytes \<Rightarrow> i64 \<Rightarrow> rstr \<Rightarrow> nat \<Rightarrow> peer_public list \<Rightarrow> 'd client \<Rightarrow> 'd client" where
  "announce_now L env priv ts address i [] s = s"
| "announce_now L env priv ts address i (peer # peers) s =
     announce_now L env priv ts address (i + 1) peers
       (case generate_announce_message L priv (pk_public peer) ts address of
          Inr msg \<Rightarrow> server_send (en_up env (generate_peer_hash L peer)) (client_to_server_new (en_now env i) msg None) s
        | Inl _ \<Rightarrow> s)"

fun unannounce_all :: "'d crypto_lib \<Rightarrow> env \<Rightarrow> bytes \<Rightarrow> i64 \<Rightarrow> nat \<Rightarrow> peer_public list \<Rightarrow> 'd client \<Rightarrow> 'd client" where
  "unannounce_all L env priv ts i [] s = s"
| "unannounce_all L env priv ts i (peer # peers) s =
     unannounce_all L env priv ts (i + 1) peers
       (case generate_unannounce_message L priv (pk_public peer) ts of
          Inr msg \<Rightarrow> server_send (en_up env (generate_peer_hash L peer)) (client_to_server_new (en_now env i) msg None) s
        | Inl _ \<Rightarrow> s)"

definition command_connect :: "'d crypto_lib \<Rightarrow> env \<Rightarrow> bytes \<Rightarrow> 'd client \<Rightarrow> 'd client" where
  "command_connect L env peer s =
     (case fst (load_peer_data L peer (cl_disk s)) of
        Inl _ \<Rightarrow> app_send (AError (lit ''unknown peer'')) s
      | Inr _ \<Rightarrow>
          if co_sessions (cl_core s) peer \<noteq> None then s
          else
            (case on_cl_net (peer_is_online L (en_now env 0) peer) s of
               (on, s') \<Rightarrow> s'\<lparr>cl_intents := intents_insert peer (armed (en_instant env) on) (cl_intents s')\<rparr>))"

definition command_remove ::
  "'d crypto_lib \<Rightarrow> ((bytes \<times> rstr) list \<Rightarrow> (bytes \<times> rstr) list) \<Rightarrow> bytes \<Rightarrow> 'd client \<Rightarrow> 'd client" where
  "command_remove L iter peer s =
     (let s1 = remove_session peer (s\<lparr>cl_intents := intents_remove peer (cl_intents s)\<rparr>) in
      case on_cl_disk (delete_peer L peer) s1 of
        (Inl e, s2) \<Rightarrow> app_send (AError (lit ''remove peer failed: '' @ show_crypto_errors L e)) s2
      | (Inr _, s2) \<Rightarrow> snd (on_cl_disk (remove_alias L iter peer) s2))"

definition command_announce :: "'d crypto_lib \<Rightarrow> keys \<Rightarrow> env \<Rightarrow> 'd client \<Rightarrow> 'd client" where
  "command_announce L me env s =
     (case on_cl_net (get_or_set_my_address None) s of
        (None, s') \<Rightarrow> s'
      | (Some address, s') \<Rightarrow>
          announce_now L env (x25519_priv me) (en_now env 0) address 1 (unwrap_or [] (fst (load_peers L (cl_disk s')))) s')"

definition command_purge :: "'d crypto_lib \<Rightarrow> server_lib \<Rightarrow> keys \<Rightarrow> env \<Rightarrow> bytes \<Rightarrow> 'd client \<Rightarrow> 'd client" where
  "command_purge L V me env peer s =
     (let s1 = remove_session peer (s\<lparr>cl_intents := intents_remove peer (cl_intents s)\<rparr>) in
      case fst (load_peer_data L peer (cl_disk s1)) of
        Inl e \<Rightarrow> app_send (AError (lit ''unknown peer: '' @ show_crypto_errors L e)) s1
      | Inr peer_pub \<Rightarrow>
          (let s2 = (case generate_purge_message L V (en_now env 0) (en_now env 1) peer_pub (x25519_pub me) (ed25519_signing me)
                            (en_rand env 0) (en_rand env 1) of
                       Inr blob \<Rightarrow> server_send (en_up env peer) blob s1
                     | Inl e \<Rightarrow> app_send (AError (lit ''purge send failed: '' @ show_client_errors e)) s1)
           in case on_cl_disk (purge_peer_chat L peer) s2 of
                (Inl e, s3) \<Rightarrow> app_send (AError (lit ''local purge failed: '' @ show_crypto_errors L e)) s3
              | (Inr _, s3) \<Rightarrow> app_send (AMessageArrived peer True) s3))"

text \<open>Sending ends with storing the text, once it was given to the session or to the server.\<close>

definition record_sent :: "'d crypto_lib \<Rightarrow> keys \<Rightarrow> env \<Rightarrow> bytes \<Rightarrow> peer_public \<Rightarrow> rstr \<Rightarrow> 'd client \<Rightarrow> 'd client" where
  "record_sent L me env peer peer_pub text s =
     (case on_cl_disk (persist_message L me peer_pub peer text You (en_now env 0) (en_rand env 3)) s of
        (Inr _, s') \<Rightarrow> app_send (AMessageArrived peer True) s'
      | (Inl _, s') \<Rightarrow> s')"

definition command_send :: "'d crypto_lib \<Rightarrow> server_lib \<Rightarrow> keys \<Rightarrow> env \<Rightarrow> bytes \<Rightarrow> rstr \<Rightarrow> 'd client \<Rightarrow> 'd client" where
  "command_send L V me env peer text s =
     (case fst (load_peer_data L peer (cl_disk s)) of
        Inl e \<Rightarrow> app_send (AError (lit ''unknown peer: '' @ show_crypto_errors L e)) s
      | Inr peer_pub \<Rightarrow>
          (case co_sessions (cl_core s) peer of
             Some e \<Rightarrow>
               record_sent L me env peer peer_pub text
                 (if en_session_up env then s\<lparr>cl_outbound := cl_outbound s @ [(se_id e, text)]\<rparr> else remove_session peer s)
           | None \<Rightarrow>
               (case generate_offline_message L V (en_now env 1) (en_now env 2) peer_pub (x25519_pub me) (x25519_priv me) text
                       (ed25519_signing me) (en_rand env 0) (en_rand env 1) (en_rand env 2) of
                  Inr blob \<Rightarrow> record_sent L me env peer peer_pub text (server_send (en_up env peer) blob s)
                | Inl e \<Rightarrow> app_send (AError (lit ''send failed: '' @ show_client_errors e)) s)))"

definition handle_command ::
  "'d crypto_lib \<Rightarrow> server_lib \<Rightarrow> ((bytes \<times> rstr) list \<Rightarrow> (bytes \<times> rstr) list) \<Rightarrow> keys \<Rightarrow> env \<Rightarrow> command \<Rightarrow> 'd client \<Rightarrow> 'd client" where
  "handle_command L V iter me env cmd s =
     (case cmd of
        CConnect peer \<Rightarrow> command_connect L env peer s
      | CSetServer _ \<Rightarrow> s
      | CShutdown \<Rightarrow> s
      | CRemovePeer peer \<Rightarrow> command_remove L iter peer s
      | CAnnounceNow \<Rightarrow> command_announce L me env s
      | CPurge peer \<Rightarrow> command_purge L V me env peer s
      | CSend peer text \<Rightarrow> command_send L V me env peer text s)"

section \<open>The retry tick and the relay channel\<close>

definition retry_tick :: "'d crypto_lib \<Rightarrow> keys \<Rightarrow> env \<Rightarrow> 'd client \<Rightarrow> 'd client" where
  "retry_tick L me env s =
     (case drive_retries L (en_now env 0) (x25519_priv me) (en_up env) (dom (co_sessions (cl_core s))) (co_connecting (cl_core s))
             (en_instant env) (cl_disk s) (cl_intents s) of
        (intents, msgs, evs) \<Rightarrow> s\<lparr>cl_intents := intents, cl_server_tx := cl_server_tx s @ msgs,
          cl_core := (cl_core s)\<lparr>co_events := co_events (cl_core s) @ evs\<rparr>\<rparr>)"

text \<open>
  The task of \<^verbatim>\<open>make_relay\<close>: frames of a session become messages to the server until it takes no
  more; each frame comes with the time and whether the server connection takes it.
\<close>

fun relay_forward :: "bytes \<Rightarrow> (bytes \<times> i64 \<times> bool) list \<Rightarrow> client_to_server list" where
  "relay_forward peer_id [] = []"
| "relay_forward peer_id ((payload, now, up) # ps) =
     (if up then client_to_server_new now (RelayData peer_id payload) None # relay_forward peer_id ps else [])"

section \<open>Orchestration\<close>

datatype core_input = RetryTick | FromServer "server_event option" | FromUser "command option"

datatype turn = Continue | Reconnect | Return

text \<open>The client with the variables of the outer loop, and the pauses it made.\<close>

record 'd runner =
  ru_client :: "'d client"
  ru_server :: rstr
  ru_backoff :: u64
  ru_slept :: "u64 list"

definition shutdown_client :: "'d crypto_lib \<Rightarrow> keys \<Rightarrow> env \<Rightarrow> 'd client \<Rightarrow> 'd client" where
  "shutdown_client L me env s =
     (let s' = (case fst (load_peers L (cl_disk s)) of
                  Inr peers \<Rightarrow> unannounce_all L env (x25519_priv me) (en_now env 0) 1 peers s
                | Inl _ \<Rightarrow> s)
      in s'\<lparr>cl_core := (cl_core s')\<lparr>co_sessions := Map.empty\<rparr>\<rparr>)"

definition relay_turn ::
  "'d crypto_lib \<Rightarrow> server_lib \<Rightarrow> ((bytes \<times> rstr) list \<Rightarrow> (bytes \<times> rstr) list) \<Rightarrow> keys \<Rightarrow> env \<Rightarrow> core_input \<Rightarrow> 'd runner \<Rightarrow> turn \<times> 'd runner" where
  "relay_turn L V iter me env input r =
     (case input of
        RetryTick \<Rightarrow> (Continue, r\<lparr>ru_client := retry_tick L me env (ru_client r)\<rparr>)
      | FromServer ev \<Rightarrow>
          (if ev = None \<or> ev = Some EDisconnected then (Reconnect, r\<lparr>ru_client := app_send ADisconnected (ru_client r)\<rparr>)
           else (Continue, r\<lparr>ru_client := handle_server_event L env (the ev) (ru_client r)\<rparr>))
      | FromUser cmd \<Rightarrow>
          (case cmd of
             None \<Rightarrow> (Return, r)
           | Some (CSetServer addr) \<Rightarrow>
               (Reconnect, r\<lparr>ru_server := addr, ru_client := snd (on_cl_disk (save_server L addr) (ru_client r)), ru_backoff := 1\<rparr>)
           | Some CShutdown \<Rightarrow> (Return, r\<lparr>ru_client := shutdown_client L me env (ru_client r)\<rparr>)
           | Some c \<Rightarrow> (Continue, r\<lparr>ru_client := handle_command L V iter me env c (ru_client r)\<rparr>)))"

text \<open>The inner loop over the inputs of one connection; \<open>Continue\<close> when it waits for more.\<close>

fun relay_loop ::
  "'d crypto_lib \<Rightarrow> server_lib \<Rightarrow> ((bytes \<times> rstr) list \<Rightarrow> (bytes \<times> rstr) list) \<Rightarrow> keys \<Rightarrow> (env \<times> core_input) list \<Rightarrow> 'd runner \<Rightarrow> turn \<times> 'd runner" where
  "relay_loop L V iter me [] r = (Continue, r)"
| "relay_loop L V iter me ((env, input) # es) r =
     (case relay_turn L V iter me env input r of
        (Continue, r') \<Rightarrow> relay_loop L V iter me es r'
      | (t, r') \<Rightarrow> (t, r'))"

definition pause :: "'d runner \<Rightarrow> 'd runner" where
  "pause r = r\<lparr>ru_slept := ru_slept r @ [ru_backoff r], ru_backoff := min (ru_backoff r * 2) 30\<rparr>"

text \<open>
  What one round of the outer loop meets: the variable \<^verbatim>\<open>SECHAT_STUN\<close>, the exchange with the STUN
  server (its address is given), the attempt to open the socket, the variable
  \<^verbatim>\<open>SECHAT_DEV_INSECURE\<close>, clocks and random bytes of the handshake, and the inputs that arrive
  while the connection lasts.
\<close>

record attempt =
  at_stun_env :: "rstr option"
  at_stun :: "rstr \<Rightarrow> (bool \<times> bytes option) list"
  at_connect :: "rstr \<Rightarrow> rstr + conn"
  at_insecure :: bool
  at_now :: i64
  at_clk :: "nat \<Rightarrow> i64"
  at_rng :: "nat \<Rightarrow> bytes"
  at_inputs :: "(env \<times> core_input) list"

definition stun_addr :: "attempt \<Rightarrow> rstr \<Rightarrow> rstr" where
  "stun_addr a server_address =
     (case Option.bind (at_stun_env a) (\<lambda>s. if s \<noteq> [] then Some s else None) of
        Some s \<Rightarrow> s | None \<Rightarrow> default_stun_addr server_address)"

definition connect_relay ::
  "'d crypto_lib \<Rightarrow> server_lib \<Rightarrow> p2p_codec \<Rightarrow> keys \<Rightarrow> nat \<Rightarrow> attempt \<Rightarrow> 'd runner \<Rightarrow> (client_errors + conn) \<times> 'd runner" where
  "connect_relay L V C me udp_port a r =
     (let announce = stun_discover L C (at_now a) (x25519_pub me) (ed25519_signing me) (at_stun a (stun_addr a (ru_server r))) in
      case on_cl_net (run_client L V (at_connect a) (at_insecure a) (at_now a) (at_clk a) (at_rng a)
             (x25519_pub me) (ed25519_signing me) (x25519_priv me) (ru_server r) udp_port announce) (ru_client r) of
        (res, s') \<Rightarrow> (res, r\<lparr>ru_client := s'\<rparr>))"

fun orchestrate ::
  "'d crypto_lib \<Rightarrow> server_lib \<Rightarrow> p2p_codec \<Rightarrow> ((bytes \<times> rstr) list \<Rightarrow> (bytes \<times> rstr) list) \<Rightarrow> keys \<Rightarrow> nat
   \<Rightarrow> attempt list \<Rightarrow> 'd runner \<Rightarrow> turn \<times> 'd runner" where
  "orchestrate L V C iter me udp_port [] r = (Continue, r)"
| "orchestrate L V C iter me udp_port (a # as) r =
     (case connect_relay L V C me udp_port a r of
        (Inl e, r') \<Rightarrow>
          orchestrate L V C iter me udp_port as
            (pause (r'\<lparr>ru_client := app_send (AError (lit ''connect failed: '' @ show_client_errors e)) (ru_client r')\<rparr>))
      | (Inr _, r') \<Rightarrow>
          (case relay_loop L V iter me (at_inputs a) (r'\<lparr>ru_backoff := 1\<rparr>) of
             (Reconnect, r'') \<Rightarrow> orchestrate L V C iter me udp_port as (pause r'')
           | (t, r'') \<Rightarrow> (t, r'')))"

section \<open>What every turn keeps\<close>

lemma cl_core_simps [simp]:
  "cl_core (server_send up msg s) = cl_core s" "cl_intents (server_send up msg s) = cl_intents s"
  "cl_intents (app_send e s) = cl_intents s" "cl_intents (remove_session peer s) = cl_intents s"
  "cl_server_tx (app_send e s) = cl_server_tx s" "cl_server_tx (remove_session peer s) = cl_server_tx s"
  "cl_outbound (app_send e s) = cl_outbound s" "cl_outbound (remove_session peer s) = cl_outbound s"
  "cl_outbound (server_send up msg s) = cl_outbound s"
  "cl_core (app_send e s) = (cl_core s)\<lparr>co_events := co_events (cl_core s) @ [e]\<rparr>"
  "cl_core (remove_session peer s) = (cl_core s)\<lparr>co_sessions := (co_sessions (cl_core s))(peer := None)\<rparr>"
  "cl_disk (app_send e s) = cl_disk s" "cl_disk (server_send up msg s) = cl_disk s" "cl_disk (remove_session peer s) = cl_disk s"
  by (simp_all add: server_send_def app_send_def remove_session_def cl_disk_def)

text \<open>
  Handlers touch the tasks only by spawning one, never touch the reservations, and only take
  sessions away.
\<close>

definition trims :: "'d core \<Rightarrow> 'd core \<Rightarrow> bool" where
  "trims c c' \<longleftrightarrow> co_tasks c' = co_tasks c \<and> co_connecting c' = co_connecting c \<and> co_next c' = co_next c
     \<and> co_watchers c' = co_watchers c \<and> co_sessions c' \<subseteq>\<^sub>m co_sessions c"

lemma trims_refl [simp]: "trims c c"
  by (simp add: trims_def)

lemma trims_trans: "trims c c' \<Longrightarrow> trims c' c'' \<Longrightarrow> trims c c''"
  by (auto simp: trims_def intro: map_le_trans)

lemma trims_frame [simp]:
  "trims c (c'\<lparr>co_events := es\<rparr>) = trims c c'" "trims c (c'\<lparr>co_net := n\<rparr>) = trims c c'"
  "trims c c' \<Longrightarrow> trims c (c'\<lparr>co_sessions := (co_sessions c')(h := None)\<rparr>)"
  "trims c c' \<Longrightarrow> trims c (c'\<lparr>co_sessions := Map.empty\<rparr>)"
  by (auto simp: trims_def map_le_def)

lemma on_cl_net_frame:
  assumes "on_cl_net m s = (r, s')"
  shows "trims c (cl_core s') = trims c (cl_core s)" and "cl_intents s' = cl_intents s"
    and "co_sessions (cl_core s') = co_sessions (cl_core s)" and "co_events (cl_core s') = co_events (cl_core s)"
    and "cl_server_tx s' = cl_server_tx s" and "cl_outbound s' = cl_outbound s"
  using assms by (auto simp: on_cl_net_def split: prod.splits)

lemmas on_cl_disk_frame = on_cl_net_frame [of "on_disk m" for m, folded on_cl_disk_def]

lemma on_cl_disk_snd:
  "trims c (cl_core (snd (on_cl_disk m s))) = trims c (cl_core s)" "cl_intents (snd (on_cl_disk m s)) = cl_intents s"
  by (simp_all add: on_cl_disk_def on_cl_net_def split: prod.split)

lemma announce_now_frame: "cl_core (announce_now L env priv ts address i ps s) = cl_core s
   \<and> cl_intents (announce_now L env priv ts address i ps s) = cl_intents s"
  by (induction ps arbitrary: i s) (auto split: sum.splits)

lemma unannounce_all_frame: "cl_core (unannounce_all L env priv ts i ps s) = cl_core s
   \<and> cl_intents (unannounce_all L env priv ts i ps s) = cl_intents s"
  by (induction ps arbitrary: i s) (auto split: sum.splits)

lemma record_sent_frame:
  "trims c (cl_core (record_sent L me env peer p t s)) = trims c (cl_core s) \<and> cl_intents (record_sent L me env peer p t s) = cl_intents s"
  by (auto simp: record_sent_def split: prod.splits sum.splits dest: on_cl_disk_frame)

lemma command_trims: "trims (cl_core s) (cl_core (handle_command L V iter me env cmd s))"
proof (cases cmd)
  case (CRemovePeer peer)
  let ?s1 = "remove_session peer (s\<lparr>cl_intents := intents_remove peer (cl_intents s)\<rparr>)"
  have 1: "trims (cl_core s) (cl_core ?s1)" by simp
  obtain r s2 where 2: "on_cl_disk (delete_peer L peer) ?s1 = (r, s2)" by fastforce
  obtain r' s3 where 3: "on_cl_disk (remove_alias L iter peer) s2 = (r', s3)" by fastforce
  show ?thesis
    using 1 CRemovePeer on_cl_disk_frame(1) [OF 2, of "cl_core s"] on_cl_disk_frame(1) [OF 3, of "cl_core s"]
    by (simp add: handle_command_def command_remove_def Let_def 2 3 split: sum.splits)
next
  case (CPurge peer)
  then show ?thesis
    by (auto simp: handle_command_def command_purge_def Let_def on_cl_disk_frame(1) split: sum.splits prod.splits)
next
  case CAnnounceNow
  then show ?thesis
    by (auto simp: handle_command_def command_announce_def announce_now_frame on_cl_net_frame(1) split: prod.splits option.splits)
next
  case (CConnect peer)
  then show ?thesis
    by (auto simp: handle_command_def command_connect_def on_cl_net_frame(1) split: prod.splits sum.splits)
next
  case (CSend peer t)
  then show ?thesis
    by (simp add: handle_command_def command_send_def record_sent_frame split: sum.splits option.splits)
qed (simp_all add: handle_command_def)

lemma event_trims: "\<exists>c'. trims (cl_core s) c' \<and>
   (cl_core (handle_server_event L env ev s) = c' \<or> (\<exists>peer. cl_core (handle_server_event L env ev s) = spawn_connect peer c'))"
proof (cases ev)
  case (EPunchHole tok h addr ts)
  obtain r s' where p: "punch_peer L (en_now env 0) h addr s = (r, s')" by fastforce
  then have "trims (cl_core s) (cl_core s')"
    by (auto simp: punch_peer_def on_cl_net_frame(1) split: sum.splits prod.splits)
  then show ?thesis using EPunchHole p by (cases r) (auto simp: handle_server_event_def)
next
  case (ERelayData h b)
  then have "cl_core (handle_server_event L env ev s) = cl_core s"
    by (simp add: handle_server_event_def split: option.splits)
  then show ?thesis by (metis trims_refl)
qed (force simp: handle_server_event_def)+

lemma command_intents:
  "cl_intents (handle_command L V iter me env cmd s) = cl_intents s
   \<or> intents_step (L, cl_intents s) (L, cl_intents (handle_command L V iter me env cmd s))"
proof (cases cmd)
  case (CRemovePeer peer)
  let ?s1 = "remove_session peer (s\<lparr>cl_intents := intents_remove peer (cl_intents s)\<rparr>)"
  obtain r s2 where 2: "on_cl_disk (delete_peer L peer) ?s1 = (r, s2)" by fastforce
  obtain r' s3 where 3: "on_cl_disk (remove_alias L iter peer) s2 = (r', s3)" by fastforce
  have "cl_intents (handle_command L V iter me env cmd s) = intents_remove peer (cl_intents s)"
    using CRemovePeer on_cl_disk_frame(2) [OF 2] on_cl_disk_frame(2) [OF 3]
    by (simp add: handle_command_def command_remove_def Let_def 2 3 split: sum.splits)
  then show ?thesis by (metis step_remove)
next
  case (CPurge peer)
  then have "cl_intents (handle_command L V iter me env cmd s) = intents_remove peer (cl_intents s)"
    by (auto simp: handle_command_def command_purge_def Let_def on_cl_disk_frame(2) split: sum.splits prod.splits)
  then show ?thesis by (metis step_remove)
next
  case CAnnounceNow
  then show ?thesis
    by (auto simp: handle_command_def command_announce_def announce_now_frame on_cl_net_frame(2) split: prod.splits option.splits)
next
  case (CConnect peer)
  then show ?thesis
    by (auto simp: handle_command_def command_connect_def on_cl_net_frame(2) intro: step_connect split: prod.splits sum.splits)
next
  case (CSend peer t)
  then show ?thesis
    by (simp add: handle_command_def command_send_def record_sent_frame split: sum.splits option.splits)
qed (simp_all add: handle_command_def)

lemma event_intents:
  "cl_intents (handle_server_event L env ev s) = cl_intents s
   \<or> intents_step (L, cl_intents s) (L, cl_intents (handle_server_event L env ev s))"
proof (cases ev)
  case (EPunchHole tok h addr ts)
  obtain r s' where p: "punch_peer L (en_now env 0) h addr s = (r, s')" by fastforce
  then have "cl_intents s' = cl_intents s"
    by (auto simp: punch_peer_def on_cl_net_frame(2) split: sum.splits prod.splits)
  then show ?thesis using EPunchHole p by (cases r) (simp_all add: handle_server_event_def)
next
  case (ERelayData h b)
  then show ?thesis by (simp add: handle_server_event_def split: option.splits)
qed (auto simp: handle_server_event_def intro: step_online step_offline)

lemma tick_frame:
  "trims c (cl_core (retry_tick L me env s)) = trims c (cl_core s)
   \<and> intents_step (L, cl_intents s) (L, cl_intents (retry_tick L me env s))"
proof -
  let ?d = "drive_retries L (en_now env 0) (x25519_priv me) (en_up env) (dom (co_sessions (cl_core s))) (co_connecting (cl_core s))
             (en_instant env) (cl_disk s) (cl_intents s)"
  have "cl_intents (retry_tick L me env s) = fst ?d" by (simp add: retry_tick_def split: prod.split)
  then have "intents_step (L, cl_intents s) (L, cl_intents (retry_tick L me env s))" by (simp only: step_tick)
  then show ?thesis by (simp add: retry_tick_def split: prod.split)
qed

lemma shutdown_frame: "trims (cl_core s) (cl_core (shutdown_client L me env s)) \<and> cl_intents (shutdown_client L me env s) = cl_intents s"
  by (simp add: shutdown_client_def Let_def unannounce_all_frame split: sum.splits)

section \<open>The invariant of the client\<close>

text \<open>Every session in the map is with the peer it is filed under, signed with our own key.\<close>

definition sessions_inv :: "'d crypto_lib \<Rightarrow> keys \<Rightarrow> 'd core \<Rightarrow> bool" where
  "sessions_inv L me c \<longleftrightarrow> (\<forall>h e. co_sessions c h = Some e \<longrightarrow>
     identity_hash L (s_peer_x (se_session e)) (s_verifying (se_session e)) = h
     \<and> s_my_pub (se_session e) = x25519_pub me \<and> s_signing (se_session e) = ed25519_signing me)"

definition tasks_inv :: "'d crypto_lib \<Rightarrow> keys \<Rightarrow> 'd core \<Rightarrow> bool" where
  "tasks_inv L me c \<longleftrightarrow> core_inv L c \<and> route_inv c \<and> sessions_inv L me c"

lemma start_session_ends:
  "start_session L tr key pub sg peer first = Some s \<Longrightarrow>
    s_peer_x s = pk_public peer \<and> s_verifying s = pk_verifying peer \<and> s_my_pub s = pub \<and> s_signing s = sg"
  by (auto simp: start_session_def split: prod.splits option.splits)

lemma sessions_inv_step:
  assumes "connect_step L me c c'" and "sessions_inv L me c"
  shows "sessions_inv L me c'"
  using assms
proof (induction rule: connect_step.induct)
  case (land c n peer h punch handshake relay tr key direct s)
  then show ?case using start_session_ends [OF land(4)] by (simp add: sessions_inv_def generate_peer_hash_def)
qed (simp_all add: sessions_inv_def spawn_connect_def)

lemma tasks_inv_step: "connect_step L me c c' \<Longrightarrow> tasks_inv L me c \<Longrightarrow> tasks_inv L me c'"
  by (simp add: tasks_inv_def core_inv_step route_inv_step sessions_inv_step)

lemma tasks_inv_trims:
  assumes "trims c c'" and "tasks_inv L me c"
  shows "tasks_inv L me c'"
proof -
  have t: "co_tasks c' = co_tasks c" "co_connecting c' = co_connecting c" "co_next c' = co_next c"
    using assms(1) by (simp_all add: trims_def)
  have sub: "co_sessions c h = Some e" if "co_sessions c' h = Some e" for h e
    using assms(1) that unfolding trims_def map_le_def by (metis domI)
  have "holds L c' = holds L c" using t(1) by (simp add: holds_def fun_eq_iff)
  then have "core_inv L c'" using assms(2) t by (simp add: tasks_inv_def core_inv_def)
  moreover have "route_inv c'" using assms(2) sub t unfolding tasks_inv_def route_inv_def by metis
  moreover have "sessions_inv L me c'" using assms(2) sub by (auto simp: tasks_inv_def sessions_inv_def)
  ultimately show ?thesis by (simp add: tasks_inv_def)
qed

lemma tasks_inv_event:
  assumes "tasks_inv L me (cl_core s)"
  shows "tasks_inv L me (cl_core (handle_server_event L env ev s))"
proof -
  obtain c' where t: "trims (cl_core s) c'"
    and c: "cl_core (handle_server_event L env ev s) = c' \<or> (\<exists>peer. cl_core (handle_server_event L env ev s) = spawn_connect peer c')"
    using event_trims by blast
  from t assms have "tasks_inv L me c'" by (rule tasks_inv_trims)
  with c show ?thesis by (metis tasks_inv_step spawn)
qed

definition backoff_ok :: "u64 \<Rightarrow> bool" where
  "backoff_ok w \<longleftrightarrow> 1 \<le> unat w \<and> unat w \<le> 30"

definition client_inv :: "'d crypto_lib \<Rightarrow> keys \<Rightarrow> 'd runner \<Rightarrow> bool" where
  "client_inv L me r \<longleftrightarrow> tasks_inv L me (cl_core (ru_client r)) \<and> intents_inv (L, cl_intents (ru_client r))
     \<and> backoff_ok (ru_backoff r) \<and> list_all backoff_ok (ru_slept r)"

text \<open>
  Everything that happens to a client: a turn of the inner loop, a step of one of its connect
  tasks or session watchers, an attempt to connect to the server, a pause, a fresh connection.
\<close>

inductive client_step ::
  "'d crypto_lib \<Rightarrow> server_lib \<Rightarrow> p2p_codec \<Rightarrow> ((bytes \<times> rstr) list \<Rightarrow> (bytes \<times> rstr) list) \<Rightarrow> keys \<Rightarrow> nat \<Rightarrow> 'd runner \<Rightarrow> 'd runner \<Rightarrow> bool"
  for L V C iter me udp_port where
  turn: "relay_turn L V iter me env input r = (t, r') \<Longrightarrow> client_step L V C iter me udp_port r r'"
| task: "connect_step L me (cl_core (ru_client r)) c' \<Longrightarrow>
    client_step L V C iter me udp_port r (r\<lparr>ru_client := (ru_client r)\<lparr>cl_core := c'\<rparr>\<rparr>)"
| connect: "connect_relay L V C me udp_port a r = (res, r') \<Longrightarrow> client_step L V C iter me udp_port r r'"
| failed: "client_step L V C iter me udp_port r (r\<lparr>ru_client := app_send (AError e) (ru_client r)\<rparr>)"
| paused: "client_step L V C iter me udp_port r (pause r)"
| connected: "client_step L V C iter me udp_port r (r\<lparr>ru_backoff := 1\<rparr>)"

definition client_init :: "'d runner \<Rightarrow> bool" where
  "client_init r \<longleftrightarrow> core_init (cl_core (ru_client r)) \<and> cl_intents (ru_client r) = [] \<and> ru_backoff r = 1 \<and> ru_slept r = []"

lemma backoff_double: "backoff_ok w \<Longrightarrow> unat (min (w * 2) 30) = min (2 * unat w) 30"
  using bump_backoff_nat [of w] by (simp add: backoff_ok_def bump_backoff_def RETRY_BACKOFF_CAP_SECS_def word_le_nat_alt)

lemma turn_inv:
  assumes "relay_turn L V iter me env input r = (t, r')" and "client_inv L me r"
  shows "client_inv L me r'"
proof -
  let ?s = "ru_client r" and ?s' = "ru_client r'"
  have "tasks_inv L me (cl_core ?s') \<and> (cl_intents ?s' = cl_intents ?s \<or> intents_step (L, cl_intents ?s) (L, cl_intents ?s'))
      \<and> (ru_backoff r' = ru_backoff r \<or> ru_backoff r' = 1) \<and> ru_slept r' = ru_slept r"
  proof (cases input)
    case RetryTick
    then show ?thesis
      using assms tasks_inv_trims [of "cl_core ?s" _ L me] tick_frame [of "cl_core ?s" L me env ?s]
      by (auto simp: relay_turn_def client_inv_def)
  next
    case (FromServer ev)
    have "tasks_inv L me ((cl_core ?s)\<lparr>co_events := es\<rparr>)" for es
      using assms(2) tasks_inv_trims [of "cl_core ?s" "(cl_core ?s)\<lparr>co_events := es\<rparr>" L me] by (simp add: client_inv_def)
    moreover have "tasks_inv L me (cl_core (handle_server_event L env (the ev) ?s))"
      using assms(2) by (intro tasks_inv_event) (simp add: client_inv_def)
    ultimately show ?thesis
      using FromServer assms event_intents [of L env "the ev" ?s]
      by (simp add: relay_turn_def client_inv_def split: if_splits) auto
  next
    case (FromUser cmd)
    have inv: "tasks_inv L me (cl_core ?s)" using assms(2) by (simp add: client_inv_def)
    have "tasks_inv L me (cl_core (snd (on_cl_disk (save_server L addr) ?s)))"
      "cl_intents (snd (on_cl_disk (save_server L addr) ?s)) = cl_intents ?s" for addr
      using inv tasks_inv_trims [of "cl_core ?s"] by (simp_all add: on_cl_disk_snd)
    moreover have "tasks_inv L me (cl_core (handle_command L V iter me env c ?s))" for c
      using inv command_trims tasks_inv_trims by blast
    moreover have "tasks_inv L me (cl_core (shutdown_client L me env ?s))" "cl_intents (shutdown_client L me env ?s) = cl_intents ?s"
      using inv shutdown_frame tasks_inv_trims by blast+
    ultimately show ?thesis
      using FromUser assms(1) inv command_intents [of L V iter me env "the cmd" ?s]
      by (auto simp: relay_turn_def split: option.splits command.splits)
  qed
  then show ?thesis
    using assms(2) intents_inv_step by (auto simp: client_inv_def backoff_ok_def)
qed

lemma client_inv_step:
  assumes "client_step L V C iter me udp_port r r'" and "client_inv L me r"
  shows "client_inv L me r'"
  using assms
proof (cases rule: client_step.cases)
  case (turn env input t)
  then show ?thesis using turn_inv assms(2) by blast
next
  case (task c')
  then show ?thesis using assms(2) tasks_inv_step by (auto simp: client_inv_def)
next
  case (connect a res)
  then obtain s' where s': "ru_client r' = s'" "ru_backoff r' = ru_backoff r" "ru_slept r' = ru_slept r"
    "trims (cl_core (ru_client r)) (cl_core s')" "cl_intents s' = cl_intents (ru_client r)"
    by (auto simp: connect_relay_def Let_def on_cl_net_frame(1,2) split: prod.splits)
  then show ?thesis using assms(2) tasks_inv_trims by (auto simp: client_inv_def)
next
  case (failed e)
  have "tasks_inv L me (cl_core (ru_client r'))"
    using failed assms(2) tasks_inv_trims [of "cl_core (ru_client r)" "cl_core (ru_client r')" L me] by (simp add: client_inv_def)
  then show ?thesis using failed assms(2) by (simp add: client_inv_def)
next
  case paused
  have "backoff_ok (min (ru_backoff r * 2) 30)"
    using assms(2) backoff_double [of "ru_backoff r"] by (simp add: client_inv_def backoff_ok_def)
  then show ?thesis using paused assms(2) by (simp add: client_inv_def pause_def)
next
  case connected
  then show ?thesis using assms(2) by (simp add: client_inv_def backoff_ok_def)
qed

interpretation whole_client: invariant_system client_init "client_step L V C iter me udp_port" "client_inv L me" for L V C iter me udp_port
proof
  show "client_inv L me r" if "client_init r" for r
    using that connecting.inv_init routing.inv_init retry_ladder.inv_init [of "(L, [])"]
    by (auto simp: client_init_def client_inv_def tasks_inv_def sessions_inv_def core_init_def backoff_ok_def intents_init_def)
qed (rule client_inv_step)

text \<open>
  C4: The invariant of the whole client. However turns of the core, connect tasks, session watchers
  and reconnections interleave: at most one connect attempt holds a peer, and a peer is reserved
  exactly while one does; each peer has at most one intent, with at most 6 attempts and a delay of
  1 to 30 seconds; and every pause between two connections to the server lasts 1 to 30 seconds.
\<close>

theorem client_invariant:
  assumes "client_init r" and "run_of (client_step L V C iter me udp_port) r r'"
  shows "(holds L (cl_core (ru_client r')) h n \<longrightarrow> holds L (cl_core (ru_client r')) h m \<longrightarrow> n = m)
    \<and> (h \<in> co_connecting (cl_core (ru_client r')) \<longleftrightarrow> (\<exists>k. holds L (cl_core (ru_client r')) h k))
    \<and> ((h, i) \<in> set (cl_intents (ru_client r')) \<longrightarrow>
         unat (ci_attempts i) \<le> 6 \<and> 1 \<le> unat (ci_backoff_secs i) \<and> unat (ci_backoff_secs i) \<le> 30
         \<and> (\<forall>j. (h, j) \<in> set (cl_intents (ru_client r')) \<longrightarrow> j = i))
    \<and> (\<forall>w \<in> set (ru_backoff r' # ru_slept r'). 1 \<le> unat w \<and> unat w \<le> 30)"
proof -
  have inv: "client_inv L me r'" using whole_client.inv_reachable [OF assms] .
  then have c: "core_inv L (cl_core (ru_client r'))" and ints: "intents_inv (L, cl_intents (ru_client r'))"
    by (simp_all add: client_inv_def tasks_inv_def)
  have "\<forall>w \<in> set (ru_backoff r' # ru_slept r'). 1 \<le> unat w \<and> unat w \<le> 30"
    using inv by (auto simp: client_inv_def backoff_ok_def list_all_iff)
  moreover have "unat (ci_attempts i) \<le> 6 \<and> 1 \<le> unat (ci_backoff_secs i) \<and> unat (ci_backoff_secs i) \<le> 30
         \<and> (\<forall>j. (h, j) \<in> set (cl_intents (ru_client r')) \<longrightarrow> j = i)" if "(h, i) \<in> set (cl_intents (ru_client r'))"
    using intents_inv_bounds [OF ints that] .
  moreover note c
  ultimately show ?thesis unfolding core_inv_def by blast
qed

text \<open>
  Texts and frames never cross between peers. In every state the client can reach, a text the
  user sends to \<open>h\<close> over a session is given to one whose keys hash to \<open>h\<close>, signed with our key,
  and a frame the server relays from \<open>h\<close> is given only to such a session.
\<close>

theorem sessions_with_their_peers:
  assumes "client_init r" and "run_of (client_step L V C iter me udp_port) r r'" and "s = ru_client r'"
    and "x = (n, t) \<and> cl_outbound (handle_command L V iter me env (CSend h t) s) = cl_outbound s @ [x]
       \<or> y = (n, b) \<and> cl_relay_in (handle_server_event L env (ERelayData h b) s) = cl_relay_in s @ [y]"
  shows "\<exists>e. co_sessions (cl_core s) h = Some e \<and> se_id e = n
    \<and> identity_hash L (s_peer_x (se_session e)) (s_verifying (se_session e)) = h
    \<and> s_my_pub (se_session e) = x25519_pub me \<and> s_signing (se_session e) = ed25519_signing me"
proof -
  have "sessions_inv L me (cl_core s)"
    using whole_client.inv_reachable [OF assms(1,2)] assms(3) by (simp add: client_inv_def tasks_inv_def)
  moreover have "\<exists>e. co_sessions (cl_core s) h = Some e \<and> se_id e = n"
    using assms(4)
  proof
    assume out: "x = (n, t) \<and> cl_outbound (handle_command L V iter me env (CSend h t) s) = cl_outbound s @ [x]"
    have rs: "cl_outbound (record_sent L me env h p t s') = cl_outbound s'" for p s'
      by (auto simp: record_sent_def split: prod.splits sum.splits dest: on_cl_disk_frame)
    from out show ?thesis
      by (auto simp: handle_command_def command_send_def rs split: sum.splits option.splits if_splits)
  next
    assume "y = (n, b) \<and> cl_relay_in (handle_server_event L env (ERelayData h b) s) = cl_relay_in s @ [y]"
    then show ?thesis
      by (auto simp: handle_server_event_def route_relay_data_def split: option.splits if_splits)
  qed
  ultimately show ?thesis by (auto simp: sessions_inv_def)
qed

section \<open>Reconnecting to the server\<close>

lemma orchestrate_run: "run_of (client_step L V C iter me udp_port) r (snd (orchestrate L V C iter me udp_port as r))"
proof (induction as arbitrary: r)
  case (Cons a as)
  let ?st = "client_step L V C iter me udp_port"
  have trans: "run_of ?st x z" if "run_of ?st y z" "run_of ?st x y" for x y z
    using that by (induction rule: run_of.induct) (auto intro: run_step)
  have loop: "run_of ?st q (snd (relay_loop L V iter me es q))" for es q
  proof (induction es arbitrary: q)
    case (Cons e es)
    obtain env i where e: "e = (env, i)" by (cases e)
    obtain t q' where q': "relay_turn L V iter me env i q = (t, q')" by fastforce
    have "run_of ?st q q'" using turn [OF q'] by (blast intro: run_step run_refl)
    with Cons.IH [of q'] show ?case by (cases t) (auto simp: e q' intro: trans)
  qed (simp add: run_refl)
  obtain res r1 where c: "connect_relay L V C me udp_port a r = (res, r1)" by fastforce
  have 1: "run_of ?st r r1" using connect [OF c] by (blast intro: run_step run_refl)
  show ?case
  proof (cases res)
    case (Inl e)
    let ?r2 = "r1\<lparr>ru_client := app_send (AError (lit ''connect failed: '' @ show_client_errors e)) (ru_client r1)\<rparr>"
    have "run_of ?st r (pause ?r2)" using 1 by (blast intro: run_step failed paused)
    then show ?thesis using Cons.IH [of "pause ?r2"] by (auto simp: c Inl intro: trans)
  next
    case (Inr k)
    obtain t r3 where l: "relay_loop L V iter me (at_inputs a) (r1\<lparr>ru_backoff := 1\<rparr>) = (t, r3)" by fastforce
    have "run_of ?st r (r1\<lparr>ru_backoff := 1\<rparr>)" using 1 by (blast intro: run_step connected)
    then have 3: "run_of ?st r r3" using loop [of "r1\<lparr>ru_backoff := 1\<rparr>" "at_inputs a"] l by (auto intro: trans)
    then have "run_of ?st r (pause r3)" by (blast intro: run_step paused)
    then show ?thesis using Cons.IH [of "pause r3"] 3 by (cases t) (auto simp: c Inr l intro: trans)
  qed
qed (simp add: run_refl)

lemma connect_fails:
  assumes "at_connect a (server_url (at_insecure a) (ru_server r)) = Inl e"
  shows "connect_relay L V C me udp_port a r = (Inl (ConnectionFailed e), r)"
  using assms by (simp add: connect_relay_def run_client_def on_cl_net_def Let_def)

lemma min_double: "min (2 * min (2 ^ k) 30) 30 = min (2 ^ Suc k) (30 :: nat)"
  by (simp add: min_def)

text \<open>
  C28: While the server cannot be reached the client backs off exponentially, and does nothing else.
  After \<open>n\<close> failed connections in a row it has paused for 1, 2, 4, 8, 16 and then 30 seconds each
  time, and reported each failure once; whatever the user asked for in the meantime (a message,
  another server, a shutdown) has had no effect.
\<close>

theorem unreachable_server_backoff:
  assumes "\<forall>a \<in> set as. \<forall>url. \<exists>e. at_connect a url = Inl e" and "ru_backoff r = 1"
  shows "\<exists>r'. orchestrate L V C iter me udp_port as r = (Continue, r')
    \<and> map unat (ru_slept r') = map unat (ru_slept r) @ map (\<lambda>i. min (2 ^ i) 30) [0..<length as]
    \<and> (\<exists>errs. length errs = length as \<and>
         ru_client r' = (ru_client r)\<lparr>cl_core := (cl_core (ru_client r))\<lparr>co_events := co_events (cl_core (ru_client r)) @ map AError errs\<rparr>\<rparr>)
    \<and> ru_server r' = ru_server r"
proof -
  have "\<exists>r'. orchestrate L V C iter me udp_port as r = (Continue, r')
    \<and> map unat (ru_slept r') = map unat (ru_slept r) @ map (\<lambda>i. min (2 ^ i) 30) [k..<k + length as]
    \<and> (\<exists>errs. length errs = length as \<and>
         ru_client r' = (ru_client r)\<lparr>cl_core := (cl_core (ru_client r))\<lparr>co_events := co_events (cl_core (ru_client r)) @ map AError errs\<rparr>\<rparr>)
    \<and> ru_server r' = ru_server r"
    if "unat (ru_backoff r) = min (2 ^ k) 30" for k
    using assms(1) that
  proof (induction as arbitrary: r k)
    case Nil
    then show ?case by simp
  next
    case (Cons a as)
    obtain e where "at_connect a (server_url (at_insecure a) (ru_server r)) = Inl e" using Cons.prems(1) by fastforce
    note c = connect_fails [OF this, of L V C me udp_port]
    let ?m = "lit ''connect failed: '' @ show_client_errors (ConnectionFailed e)"
    let ?r1 = "pause (r\<lparr>ru_client := app_send (AError ?m) (ru_client r)\<rparr>)"
    have "backoff_ok (ru_backoff r)" using Cons.prems(2) by (simp add: backoff_ok_def)
    then have b: "unat (ru_backoff ?r1) = min (2 ^ Suc k) 30"
      using Cons.prems(2) by (simp add: pause_def backoff_double min_double)
    have "\<forall>a \<in> set as. \<forall>url. \<exists>e. at_connect a url = Inl e" using Cons.prems(1) by simp
    from Cons.IH [OF this b] obtain r' errs where r': "orchestrate L V C iter me udp_port as ?r1 = (Continue, r')"
      "map unat (ru_slept r') = map unat (ru_slept ?r1) @ map (\<lambda>i. min (2 ^ i) 30) [Suc k..<Suc k + length as]"
      "ru_client r' = (ru_client ?r1)\<lparr>cl_core := (cl_core (ru_client ?r1))\<lparr>co_events := co_events (cl_core (ru_client ?r1)) @ map AError errs\<rparr>\<rparr>"
      "ru_server r' = ru_server ?r1" "length errs = length as"
      by blast
    have "[k..<k + length (a # as)] = k # [Suc k..<Suc k + length as]" by (simp add: upt_conv_Cons del: upt_Suc)
    moreover have "ru_client r' = (ru_client r)\<lparr>cl_core := (cl_core (ru_client r))\<lparr>co_events := co_events (cl_core (ru_client r)) @ map AError (?m # errs)\<rparr>\<rparr>"
      using r'(3) by (simp add: pause_def app_send_def)
    ultimately show ?case
      using r' c Cons.prems(2) by (intro exI [of _ r'] conjI exI [of _ "?m # errs"]) (simp_all add: pause_def)
  qed
  from this [of 0] assms(2) show ?thesis by simp
qed

section \<open>A concrete client\<close>

definition demo_me :: keys where
  "demo_me = \<lparr>x25519_priv = key_of 2, x25519_pub = key_of 2, ed25519_signing = key_of 2, ed25519_verifying = key_of 2\<rparr>"

definition demo_client :: "demo_db net \<Rightarrow> demo_db client" where
  "demo_client n = \<lparr>cl_core = core0 n, cl_intents = [], cl_server_tx = [], cl_outbound = [], cl_relay_in = []\<rparr>"

definition demo_runner :: "demo_db net \<Rightarrow> demo_db runner" where
  "demo_runner n = \<lparr>ru_client = demo_client n, ru_server = lit ''relay.example'', ru_backoff = 1, ru_slept = []\<rparr>"

definition demo_env :: env where
  "demo_env = \<lparr>en_now = (\<lambda>_. 100), en_instant = 0, en_up = (\<lambda>_. True), en_session_up = True,
     en_rand = (\<lambda>i. if i = 1 then key_of 6 else replicate 12 4)\<rparr>"

lemma demo_runner_init: "client_init (demo_runner n)"
  by (simp add: client_init_def demo_runner_def demo_client_def core0_init)

lemma task_run:
  assumes "run_of (connect_step L me) (cl_core (ru_client r)) c'"
  shows "run_of (client_step L V C iter me udp_port) r (r\<lparr>ru_client := (ru_client r)\<lparr>cl_core := c'\<rparr>\<rparr>)"
  using assms
proof (induction "cl_core (ru_client r)" c' rule: run_of.induct)
  case run_refl
  then show ?case by (simp add: run_of.run_refl)
next
  case (run_step c c')
  let ?r = "r\<lparr>ru_client := (ru_client r)\<lparr>cl_core := c\<rparr>\<rparr>"
  have "client_step L V C iter me udp_port ?r (?r\<lparr>ru_client := (ru_client ?r)\<lparr>cl_core := c'\<rparr>\<rparr>)"
    using run_step(3) by (intro task) simp
  with run_step(2) show ?case by (auto intro: run_of.run_step)
qed

text \<open>A run in which a session with \<open>demo_peer_a\<close> is up.\<close>

lemma demo_session_run:
  obtains r e where "run_of (client_step demo_lib demo_server demo_codec rev demo_me 7) (demo_runner demo_inbox) r"
    and "co_sessions (cl_core (ru_client r)) (key_of 1) = Some e" and "se_id e = 0"
    and "ru_client r = (demo_client demo_inbox)\<lparr>cl_core := cl_core (ru_client r)\<rparr>" and "co_net (cl_core (ru_client r)) = demo_inbox"
    and "holds demo_lib (cl_core (ru_client r)) (key_of 1) 1" and "se_relay_in e"
proof -
  have h: "generate_peer_hash demo_lib demo_peer_a = key_of 1" by code_simp
  obtain s where "start_session demo_lib Relay [] (x25519_pub demo_me) (ed25519_signing demo_me) demo_peer_a
      (am_i_first (x25519_pub demo_me) (pk_public demo_peer_a)) = Some s"
    using start_session_total [OF demo_hkdf] by blast
  then have "run_of (connect_step demo_lib demo_me) (cl_core (ru_client (demo_runner demo_inbox))) (raced demo_lib demo_inbox demo_peer_a s)"
    by (simp add: demo_runner_def demo_client_def run_raced)
  note r = task_run [OF this, of demo_server demo_codec rev 7]
  show ?thesis
    by (rule that [OF r, of "\<lparr>se_id = 0, se_session = s, se_relay_in = True\<rparr>"])
      (simp_all add: raced_def Let_def h demo_runner_def demo_client_def holds_def)
qed

theorem client_invariant_witness:
  "\<exists>r'. run_of (client_step demo_lib demo_server demo_codec rev demo_me 7) (demo_runner demo_inbox) r'
     \<and> key_of 1 \<in> co_connecting (cl_core (ru_client r')) \<and> (\<forall>w \<in> set (ru_backoff r' # ru_slept r'). unat w \<le> 30)"
proof -
  obtain r e where r: "run_of (client_step demo_lib demo_server demo_codec rev demo_me 7) (demo_runner demo_inbox) r"
    "holds demo_lib (cl_core (ru_client r)) (key_of 1) 1"
    by (rule demo_session_run)
  then show ?thesis
    using client_invariant [OF demo_runner_init r(1), where h = "key_of 1"] by blast
qed

lemma demo_inbox_load: "fst (load_peer_data demo_lib (key_of 1) (net_disk demo_inbox)) = Inr demo_peer_a"
  using demo_inbox_contact by simp

theorem sessions_with_their_peers_witness:
  "\<exists>r' e. run_of (client_step demo_lib demo_server demo_codec rev demo_me 7) (demo_runner demo_inbox) r'
     \<and> co_sessions (cl_core (ru_client r')) (key_of 1) = Some e
     \<and> identity_hash demo_lib (s_peer_x (se_session e)) (s_verifying (se_session e)) = key_of 1"
proof -
  obtain r e where r: "run_of (client_step demo_lib demo_server demo_codec rev demo_me 7) (demo_runner demo_inbox) r"
    "co_sessions (cl_core (ru_client r)) (key_of 1) = Some e" "se_relay_in e"
    by (rule demo_session_run)
  then have "cl_relay_in (handle_server_event demo_lib demo_env (ERelayData (key_of 1) [7]) (ru_client r))
      = cl_relay_in (ru_client r) @ [(se_id e, [7])]"
    by (simp add: handle_server_event_def route_relay_data_def demo_env_def)
  with r show ?thesis
    using sessions_with_their_peers [OF demo_runner_init r(1) refl, of _ "se_id e" _ demo_env "key_of 1" _ "[7]"] by blast
qed

theorem unreachable_server_backoff_witness:
  "\<exists>a r'. orchestrate demo_lib demo_server demo_codec rev demo_me 7 (replicate 7 a) (demo_runner demo_inbox) = (Continue, r')
     \<and> map unat (ru_slept r') = [1, 2, 4, 8, 16, 30, 30]"
proof -
  let ?a = "\<lparr>at_stun_env = None, at_stun = (\<lambda>_. []), at_connect = (\<lambda>_. Inl []), at_insecure = False, at_now = 0,
    at_clk = (\<lambda>_. 0), at_rng = (\<lambda>_. []), at_inputs = [(demo_env, FromUser (Some CShutdown))]\<rparr>"
  have "\<forall>a \<in> set (replicate 7 ?a). \<forall>url. \<exists>e. at_connect a url = Inl e" by simp
  moreover have "ru_backoff (demo_runner demo_inbox) = 1" by (simp add: demo_runner_def)
  ultimately obtain r' where "orchestrate demo_lib demo_server demo_codec rev demo_me 7 (replicate 7 ?a) (demo_runner demo_inbox) = (Continue, r')"
    "map unat (ru_slept r') = map unat (ru_slept (demo_runner demo_inbox)) @ map (\<lambda>i. min (2 ^ i) 30) [0..<length (replicate 7 ?a)]"
    using unreachable_server_backoff by blast
  moreover have "map (\<lambda>i. min (2 ^ i) 30) [0..<length (replicate 7 ?a)] = [1, 2, 4, 8, 16, 30, 30 :: nat]"
    by (simp add: upt_rec)
  moreover have "ru_slept (demo_runner demo_inbox) = []" by (simp add: demo_runner_def)
  ultimately show ?thesis by (metis append_Nil list.map(1))
qed

end
