(* ===== verification/Client_Commands.thy ===== *)
theory Client_Commands
  imports Client_Core
begin

text \<open>
  What sending a message achieves: over a live session, over a session whose writer is gone, and
  as an offline blob, which is followed across the server into the other client's history.
\<close>

section \<open>Storing what was sent\<close>

definition set_disk :: "'d disk \<Rightarrow> 'd client \<Rightarrow> 'd client" where
  "set_disk d s = s\<lparr>cl_core := (cl_core s)\<lparr>co_net := (co_net (cl_core s))\<lparr>net_disk := d\<rparr>\<rparr>\<rparr>"

lemma set_disk_simps [simp]:
  "cl_disk (set_disk d s) = d" "cl_outbound (set_disk d s) = cl_outbound s" "cl_server_tx (set_disk d s) = cl_server_tx s"
  "co_events (cl_core (set_disk d s)) = co_events (cl_core s)" "co_sessions (cl_core (set_disk d s)) = co_sessions (cl_core s)"
  "cl_intents (set_disk d s) = cl_intents s"
  by (simp_all add: set_disk_def cl_disk_def)

lemma on_cl_disk_eq: "m (cl_disk s) = (r, d) \<Longrightarrow> on_cl_disk m s = (r, set_disk d s)"
  by (simp add: on_cl_disk_def on_cl_net_def on_disk_def set_disk_def cl_disk_def)

lemma persist_stores:
  assumes "load_storage_key L (pk_public p) (x25519_priv me) = Inr sk"
    and "store_message L h (from_parts t a ts) sk nonce d = (Inr (), d')"
  shows "persist_message L me p h t a ts nonce d = (Inr (), d')"
proof -
  from assms(2) obtain u d1 where "load_peer_chat_file L h d = (Inr u, d1)"
    "insert_message_stored L (from_parts t a ts) sk nonce (chat_path L h) d1 = (Inr (), d')"
    by (auto simp: store_message_def op_bind_ok)
  then show ?thesis using assms(1) by (simp add: persist_message_def)
qed

lemma record_sent_stores:
  assumes ready: "inbox_ready L (x25519_priv me) c (co_net (cl_core s)) (from_parts t You (en_now env 0), en_rand env 3)"
    and h: "h = generate_peer_hash L (ch_peer c)"
  obtains d where "record_sent L me env h (ch_peer c) t s = app_send (AMessageArrived h True) (set_disk d s)"
    and "chat_read (c\<lparr>ch_disk := d\<rparr>) = chat_read c @ [from_parts t You (en_now env 0)]"
    and "c\<lparr>ch_disk := d\<rparr> = chat_append (from_parts t You (en_now env 0), en_rand env 3) c"
proof -
  let ?mn = "(from_parts t You (en_now env 0), en_rand env 3)"
  have inv: "chat_inv c" "0 < chat_room c" "chat_accepts c ?mn" "ch_lib c = L" "ch_disk c = cl_disk s"
    and sk: "load_storage_key L (pk_public (ch_peer c)) (x25519_priv me) = Inr (ch_key c)"
    using ready by (simp_all add: inbox_ready_def cl_disk_def)
  have "fst (store_message L h (fst ?mn) (ch_key c) (snd ?mn) (cl_disk s)) = Inr ()"
    using inv(1-3) by (rule chat_append_effect) (use inv(4,5) h in \<open>simp add: generate_peer_hash_def\<close>)
  then obtain d where d: "store_message L h (fst ?mn) (ch_key c) (snd ?mn) (cl_disk s) = (Inr (), d)" by (metis prod.collapse)
  have "record_sent L me env h (ch_peer c) t s = app_send (AMessageArrived h True) (set_disk d s)"
    using on_cl_disk_eq [OF persist_stores [OF sk]] d by (simp add: record_sent_def)
  moreover have app: "c\<lparr>ch_disk := d\<rparr> = chat_append ?mn c"
    using d inv(4,5) h by (simp add: chat_append_def generate_peer_hash_def)
  moreover have "chat_read (c\<lparr>ch_disk := d\<rparr>) = chat_read c @ [from_parts t You (en_now env 0)]"
    using chat_db.read_append [OF inv(1-3)] app by simp
  ultimately show ?thesis using that by blast
qed

section \<open>Sending over a session\<close>

lemma send_with_session:
  assumes "inbox_ready L (x25519_priv me) c (co_net (cl_core s)) (from_parts t You (en_now env 0), en_rand env 3)"
    and "h = generate_peer_hash L (ch_peer c)" and "co_sessions (cl_core s) h = Some e"
  obtains d where "handle_command L V iter me env (CSend h t) s = app_send (AMessageArrived h True) (set_disk d
      (if en_session_up env then s\<lparr>cl_outbound := cl_outbound s @ [(se_id e, t)]\<rparr> else remove_session h s))"
    and "chat_read (c\<lparr>ch_disk := d\<rparr>) = chat_read c @ [from_parts t You (en_now env 0)]"
proof -
  let ?s = "if en_session_up env then s\<lparr>cl_outbound := cl_outbound s @ [(se_id e, t)]\<rparr> else remove_session h s"
  have "inbox_ready L (x25519_priv me) c (co_net (cl_core ?s)) (from_parts t You (en_now env 0), en_rand env 3)"
    using assms(1) by simp
  then obtain d where d: "record_sent L me env h (ch_peer c) t ?s = app_send (AMessageArrived h True) (set_disk d ?s)"
    "chat_read (c\<lparr>ch_disk := d\<rparr>) = chat_read c @ [from_parts t You (en_now env 0)]"
    using assms(2) by (rule record_sent_stores)
  have "fst (load_peer_data L h (cl_disk s)) = Inr (ch_peer c)"
    using assms(1,2) by (simp add: inbox_ready_def cl_disk_def)
  then show ?thesis using that [OF _ d(2)] assms(3) d(1) by (simp add: handle_command_def command_send_def)
qed

text \<open>
  A message to a peer with a live session goes to that session and nowhere else: the text is
  given to its writer, nothing is sent to the server, the history with the peer grows by the text
  as ours, and the user is told once.
\<close>

theorem send_over_session:
  assumes "inbox_ready L (x25519_priv me) c (co_net (cl_core s)) (from_parts t You (en_now env 0), en_rand env 3)"
    and "h = generate_peer_hash L (ch_peer c)" and "co_sessions (cl_core s) h = Some e" and "en_session_up env"
    and "s' = handle_command L V iter me env (CSend h t) s"
  shows "cl_outbound s' = cl_outbound s @ [(se_id e, t)] \<and> cl_server_tx s' = cl_server_tx s
    \<and> co_sessions (cl_core s') = co_sessions (cl_core s)
    \<and> chat_read (c\<lparr>ch_disk := cl_disk s'\<rparr>) = chat_read c @ [from_parts t You (en_now env 0)]
    \<and> co_events (cl_core s') = co_events (cl_core s) @ [AMessageArrived h True]"
proof -
  from assms(1-3) obtain d where d: "handle_command L V iter me env (CSend h t) s = app_send (AMessageArrived h True) (set_disk d
      (if en_session_up env then s\<lparr>cl_outbound := cl_outbound s @ [(se_id e, t)]\<rparr> else remove_session h s))"
    "chat_read (c\<lparr>ch_disk := d\<rparr>) = chat_read c @ [from_parts t You (en_now env 0)]"
    by (rule send_with_session)
  then show ?thesis using assms(4,5) by simp
qed

text \<open>
  C38: A message to a peer whose session has just died is lost, although it looks sent. When the
  writer of the session is gone, the command only forgets the session: the text reaches neither
  a session nor the server, yet it is stored as sent and reported to the user as such.
\<close>

theorem send_on_closed_session_lost:
  assumes "inbox_ready L (x25519_priv me) c (co_net (cl_core s)) (from_parts t You (en_now env 0), en_rand env 3)"
    and "h = generate_peer_hash L (ch_peer c)" and "co_sessions (cl_core s) h = Some e" and "\<not> en_session_up env"
    and "s' = handle_command L V iter me env (CSend h t) s"
  shows "cl_outbound s' = cl_outbound s \<and> cl_server_tx s' = cl_server_tx s \<and> co_sessions (cl_core s') h = None
    \<and> chat_read (c\<lparr>ch_disk := cl_disk s'\<rparr>) = chat_read c @ [from_parts t You (en_now env 0)]
    \<and> co_events (cl_core s') = co_events (cl_core s) @ [AMessageArrived h True]"
proof -
  from assms(1-3) obtain d where d: "handle_command L V iter me env (CSend h t) s = app_send (AMessageArrived h True) (set_disk d
      (if en_session_up env then s\<lparr>cl_outbound := cl_outbound s @ [(se_id e, t)]\<rparr> else remove_session h s))"
    "chat_read (c\<lparr>ch_disk := d\<rparr>) = chat_read c @ [from_parts t You (en_now env 0)]"
    by (rule send_with_session)
  then show ?thesis using assms(4,5) by simp
qed

section \<open>Sending offline\<close>

lemma send_offline:
  assumes ready: "inbox_ready L (x25519_priv me) c (co_net (cl_core s)) (from_parts t You (en_now env 0), en_rand env 3)"
    and h: "h = generate_peer_hash L (ch_peer c)" and none: "co_sessions (cl_core s) h = None" and up: "en_up env h"
    and gen: "generate_offline_message L V (en_now env 1) (en_now env 2) (ch_peer c) (x25519_pub me) (x25519_priv me) t (ed25519_signing me)
                (en_rand env 0) (en_rand env 1) (en_rand env 2) = Inr msg"
  obtains d where "handle_command L V iter me env (CSend h t) s = app_send (AMessageArrived h True) (set_disk d (server_send True msg s))"
    and "chat_read (c\<lparr>ch_disk := d\<rparr>) = chat_read c @ [from_parts t You (en_now env 0)]"
    and "c\<lparr>ch_disk := d\<rparr> = chat_append (from_parts t You (en_now env 0), en_rand env 3) c"
proof -
  let ?s = "server_send True msg s"
  have "inbox_ready L (x25519_priv me) c (co_net (cl_core ?s)) (from_parts t You (en_now env 0), en_rand env 3)" using ready by simp
  then obtain d where d: "record_sent L me env h (ch_peer c) t ?s = app_send (AMessageArrived h True) (set_disk d ?s)"
    "chat_read (c\<lparr>ch_disk := d\<rparr>) = chat_read c @ [from_parts t You (en_now env 0)]"
    "c\<lparr>ch_disk := d\<rparr> = chat_append (from_parts t You (en_now env 0), en_rand env 3) c"
    using h by (rule record_sent_stores)
  have "fst (load_peer_data L h (cl_disk s)) = Inr (ch_peer c)" using ready h by (simp add: inbox_ready_def cl_disk_def)
  then show ?thesis using none up gen d by (intro that [of d]) (simp_all add: handle_command_def command_send_def)
qed

text \<open>
  C8: A message to a peer without a session arrives. The sender's command gives the server exactly
  one blob, addressed to the peer's identity, and stores the text as sent; when the peer, who has
  the sender in its contacts, processes that blob within 30 days, its history with the sender
  grows by exactly that text, as the peer's, and its user is notified.
\<close>

theorem offline_send_delivered:
  assumes "hkdf_ok L" and "aead_ok L" and "ed_ok L" and "dh_ok L" and "msg_codec_ok L" and "sha_ok L" and "blob_codec_ok V"
    and "length a = 32" and "length ka = 32" and "length b = 32"
    and "length (en_rand env 0) = 12" and "length (en_rand env 1) = 32" and "length (en_rand env 2) = 12"
    and me: "me = \<lparr>x25519_priv = a, x25519_pub = x25519_public L a, ed25519_signing = ka, ed25519_verifying = ed_public L ka\<rparr>"
    and mine: "inbox_ready L a ca (co_net (cl_core s)) (from_parts t You (en_now env 0), en_rand env 3)"
    and to: "ch_peer ca = \<lparr>pk_public = x25519_public L b, pk_verifying = vb\<rparr>" and h: "h = generate_peer_hash L (ch_peer ca)"
    and none: "co_sessions (cl_core s) h = None" and up: "en_up env h"
    and gen: "generate_offline_message L V (en_now env 1) (en_now env 2) (ch_peer ca) (x25519_public L a) a t ka
                (en_rand env 0) (en_rand env 1) (en_rand env 2) = Inr msg"
    and s': "s' = handle_command L V iter me env (CSend h t) s"
    and sender: "ch_peer cb = \<lparr>pk_public = x25519_public L a, pk_verifying = ed_public L ka\<rparr>"
    and theirs: "inbox_ready L b cb n (from_parts t Peer (en_now env 1), rn)"
    and age: "sint (i64_abs (now - en_now env 1)) \<le> 2592000"
  shows "cl_server_tx s' = cl_server_tx s @ [msg] \<and> cl_outbound s' = cl_outbound s
    \<and> chat_read (ca\<lparr>ch_disk := cl_disk s'\<rparr>) = chat_read ca @ [from_parts t You (en_now env 0)]
    \<and> (\<exists>blob n'. cts_payload msg = SendBlob h blob \<and> process_blob L V now blob b rn n = (Inr (), n')
         \<and> chat_read (cb\<lparr>ch_disk := net_disk n'\<rparr>) = chat_read cb @ [from_parts t Peer (en_now env 1)]
         \<and> net_events n' = net_events n @ [EBlobStored (generate_peer_hash L (ch_peer cb))])"
proof -
  have "inbox_ready L (x25519_priv me) ca (co_net (cl_core s)) (from_parts t You (en_now env 0), en_rand env 3)"
    "generate_offline_message L V (en_now env 1) (en_now env 2) (ch_peer ca) (x25519_pub me) (x25519_priv me) t (ed25519_signing me)
       (en_rand env 0) (en_rand env 1) (en_rand env 2) = Inr msg"
    using mine me gen by simp_all
  then obtain d where "s' = app_send (AMessageArrived h True) (set_disk d (server_send True msg s))"
    "chat_read (ca\<lparr>ch_disk := d\<rparr>) = chat_read ca @ [from_parts t You (en_now env 0)]"
    using h none up send_offline [of L me ca s t env h V msg iter] unfolding s' by metis
  moreover have "identity_hash L (x25519_public L b) vb = h" using h to by (simp add: generate_peer_hash_def)
  ultimately show ?thesis
    using offline_message_delivered [OF assms(1-13) gen [unfolded to] age sender theirs] by (auto simp: server_send_def)
qed

text \<open>A client with a live session with its contact.\<close>

definition demo_live :: "demo_db client" where
  "demo_live = (demo_client (demo_box 1 1))\<lparr>cl_core := (core0 (demo_box 1 1))\<lparr>co_sessions :=
     [key_of 1 \<mapsto> \<lparr>se_id = 0, se_session = undefined, se_relay_in = True\<rparr>]\<rparr>\<rparr>"

lemma demo_live_state:
  "key_of 1 = generate_peer_hash demo_lib (ch_peer (demo_box_chat 2 1 1))" "cl_outbound demo_live = []" "cl_server_tx demo_live = []"
  "co_sessions (cl_core demo_live) (key_of 1) = Some \<lparr>se_id = 0, se_session = undefined, se_relay_in = True\<rparr>"
  "inbox_ready demo_lib (x25519_priv demo_me) (demo_box_chat 2 1 1) (co_net (cl_core demo_live)) (from_parts (lit ''Hi'') You 100, replicate 12 4)"
  using demo_box_ready [of 2 1 1 You 100 4]
  by (simp_all add: generate_peer_hash_def demo_box_chat_def demo_contact_def demo_hash demo_live_def demo_client_def core0_def demo_me_def)

theorem send_over_session_witness:
  "cl_outbound (handle_command demo_lib demo_server rev demo_me demo_env (CSend (key_of 1) (lit ''Hi'')) demo_live) = [(0, lit ''Hi'')]"
proof -
  have r: "inbox_ready demo_lib (x25519_priv demo_me) (demo_box_chat 2 1 1) (co_net (cl_core demo_live))
      (from_parts (lit ''Hi'') You (en_now demo_env 0), en_rand demo_env 3)" "en_session_up demo_env"
    using demo_live_state(5) by (simp_all add: demo_env_def)
  show ?thesis
    using send_over_session [OF r(1) demo_live_state(1,4) r(2) refl, of demo_server rev] demo_live_state(2) by simp
qed

theorem send_on_closed_session_lost_witness:
  "let s' = handle_command demo_lib demo_server rev demo_me (demo_env\<lparr>en_session_up := False\<rparr>) (CSend (key_of 1) (lit ''Hi'')) demo_live in
   cl_outbound s' = [] \<and> cl_server_tx s' = [] \<and> co_events (cl_core s') = co_events (cl_core demo_live) @ [AMessageArrived (key_of 1) True]"
proof -
  let ?env = "demo_env\<lparr>en_session_up := False\<rparr>"
  have r: "inbox_ready demo_lib (x25519_priv demo_me) (demo_box_chat 2 1 1) (co_net (cl_core demo_live))
      (from_parts (lit ''Hi'') You (en_now ?env 0), en_rand ?env 3)" "\<not> en_session_up ?env"
    using demo_live_state(5) by (simp_all add: demo_env_def)
  show ?thesis
    using send_on_closed_session_lost [OF r(1) demo_live_state(1,4) r(2) refl, of demo_server rev] demo_live_state(2,3)
    by (simp add: Let_def)
qed

theorem offline_send_delivered_witness:
  "\<exists>msg blob n'. cl_server_tx (handle_command demo_lib demo_server rev (demo_me\<lparr>x25519_priv := key_of 1, x25519_pub := key_of 1,
         ed25519_signing := key_of 1, ed25519_verifying := key_of 1\<rparr>) demo_env (CSend (key_of 2) (lit ''Hi'')) (demo_client (demo_box 2 3))) = [msg]
     \<and> cts_payload msg = SendBlob (key_of 2) blob
     \<and> process_blob demo_lib demo_server 200 blob (key_of 2) (replicate 12 5) (demo_box 1 1) = (Inr (), n')
     \<and> chat_read ((demo_box_chat 2 1 1)\<lparr>ch_disk := net_disk n'\<rparr>) = chat_read (demo_box_chat 2 1 1) @ [from_parts (lit ''Hi'') Peer 100]"
proof -
  let ?me = "demo_me\<lparr>x25519_priv := key_of 1, x25519_pub := key_of 1, ed25519_signing := key_of 1, ed25519_verifying := key_of 1\<rparr>"
  have x: "x25519_public demo_lib k = k" "ed_public demo_lib k = k" for k by (simp_all add: demo_lib_def)
  have me: "?me = \<lparr>x25519_priv = key_of 1, x25519_pub = x25519_public demo_lib (key_of 1), ed25519_signing = key_of 1,
      ed25519_verifying = ed_public demo_lib (key_of 1)\<rparr>"
    by (simp add: demo_me_def x)
  have r1: "inbox_ready demo_lib (key_of 1) (demo_box_chat 1 2 3) (co_net (cl_core (demo_client (demo_box 2 3))))
      (from_parts (lit ''Hi'') You (en_now demo_env 0), en_rand demo_env 3)"
    using demo_box_ready [of 1 2 3 You 100 4] by (simp add: demo_client_def core0_def demo_env_def)
  have to: "ch_peer (demo_box_chat 1 2 3) = \<lparr>pk_public = x25519_public demo_lib (key_of 2), pk_verifying = key_of 3\<rparr>"
    by (simp add: demo_box_chat_def demo_contact_def x)
  have h: "key_of 2 = generate_peer_hash demo_lib (ch_peer (demo_box_chat 1 2 3))"
    unfolding to by (simp add: generate_peer_hash_def x demo_hash)
  have none: "co_sessions (cl_core (demo_client (demo_box 2 3))) (key_of 2) = None" by (simp add: demo_client_def core0_def)
  have up: "en_up demo_env (key_of 2)" by (simp add: demo_env_def)
  obtain msg where gen: "generate_offline_message demo_lib demo_server (en_now demo_env 1) (en_now demo_env 2) (ch_peer (demo_box_chat 1 2 3))
      (x25519_public demo_lib (key_of 1)) (key_of 1) (lit ''Hi'') (key_of 1) (en_rand demo_env 0) (en_rand demo_env 1) (en_rand demo_env 2) = Inr msg"
    unfolding to using demo_offline_made by blast
  have sender: "ch_peer (demo_box_chat 2 1 1) = \<lparr>pk_public = x25519_public demo_lib (key_of 1), pk_verifying = ed_public demo_lib (key_of 1)\<rparr>"
    by (simp add: demo_box_chat_def demo_contact_def x)
  have r2: "inbox_ready demo_lib (key_of 2) (demo_box_chat 2 1 1) (demo_box 1 1) (from_parts (lit ''Hi'') Peer (en_now demo_env 1), replicate 12 5)"
    using demo_box_ready [of 2 1 1 Peer 100 5] by (simp add: demo_env_def)
  have age: "sint (i64_abs (200 - en_now demo_env 1)) \<le> 2592000"
  proof -
    have "sint (i64_abs (200 - 100)) \<le> 2592000" by code_simp
    then show ?thesis by (simp add: demo_env_def)
  qed
  have len: "length (en_rand demo_env 0) = 12" "length (en_rand demo_env 1) = 32" "length (en_rand demo_env 2) = 12"
    by (simp_all add: demo_env_def)
  have "cl_server_tx (demo_client (demo_box 2 3)) = []" "en_now demo_env 1 = 100" by (simp_all add: demo_client_def demo_env_def)
  then show ?thesis
    using offline_send_delivered [OF demo_hkdf demo_aead demo_ed demo_dh demo_msg_codec demo_sha demo_blob_codec
        length_key_of length_key_of length_key_of len me r1 to h none up gen refl sender r2 age, of rev] by auto
qed

end
