(* ===== verification/Client_Peers.thy ===== *)
theory Client_Peers
  imports Client_Commands
begin

text \<open>
  Leaving: what removing a peer, purging a conversation and shutting down leave behind, and what
  becomes of the intents the core could not serve. Purging is followed to the other client.
\<close>

section \<open>Removing a peer\<close>

lemma load_aliases_cong:
  assumes "node_at d' (aliases_path L) = node_at d (aliases_path L)" and "fault d' = fault d"
  shows "load_aliases L d' = load_aliases L d"
proof -
  have "fst (read_to_string (aliases_path L) d') = fst (read_to_string (aliases_path L) d)"
    using assms by (auto simp: read_to_string_def fs_open_read_def fs_contents_def op_bind_def
        faulty_def is_dir_def exists_def split: option.splits sum.splits prod.splits node.splits)
  then show ?thesis by (simp add: load_aliases_def)
qed

lemma aliases_off_peers [simp]:
  "\<not> prefix (peer_path L h) (aliases_path L)" "\<not> prefix (peer_path L h) (sechat_dir L)"
  "peer_path L h \<noteq> aliases_path L" "peer_pub_path L h \<noteq> aliases_path L"
  using prefix_length_le [of "peer_path L h"] by (auto simp: aliases_path_def path_defs dest: arg_cong [of _ _ length])

lemma delete_peer_aliases:
  assumes "peers_ok L d" and "aliases_ok L d" and "delete_peer L h d = (r, d')"
  shows "aliases_ok L d'" and "load_aliases L d' = load_aliases L d" and "exists d (peer_path L h) \<Longrightarrow> \<not> exists d' (chat_path L h)"
proof -
  have d': "d' = (if exists d (peer_path L h) then remove_tree (peer_path L h) d else d)"
    using delete_peer_disk(1) [OF assms(1), of h] assms(3) by simp
  show l: "load_aliases L d' = load_aliases L d"
    by (rule load_aliases_cong) (simp_all add: d')
  have "node_at d' q = node_at d q" if "prefix q (sechat_dir L) \<or> q = aliases_path L" for q
  proof -
    have "\<not> prefix (peer_path L h) q" using that by (metis aliases_off_peers(1,2) prefix_order.trans)
    then show ?thesis by (simp add: d')
  qed
  moreover have "fault d' = fault d" by (simp add: d')
  ultimately show "aliases_ok L d'"
    using assms(2) l unfolding aliases_ok_def is_dir_def exists_def by (metis prefix_order.refl)
  show "\<not> exists d' (chat_path L h)" if "exists d (peer_path L h)"
    using that by (simp add: d' exists_def chat_path_def peer_path_def)
qed

lemma remove_alias_disk:
  assumes "remove_alias L iter k d = (Inr u, d')"
  shows "fault d' = fault d" and "p \<noteq> aliases_path L \<Longrightarrow> node_at d' p = node_at d p"
  using assms
  by (auto simp: remove_alias_def Let_def op_map_err_ok dest!: fs_write_ok(1) split: if_splits)

lemma remove_alias_peers:
  assumes "remove_alias L iter k d = (Inr u, d')"
  shows "fst (load_peer_data L g d') = fst (load_peer_data L g d)" and "exists d' (chat_path L g) = exists d (chat_path L g)"
proof -
  note r = remove_alias_disk [OF assms]
  have "chat_path L g \<noteq> aliases_path L" by (auto simp: chat_path_def peer_path_def peers_dir_def aliases_path_def)
  then show "exists d' (chat_path L g) = exists d (chat_path L g)" using r(2) by (simp add: exists_def chat_path_def)
  show "fst (load_peer_data L g d') = fst (load_peer_data L g d)"
    by (intro load_peer_data_cong) (simp_all add: is_dir_def r)
qed

lemma map_of_intents_remove: "map_of (intents_remove h ints) = (map_of ints)(h := None)"
  by (induction ints) (auto simp: intents_remove_def)

text \<open>
  C19: Removing a contact, on a disk where files can be deleted and written, deletes what is kept about it and nothing else. Afterwards its keys no longer load, its whole directory with the
  conversation is gone and so is its alias; it has neither a session nor a connect intent. No other file changes but the file of aliases,
  in which every other peer keeps its own; every other peer keeps keys, conversation, session and intent. Nothing is sent to the
  server, no event is reported, and nothing else of the client's state changes: in particular a connection attempt to the peer that is
  already in flight is not stopped.
\<close>

theorem remove_peer_forgets:
  assumes "hex_ok L" and "iter_ok iter" and "peers_ok L (cl_disk s)" and "aliases_ok L (cl_disk s)"
    and "fst (load_peer_data L h (cl_disk s)) = Inr p"
    and "s' = handle_command L V iter me env (CRemovePeer h) s"
  shows "(\<lambda>g. ok (fst (load_peer_data L g (cl_disk s')))) = (\<lambda>g. ok (fst (load_peer_data L g (cl_disk s))))(h := None)
    \<and> (\<lambda>g. alias_of L g (cl_disk s')) = (\<lambda>g. alias_of L g (cl_disk s))(h := None)
    \<and> \<not> exists (cl_disk s') (chat_path L h)
    \<and> (\<forall>q. q \<noteq> aliases_path L \<longrightarrow> node_at (cl_disk s') q = (if prefix (peer_path L h) q then None else node_at (cl_disk s) q))
    \<and> co_sessions (cl_core s') = (co_sessions (cl_core s))(h := None)
    \<and> map_of (cl_intents s') = (map_of (cl_intents s))(h := None)
    \<and> s' = s\<lparr>cl_intents := cl_intents s', cl_core := (cl_core s)\<lparr>co_sessions := co_sessions (cl_core s'),
          co_net := (co_net (cl_core s))\<lparr>net_disk := cl_disk s'\<rparr>\<rparr>\<rparr>"
proof -
  let ?s1 = "remove_session h (s\<lparr>cl_intents := intents_remove h (cl_intents s)\<rparr>)"
  obtain d1 where d1: "delete_peer L h (cl_disk s) = (Inr (), d1)"
    using delete_peer_disk(2) [OF assms(3), of h] by (metis prod.collapse)
  note a1 = delete_peer_aliases [OF assms(3,4) d1]
  obtain d2 where d2: "remove_alias L iter h d1 = (Inr (), d2)"
    "map_of (load_aliases L d2) = (map_of (load_aliases L d1))(h := None)"
    using remove_alias_effect [OF assms(1,2) a1(1)] by metis
  have disk: "cl_disk ?s1 = cl_disk s" by (simp add: cl_disk_def)
  have s': "s' = set_disk d2 (set_disk d1 ?s1)"
    using assms(6) on_cl_disk_eq [of "delete_peer L h" ?s1] on_cl_disk_eq [of "remove_alias L iter h" "set_disk d1 ?s1"] d1 d2(1) disk
    by (simp add: handle_command_def command_remove_def Let_def)
  have "fst (load_peer_data L g d2) = (if g = h then Inl (NotFound (hex_encode L h)) else fst (load_peer_data L g (cl_disk s)))" for g
    using remove_alias_peers(1) [OF d2(1)] load_after_delete [OF assms(1,3), of g h] d1 by simp
  moreover have ex: "exists (cl_disk s) (peer_path L h)"
    using assms(5) by (auto simp: load_peer_data_def is_dir_def exists_def split: if_splits option.splits)
  then have "\<not> exists d2 (chat_path L h)" using a1(3) remove_alias_peers(2) [OF d2(1)] by simp
  moreover have "d1 = remove_tree (peer_path L h) (cl_disk s)" using delete_peer_disk(1) [OF assms(3), of h] d1 ex by simp
  then have "node_at d2 q = (if prefix (peer_path L h) q then None else node_at (cl_disk s) q)" if "q \<noteq> aliases_path L" for q
    using remove_alias_disk(2) [OF d2(1) that] by simp
  ultimately show ?thesis
    using d2(2) a1(2) by (auto simp: s' alias_of_def map_of_intents_remove fun_eq_iff set_disk_def remove_session_def cl_disk_def)
qed

lemma tasks_on_cl_disk: "co_tasks (cl_core (snd (on_cl_disk m s))) = co_tasks (cl_core s)"
  by (simp add: on_cl_disk_def on_cl_net_def split: prod.split)

text \<open>
  The attempt in flight can still succeed: then the removed contact has a session again, filed under the hash the user
  removed.
\<close>

lemma removed_peer_returns:
  assumes "co_tasks (cl_core s) n = Some (peer, Reserved)" and "h = generate_peer_hash L peer"
    and "fst (delete_peer L h (cl_disk s)) = Inr ()" and "connect_transport punch handshake relay = Some (tr, key, direct)"
    and "start_session L tr key (x25519_pub me) (ed25519_signing me) peer (am_i_first (x25519_pub me) (pk_public peer)) = Some x"
  obtains k where "connect_step L me (cl_core (handle_command L V iter me env (CRemovePeer h) s)) k" and "co_sessions k h \<noteq> None"
proof -
  let ?s = "handle_command L V iter me env (CRemovePeer h) s"
  have "co_tasks (cl_core ?s) = co_tasks (cl_core s)"
    by (auto simp: handle_command_def command_remove_def Let_def remove_session_def app_send_def case_prod_beta tasks_on_cl_disk split: sum.split)
  then have "co_tasks (cl_core ?s) n = Some (peer, Reserved)" using assms(1) by simp
  from land [OF this assms(2,4,5)] that show ?thesis by fastforce
qed

section \<open>Purging a conversation\<close>

lemma purge_disk:
  assumes "purge_peer_chat L h d = (Inr (), d')"
  shows "fault d' = fault d" and "\<not> prefix (chat_path L h) q \<Longrightarrow> node_at d' q = node_at d q"
proof -
  have "d' = d \<or> d' = remove_tree (chat_path L h) d"
    using assms by (auto simp: purge_peer_chat_def op_map_err_ok fs_remove_dir_all_def faulty_def split: if_splits option.splits)
  then show "fault d' = fault d" and "\<not> prefix (chat_path L h) q \<Longrightarrow> node_at d' q = node_at d q" by auto
qed

text \<open>
  C20: Purging deletes the conversation on both sides and no other file, where the connection to the server takes the blob and both disks let
  the conversation be deleted. The command sends exactly
  one blob to the server, deletes our conversation with the peer, drops its session and its connect
  intent and tells the user once; no file outside that conversation changes, so that every contact still loads and every other conversation is kept, and
  nothing else of the client's state changes, attempts in flight included. When the peer, who
  has us in its contacts, processes that blob within 30 days, its conversation with us is gone; no other file and nothing
  else of what its tasks share changes.
\<close>

theorem purge_both_sides:
  assumes "hex_ok L" and "hkdf_ok L" and "aead_ok L" and "ed_ok L" and "dh_ok L" and "sha_ok L" and "blob_codec_ok V"
    and "length (ed25519_signing me) = 32" and "length b = 32" and "length (en_rand env 0) = 32" and "length (en_rand env 1) = 12"
    and peer: "fst (load_peer_data L h (cl_disk s)) = Inr \<lparr>pk_public = x25519_public L b, pk_verifying = vb\<rparr>"
    and h: "h = identity_hash L (x25519_public L b) vb"
    and gen: "generate_purge_message L V (en_now env 0) (en_now env 1) \<lparr>pk_public = x25519_public L b, pk_verifying = vb\<rparr>
                (x25519_pub me) (ed25519_signing me) (en_rand env 0) (en_rand env 1) = Inr msg"
    and up: "en_up env h" and local: "purge_peer_chat L h (cl_disk s) = (Inr (), d)"
    and s': "s' = handle_command L V iter me env (CPurge h) s"
    and i: "i = identity_hash L (x25519_pub me) (ed_public L (ed25519_signing me))"
    and us: "fst (load_peer_data L i (net_disk n)) = Inr q" "pk_verifying q = ed_public L (ed25519_signing me)"
    and age: "sint (i64_abs (now - en_now env 0)) \<le> 2592000"
    and remote: "purge_peer_chat L i (net_disk n) = (Inr (), d')"
  shows "cl_server_tx s' = cl_server_tx s @ [msg] \<and> \<not> exists (cl_disk s') (chat_path L h)
    \<and> (\<forall>p. \<not> prefix (chat_path L h) p \<longrightarrow> node_at (cl_disk s') p = node_at (cl_disk s) p)
    \<and> (\<forall>g. fst (load_peer_data L g (cl_disk s')) = fst (load_peer_data L g (cl_disk s)))
    \<and> co_sessions (cl_core s') = (co_sessions (cl_core s))(h := None) \<and> map_of (cl_intents s') = (map_of (cl_intents s))(h := None)
    \<and> co_events (cl_core s') = co_events (cl_core s) @ [AMessageArrived h True]
    \<and> s' = s\<lparr>cl_server_tx := cl_server_tx s', cl_intents := cl_intents s', cl_core := (cl_core s)\<lparr>co_sessions := co_sessions (cl_core s'),
          co_events := co_events (cl_core s'), co_net := (co_net (cl_core s))\<lparr>net_disk := cl_disk s'\<rparr>\<rparr>\<rparr>
    \<and> (\<exists>blob n'. cts_payload msg = SendBlob h blob \<and> process_blob L V now blob b nonce n = (Inr (), n')
         \<and> n' = n\<lparr>net_disk := net_disk n'\<rparr> \<and> \<not> exists (net_disk n') (chat_path L i)
         \<and> (\<forall>p. \<not> prefix (chat_path L i) p \<longrightarrow> node_at (net_disk n') p = node_at (net_disk n) p)
         \<and> (\<forall>g. fst (load_peer_data L g (net_disk n')) = fst (load_peer_data L g (net_disk n))))"
proof -
  let ?s1 = "remove_session h (s\<lparr>cl_intents := intents_remove h (cl_intents s)\<rparr>)"
  have disk: "cl_disk ?s1 = cl_disk s" by (simp add: cl_disk_def)
  have e: "s' = app_send (AMessageArrived h True) (set_disk d (server_send True msg ?s1))"
    using s' peer gen up local disk on_cl_disk_eq [of "purge_peer_chat L h" "server_send True msg ?s1"]
    by (simp add: handle_command_def command_purge_def Let_def)
  then have "s' = s\<lparr>cl_server_tx := cl_server_tx s', cl_intents := cl_intents s', cl_core := (cl_core s)\<lparr>co_sessions := co_sessions (cl_core s'),
          co_events := co_events (cl_core s'), co_net := (co_net (cl_core s))\<lparr>net_disk := cl_disk s'\<rparr>\<rparr>\<rparr>"
    by (simp add: set_disk_def remove_session_def app_send_def server_send_def cl_disk_def)
  moreover obtain blob where "cts_payload msg = SendBlob h blob" "process_blob L V now blob b nonce n = (Inr (), n\<lparr>net_disk := d'\<rparr>)"
    using purge_obeyed [OF assms(2-11) gen age us [unfolded i] remote [unfolded i]] h by metis
  moreover have "cl_disk s' = d" "cl_server_tx s' = cl_server_tx s @ [msg]" "co_sessions (cl_core s') = (co_sessions (cl_core s))(h := None)"
    "map_of (cl_intents s') = (map_of (cl_intents s))(h := None)" "co_events (cl_core s') = co_events (cl_core s) @ [AMessageArrived h True]"
    using e by (simp_all add: server_send_def map_of_intents_remove)
  ultimately show ?thesis
    using purge_keeps_contacts [OF assms(1) local] purge_keeps_contacts [OF assms(1) remote] purge_disk(2) [OF local] purge_disk(2) [OF remote]
    by auto
qed

section \<open>Shutting down\<close>

lemma unannounce_all_tokens:
  assumes "map (\<lambda>p. presence_token L priv (pk_public p) ts) peers = map Inr tokens" and "\<forall>p \<in> set peers. en_up env (generate_peer_hash L p)"
  shows "map cts_payload (cl_server_tx (unannounce_all L env priv ts i peers s)) = map cts_payload (cl_server_tx s) @ map Unannounce tokens"
  using assms
proof (induction peers arbitrary: tokens i s)
  case (Cons p ps)
  then obtain t tks where t: "tokens = t # tks" "presence_token L priv (pk_public p) ts = Inr t"
    "map (\<lambda>p. presence_token L priv (pk_public p) ts) ps = map Inr tks" by (cases tokens) auto
  show ?case
    using Cons.IH [OF t(3)] t Cons.prems(2) by (simp add: generate_unannounce_message_def server_send_def client_to_server_new_def)
qed simp

lemma presence_token_same_slot:
  assumes "0 \<le> sint t" and "0 \<le> sint t'" and "sint t div 15 = sint t' div 15"
  shows "presence_token L a p t = presence_token L a p t'"
proof -
  have "i64_div t 15 = i64_div t' 15" using assms by (simp add: i64_div_def sdiv_nonneg)
  then show ?thesis by (simp add: presence_token_def)
qed

text \<open>
  C31: Shutting down withdraws what was announced. When the last presence tick fell into the same
  15-second slot as the shutdown and the server takes every message, the client sends for each
  announcement of that tick, in order, the withdrawal of exactly the same token, and nothing
  else; it drops all sessions and the core returns.
\<close>

theorem shutdown_withdraws_all:
  assumes "hkdf_ok L" and tick: "presence_refresh_tick L now clk (x25519_priv me) [] (co_net (cl_core (ru_client r))) = (out, go)"
    and addr: "fst (get_or_set_my_address None (co_net (cl_core (ru_client r)))) = Some address"
    and peers: "fst (load_peers L (cl_disk (ru_client r))) = Inr peers" and up: "\<forall>p \<in> set peers. en_up env (generate_peer_hash L p)"
    and slot: "0 \<le> sint now" "0 \<le> sint (en_now env 0)" "sint now div 15 = sint (en_now env 0) div 15"
    and turn: "relay_turn L V iter me env (FromUser (Some CShutdown)) r = (t, r')"
  shows "t = Return \<and> co_sessions (cl_core (ru_client r')) = Map.empty
    \<and> (\<exists>tokens. length tokens = length peers \<and> map cts_payload out = map (\<lambda>k. Announce k address) tokens
         \<and> map cts_payload (cl_server_tx (ru_client r')) = map cts_payload (cl_server_tx (ru_client r)) @ map Unannounce tokens)"
proof -
  let ?p = "x25519_priv me"
  obtain tokens where tok: "map (\<lambda>p. presence_token L ?p (pk_public p) now) peers = map Inr tokens"
    using presence_tokens_exist [OF assms(1)] .
  then have tok': "map (\<lambda>p. presence_token L ?p (pk_public p) (en_now env 0)) peers = map Inr tokens"
    by (simp add: presence_token_same_slot [OF slot])
  have "length tokens = length peers" using tok by (metis length_map)
  moreover have "map cts_payload out = map (\<lambda>k. Announce k address) tokens"
    using tick addr peers announce_peers_tokens(1) [OF tok, of "[]" clk address] by (simp add: presence_refresh_tick_def cl_disk_def)
  moreover have "r' = r\<lparr>ru_client := shutdown_client L me env (ru_client r)\<rparr> \<and> t = Return"
    using turn by (auto simp: relay_turn_def)
  ultimately show ?thesis
    using unannounce_all_tokens [OF tok' up, of 1 "ru_client r"] peers by (auto simp: shutdown_client_def Let_def comp_def)
qed

section \<open>Presence never reaches the core\<close>

lemma quiet_transp: "transp quiet" "transp (\<lambda>sc sc'. quiet (fst sc) (fst sc'))"
  by (auto intro!: transpI intro: quiet_trans)

lemma handle_message_quiet: "quiet s (snd (handle_message L V now msg priv nonce s))"
proof (cases "stc_payload msg")
  case (SPendingBlob i b t)
  then show ?thesis
    using process_blob_effect [of s L V now b priv nonce] by (auto simp: handle_message_def blob_effect_def split: prod.split)
next
  case (SPeerOnline h a)
  then show ?thesis
    by (auto simp: handle_message_def append_online_peer_def op_bind_def op_map_err_def op_ret_def
        intro!: quiet_same split: prod.splits sum.splits option.splits)
next
  case (SRequestHolePunch k t)
  then show ?thesis by (auto simp: handle_message_def intro!: quiet_same split: prod.split)
qed (auto simp: handle_message_def remove_online_peer_def op_bind_def op_ret_def get_or_set_my_address_def send_event_def quiet_def
    split: option.splits)

lemma dispatch_quiet: "quiet s (snd (main_dispatch_loop L V priv ms s))"
proof (induction L V priv ms s rule: main_dispatch_loop.induct)
  case (2 L V priv now nonce up msg ms s)
  have "quiet s (snd (handle_message L V now msg priv nonce s))" by (rule handle_message_quiet)
  with 2 show ?case by (auto intro: quiet_trans split: prod.splits sum.splits option.splits)
qed (simp add: quiet_same)

lemma send_wrapped_net: "fst (snd (send_wrapped V m sc)) = fst sc"
  by (auto simp: send_wrapped_def conn_send_def op_bind_def map_err_def op_lift_def split: sum.splits list.splits option.splits prod.splits)

lemma announce_all_net: "fst (snd (announce_all L V now priv addr ps sc)) = fst sc"
proof (induction ps arbitrary: sc)
  case (Cons p ps)
  have "transp (\<lambda>sc sc'. fst sc' = fst sc)" by (auto intro: transpI)
  then show ?case
    unfolding announce_all.simps by (intro op_bind_keeps [where R = "\<lambda>sc sc'. fst sc' = fst sc"])
      (auto simp: Cons.IH send_wrapped_net op_lift_def)
qed (simp add: op_ret_def)

lemma handshake_quiet:
  "quiet (fst sc) (fst (snd (server_initial_handshake L V now clk rng pub sg priv port over sc)))"
  unfolding server_initial_handshake_def
  by (intro op_bind_keeps [OF quiet_transp(2)])
    (auto simp: op_lift_def op_ret_def on_net_def conn_recv_def send_wrapped_net announce_all_net op_map_err_def on_disk_def send_event_def
      get_or_set_my_address_def quiet_def [of s "net_events_update f s" for f s] drain_blobs_effect [unfolded blob_effect_def]
      intro!: quiet_same split: prod.split)

text \<open>
  C37: Presence never reaches the core. Whatever messages the server sends, neither the connection
  handshake nor the dispatcher ever reports a peer as online or offline: they only keep the list
  of online peers. So the handlers that re-arm a parked intent and refresh the contact list
  when a peer comes online never run.
\<close>

theorem presence_never_reported:
  "(\<exists>new. net_events (snd (main_dispatch_loop L V priv ms s)) = net_events s @ new
      \<and> (\<forall>h a. EPeerOnline h a \<notin> set new \<and> EPeerOffline h \<notin> set new))
   \<and> (\<exists>new. net_events (snd (run_client L V connect insecure now clk rng pub sg priv server_address port over s)) = net_events s @ new
      \<and> (\<forall>h a. EPeerOnline h a \<notin> set new \<and> EPeerOffline h \<notin> set new))"
proof -
  have "quiet s (snd (run_client L V connect insecure now clk rng pub sg priv server_address port over s))"
  proof (cases "connect (server_url insecure server_address)")
    case (Inr c)
    then show ?thesis
      using handshake_quiet [of "(s, c)" L V now clk rng pub sg priv port over]
      by (auto simp: run_client_def split: prod.splits sum.splits)
  qed (simp add: run_client_def quiet_same)
  then show ?thesis using dispatch_quiet [of s L V priv ms] by (simp add: quiet_def)
qed

section \<open>Concrete runs\<close>

lemma demo_box_ok: "peers_ok demo_lib (net_disk (demo_box p v))" "aliases_ok demo_lib (net_disk (demo_box p v))"
proof -
  let ?d = "net_disk (demo_box p v)" and ?h = "key_of p"
  have n: "node_at ?d q = (if q = peer_path demo_lib ?h then Some DirNode
      else if q = peer_pub_path demo_lib ?h then Some (FileNode (?h @ key_of v)) else if q = chat_path demo_lib ?h then Some (DbNode []) else None)" for q
    by (auto simp: demo_box_def node_at_def demo_disk_def)
  have f: "fault ?d k q = None" for k q by (simp add: demo_box_def demo_disk_def)
  have "peer_path demo_lib g \<noteq> chat_path demo_lib ?h" "peer_pub_path demo_lib g \<noteq> chat_path demo_lib ?h" for g
    by (auto simp: chat_path_def peer_path_def peer_pub_path_def)
  moreover have d: "prefix q (peers_dir demo_lib) \<Longrightarrow> is_dir ?d q \<or> \<not> exists ?d q" for q
    using prefix_length_le [of q "peers_dir demo_lib"] by (auto simp: exists_def is_dir_def n path_defs)
  ultimately show "peers_ok demo_lib ?d"
    using f d by (auto simp: peers_ok_def n is_dir_def)
  have none: "node_at ?d (aliases_path demo_lib) = None"
    by (auto simp: n aliases_path_def path_defs)
  then have ne: "\<not> exists ?d (aliases_path demo_lib)" "\<not> is_dir ?d (aliases_path demo_lib)"
    by (simp_all add: exists_def is_dir_def aliases_path_def)
  then have "load_aliases demo_lib ?d = []"
    using f by (simp add: load_aliases_def read_to_string_def fs_open_read_def)
  moreover have "prefix q (sechat_dir demo_lib) \<Longrightarrow> is_dir ?d q \<or> \<not> exists ?d q" for q
    using d by (simp add: peers_dir_def)
  ultimately show "aliases_ok demo_lib ?d"
    using f ne by (auto simp: aliases_ok_def)
qed

theorem remove_peer_forgets_witness:
  "let s' = handle_command demo_lib demo_server rev demo_me demo_env (CRemovePeer (key_of 1)) demo_live in
   co_sessions (cl_core s') (key_of 1) = None \<and> ok (fst (load_peer_data demo_lib (key_of 1) (cl_disk s'))) = None
   \<and> \<not> exists (cl_disk s') (chat_path demo_lib (key_of 1))"
proof -
  have d: "cl_disk demo_live = net_disk (demo_box 1 1)" by (simp add: demo_live_def cl_disk_def core0_def)
  have i: "iter_ok rev" by (simp add: iter_ok_def rev_map [symmetric])
  have l: "fst (load_peer_data demo_lib (key_of 1) (cl_disk demo_live)) = Inr (demo_contact 1 1)"
    unfolding d by (rule demo_box_load)
  show ?thesis
    unfolding Let_def
    using remove_peer_forgets [OF demo_hex_ok i demo_box_ok [of 1 1, folded d] l refl, of demo_server demo_me demo_env]
    by (auto dest: fun_cong [of _ _ "key_of 1"])
qed

definition demo_purge_env :: env where
  "demo_purge_env = demo_env\<lparr>en_rand := (\<lambda>i. if i = 0 then key_of 6 else replicate 12 7)\<rparr>"

lemma demo_box_purges:
  obtains d where "purge_peer_chat demo_lib (key_of p) (net_disk (demo_box p v)) = (Inr (), d)"
proof -
  have "node_at (net_disk (demo_box p v)) (chat_path demo_lib (key_of p)) = Some (DbNode [])"
    using demo_box_paths [of "key_of p"] by (simp add: demo_box_def node_at_def demo_disk_def)
  moreover have "fault (net_disk (demo_box p v)) k q = None" for k q by (simp add: demo_box_def)
  ultimately have "fst (purge_peer_chat demo_lib (key_of p) (net_disk (demo_box p v))) = Inr ()"
    by (simp add: purge_peer_chat_def op_map_err_def fs_remove_dir_all_def is_dir_def exists_def)
  then show ?thesis using that by (metis prod.collapse)
qed

theorem purge_both_sides_witness:
  "\<exists>msg blob n'. cl_server_tx (handle_command demo_lib demo_server rev (demo_me\<lparr>x25519_priv := key_of 1, x25519_pub := key_of 1,
         ed25519_signing := key_of 1, ed25519_verifying := key_of 1\<rparr>) demo_purge_env (CPurge (key_of 2)) (demo_client (demo_box 2 3))) = [msg]
     \<and> cts_payload msg = SendBlob (key_of 2) blob
     \<and> process_blob demo_lib demo_server 200 blob (key_of 2) [] (demo_box 1 1) = (Inr (), n')
     \<and> \<not> exists (net_disk n') (chat_path demo_lib (key_of 1))"
proof -
  let ?me = "demo_me\<lparr>x25519_priv := key_of 1, x25519_pub := key_of 1, ed25519_signing := key_of 1, ed25519_verifying := key_of 1\<rparr>"
  let ?s = "demo_client (demo_box 2 3)"
  have x: "x25519_public demo_lib k = k" "ed_public demo_lib k = k" for k by (simp_all add: demo_lib_def)
  have keys: "x25519_pub ?me = key_of 1" "ed25519_signing ?me = key_of 1" by simp_all
  have disk: "cl_disk ?s = net_disk (demo_box 2 3)" by (simp add: demo_client_def cl_disk_def core0_def)
  have len: "length (ed25519_signing ?me) = 32" "length (en_rand demo_purge_env 0) = 32" "length (en_rand demo_purge_env 1) = 12"
    by (simp_all add: demo_purge_env_def)
  have peer: "fst (load_peer_data demo_lib (key_of 2) (cl_disk ?s)) = Inr \<lparr>pk_public = x25519_public demo_lib (key_of 2), pk_verifying = key_of 3\<rparr>"
    unfolding disk using demo_box_load [of 2 3] by (simp add: demo_contact_def x)
  have h: "key_of 2 = identity_hash demo_lib (x25519_public demo_lib (key_of 2)) (key_of 3)"
    "key_of 1 = identity_hash demo_lib (x25519_pub ?me) (ed_public demo_lib (ed25519_signing ?me))"
    by (simp_all add: x demo_hash)
  obtain msg where gen: "generate_purge_message demo_lib demo_server (en_now demo_purge_env 0) (en_now demo_purge_env 1)
      \<lparr>pk_public = x25519_public demo_lib (key_of 2), pk_verifying = key_of 3\<rparr> (x25519_pub ?me) (ed25519_signing ?me)
      (en_rand demo_purge_env 0) (en_rand demo_purge_env 1) = Inr msg"
    unfolding keys using demo_purge_made by blast
  obtain d d' where local: "purge_peer_chat demo_lib (key_of 2) (cl_disk ?s) = (Inr (), d)"
    and remote: "purge_peer_chat demo_lib (key_of 1) (net_disk (demo_box 1 1)) = (Inr (), d')"
    unfolding disk using demo_box_purges by metis
  have up: "en_up demo_purge_env (key_of 2)" by (simp add: demo_purge_env_def demo_env_def)
  have us: "pk_verifying (demo_contact 1 1) = ed_public demo_lib (ed25519_signing ?me)" by (simp add: demo_contact_def x)
  have age: "sint (i64_abs (200 - en_now demo_purge_env 0)) \<le> 2592000"
  proof -
    have "sint (i64_abs (200 - 100)) \<le> 2592000" by code_simp
    then show ?thesis by (simp add: demo_purge_env_def demo_env_def)
  qed
  have "cl_server_tx ?s = []" by (simp add: demo_client_def)
  then show ?thesis
    using purge_both_sides [OF demo_hex_ok demo_hkdf demo_aead demo_ed demo_dh demo_sha demo_blob_codec len(1) length_key_of len(2,3)
        peer h(1) gen up local refl h(2) demo_box_load us age remote, of rev "[]"] by auto
qed

definition demo_announced :: "demo_db runner" where
  "demo_announced = demo_runner ((demo_box 1 2)\<lparr>net_address := Some (lit ''h:7''),
     net_disk := demo_disk [(peers_dir demo_lib, DirNode), (peer_path demo_lib (key_of 1), DirNode),
       (peer_pub_path demo_lib (key_of 1), FileNode (key_of 1 @ key_of 2))]\<rparr>)"

lemma demo_announced_peers: "fst (load_peers demo_lib (cl_disk (ru_client demo_announced))) = Inr [\<lparr>pk_public = key_of 1, pk_verifying = key_of 2\<rparr>]"
  by code_simp

theorem shutdown_withdraws_all_witness:
  "\<exists>token out. presence_refresh_tick demo_lib 95 (\<lambda>_. 95) (x25519_priv demo_me) [] (co_net (cl_core (ru_client demo_announced))) = (out, True)
     \<and> map cts_payload out = [Announce token (lit ''h:7'')]
     \<and> map cts_payload (cl_server_tx (ru_client (snd (relay_turn demo_lib demo_server rev demo_me demo_env (FromUser (Some CShutdown)) demo_announced))))
       = [Unannounce token]"
proof -
  let ?r = "demo_announced" and ?t = "presence_refresh_tick demo_lib 95 (\<lambda>_. 95) (x25519_priv demo_me) [] (co_net (cl_core (ru_client demo_announced)))"
  have a: "fst (get_or_set_my_address None (co_net (cl_core (ru_client ?r)))) = Some (lit ''h:7'')" by code_simp
  have go: "?t = (fst ?t, True)"
  proof -
    have "snd ?t = True" by code_simp
    then show ?thesis by (metis prod.collapse)
  qed
  have up: "\<forall>p \<in> set [\<lparr>pk_public = key_of 1, pk_verifying = key_of 2\<rparr>]. en_up demo_env (generate_peer_hash demo_lib p)"
    by (simp add: demo_env_def)
  have slot: "0 \<le> sint (95 :: i64)" "0 \<le> sint (en_now demo_env 0)" "sint (95 :: i64) div 15 = sint (en_now demo_env 0) div 15"
    by (simp_all add: demo_env_def)
  have "cl_server_tx (ru_client ?r) = []" by (simp add: demo_announced_def demo_runner_def demo_client_def)
  then show ?thesis
    using shutdown_withdraws_all [OF demo_hkdf go a demo_announced_peers up slot prod.collapse [symmetric], of demo_server rev] go
    by (auto simp: length_Suc_conv)
qed

end
