(* ===== verification/Client_Handle.thy ===== *)
theory Client_Handle
  imports Client_Peers
begin

text \<open>
  The handle the user interfaces hold (\<^verbatim>\<open>Client\<close> of \<^verbatim>\<open>crates/client/src/lib.rs\<close>): its methods
  put commands into the channel of the core or work on the files directly; \<^verbatim>\<open>Client::start\<close> makes the
  handle and the core it talks to.
\<close>

section \<open>State\<close>

text \<open>\<open>hd_core\<close> tells the channels of different cores apart.\<close>

record handle =
  hd_core :: nat
  hd_keys :: keys
  hd_id :: bytes
  hd_fingerprint :: rstr

text \<open>
  What a user interface shares with the cores: the files and caches of the process, and the
  commands given to each channel so far. A channel whose core is gone drops them, which the
  sender ignores.
\<close>

record 'd world =
  wo_net :: "'d net"
  wo_sent :: "(nat \<times> command) list"

definition on_wo_net :: "('d net \<Rightarrow> 'a \<times> 'd net) \<Rightarrow> 'd world \<Rightarrow> 'a \<times> 'd world" where
  "on_wo_net m w = (case m (wo_net w) of (r, n) \<Rightarrow> (r, w\<lparr>wo_net := n\<rparr>))"

definition on_wo_disk :: "('d disk, 'e, 'a) op \<Rightarrow> ('d world, 'e, 'a) op" where
  "on_wo_disk m = on_wo_net (on_disk m)"

definition wo_disk :: "'d world \<Rightarrow> 'd disk" where
  "wo_disk w = net_disk (wo_net w)"

section \<open>Methods\<close>

definition my_keys_hex :: "'d crypto_lib \<Rightarrow> handle \<Rightarrow> rstr \<times> rstr" where
  "my_keys_hex L h = (hex_encode L (x25519_pub (hd_keys h)), hex_encode L (ed25519_verifying (hd_keys h)))"

definition send_command :: "handle \<Rightarrow> command \<Rightarrow> 'd world \<Rightarrow> 'd world" where
  "send_command h c w = w\<lparr>wo_sent := wo_sent w @ [(hd_core h, c)]\<rparr>"

definition send_message :: "handle \<Rightarrow> bytes \<Rightarrow> rstr \<Rightarrow> 'd world \<Rightarrow> 'd world" where
  "send_message h peer text = send_command h (CSend peer text)"

definition connect_peer :: "handle \<Rightarrow> bytes \<Rightarrow> 'd world \<Rightarrow> 'd world" where
  "connect_peer h peer = send_command h (CConnect peer)"

definition set_server :: "handle \<Rightarrow> rstr \<Rightarrow> 'd world \<Rightarrow> 'd world" where
  "set_server h addr = send_command h (CSetServer addr)"

definition purge_peer :: "handle \<Rightarrow> bytes \<Rightarrow> 'd world \<Rightarrow> 'd world" where
  "purge_peer h peer = send_command h (CPurge peer)"

definition remove_peer :: "handle \<Rightarrow> bytes \<Rightarrow> 'd world \<Rightarrow> 'd world" where
  "remove_peer h peer = send_command h (CRemovePeer peer)"

definition shutdown :: "handle \<Rightarrow> 'd world \<Rightarrow> 'd world" where
  "shutdown h = send_command h CShutdown"

text \<open>Adding a peer by its two keys; our presence is announced to it at once.\<close>

definition add_peer :: "'d crypto_lib \<Rightarrow> handle \<Rightarrow> bytes \<Rightarrow> bytes \<Rightarrow> ('d world, rstr, bytes) op" where
  "add_peer L h x25519 verifying w =
     (if \<not> ed_valid L verifying then (Inl (lit ''invalid ed25519 key''), w)
      else
        (case on_wo_disk (initialize_peer L x25519 verifying (x25519_priv (hd_keys h))) w of
           (Inl e, w') \<Rightarrow> (Inl (lit ''failed to add peer: '' @ show_crypto_errors L e), w')
         | (Inr _, w') \<Rightarrow> (Inr (identity_hash L x25519 verifying), send_command h CAnnounceNow w')))"

text \<open>
  \<^verbatim>\<open>Client::start\<close>: \<open>bind\<close> is the error of binding the UDP socket, if there is one; \<open>core\<close> numbers the new
  channel. The core starts with no sessions and no intents.
\<close>

definition start_runner :: "rstr \<Rightarrow> 'd net \<Rightarrow> 'd runner" where
  "start_runner server_address n =
     \<lparr>ru_client = \<lparr>cl_core = \<lparr>co_net = n, co_sessions = Map.empty, co_connecting = {}, co_tasks = Map.empty, co_watchers = {},
                     co_next = 0, co_events = []\<rparr>,
                   cl_intents = [], cl_server_tx = [], cl_outbound = [], cl_relay_in = []\<rparr>,
      ru_server = server_address, ru_backoff = 1, ru_slept = []\<rparr>"

definition start_client ::
  "'d crypto_lib \<Rightarrow> nat \<Rightarrow> io_error option \<Rightarrow> keys \<Rightarrow> rstr \<Rightarrow> 'd net \<Rightarrow> rstr + handle \<times> 'd runner" where
  "start_client L core bind keys server_address n =
     (let my_id = identity_hash L (x25519_pub keys) (ed25519_verifying keys) in
      case bind of
        Some e \<Rightarrow> Inl (lit ''failed to bind p2p udp socket: '' @ io_display L e)
      | None \<Rightarrow> Inr (\<lparr>hd_core = core, hd_keys = keys, hd_id = my_id, hd_fingerprint = fingerprint L my_id\<rparr>,
                     start_runner server_address n))"

section \<open>Facts about the methods\<close>

lemma world_simps [simp]:
  "wo_net (send_command h c w) = wo_net w" "wo_sent (send_command h c w) = wo_sent w @ [(hd_core h, c)]"
  "wo_disk (send_command h c w) = wo_disk w"
  by (simp_all add: send_command_def wo_disk_def)

lemmas method_defs = send_message_def connect_peer_def set_server_def purge_peer_def remove_peer_def shutdown_def

lemma on_wo_disk_eq: "m (wo_disk w) = (r, d) \<Longrightarrow> on_wo_disk m w = (r, w\<lparr>wo_net := (wo_net w)\<lparr>net_disk := d\<rparr>\<rparr>)"
  by (simp add: on_wo_disk_def on_wo_net_def on_disk_def wo_disk_def)

text \<open>A core is started in an initial state of the whole client, so its invariants hold from then on.\<close>

lemma start_client_init: "start_client L core bind keys server n = Inr (h, r) \<Longrightarrow> client_init r \<and> hd_keys h = keys \<and> ru_server r = server"
  by (auto simp: start_client_def start_runner_def client_init_def core_init_def Let_def split: option.splits)

text \<open>Adding a well-formed peer succeeds on a healthy disk, and makes it a contact.\<close>

lemma add_peer_effect:
  assumes "hkdf_ok L" and "hex_ok L" and "peers_ok L (wo_disk w)" and "length x = 32" and "length v = 32" and "ed_valid L v"
  obtains w' where "add_peer L h x v w = (Inr (identity_hash L x v), w')"
    and "wo_sent w' = wo_sent w @ [(hd_core h, CAnnounceNow)]" and "peers_ok L (wo_disk w')"
    and "\<And>g. ok (fst (load_peer_data L g (wo_disk w'))) =
           (if g = identity_hash L x v then Some \<lparr>pk_public = x, pk_verifying = v\<rparr> else ok (fst (load_peer_data L g (wo_disk w))))"
proof -
  let ?p = "\<lparr>pk_public = x, pk_verifying = v\<rparr>" and ?priv = "x25519_priv (hd_keys h)"
  let ?s = "(L, wo_disk w)"
  have inv: "book_inv ?s" and good: "book_good ?s ?p"
    using assms by (simp_all add: book_inv_def book_good_def wf_peer_def)
  have "is_ok (fst (initialize_peer L x v ?priv (wo_disk w)))" using initialize_peer_disk [OF assms(3)] assms(1) by metis
  then obtain ks d1 where e: "initialize_peer L x v ?priv (wo_disk w) = (Inr ks, d1)"
    by (cases "initialize_peer L x v ?priv (wo_disk w)"; cases "fst (initialize_peer L x v ?priv (wo_disk w))") auto
  have "book_inv (L, d1)" "book_find (L, d1) = (book_find ?s)(book_key ?s ?p \<mapsto> ?p)"
    using peer_book.inv_add [OF inv good, of ?priv] peer_book.find_add [OF inv good, of ?priv] e by (simp_all add: book_add_def)
  then show ?thesis
    using on_wo_disk_eq [of "initialize_peer L x v ?priv" w, OF e] assms(6)
    by (intro that [of "send_command h CAnnounceNow (w\<lparr>wo_net := (wo_net w)\<lparr>net_disk := d1\<rparr>\<rparr>)"])
      (auto simp: add_peer_def book_inv_def book_find_def book_key_def wo_disk_def fun_eq_iff)
qed

end
