(* ===== verification/Cli_App.thy ===== *)
theory Cli_App
  imports Client_Handle
begin

text \<open>
  The command-line interface (\<^verbatim>\<open>crates/client/src/bin/sechat-cli.rs\<close>): logging in, the loop over
  the lines the user types, and the printing of events. What is printed is one text; the
  keyboard is the list of lines typed.
\<close>

section \<open>Printing and parsing\<close>

definition println :: "rstr \<Rightarrow> rstr" where
  "println s = s @ [10]"

definition print_prompt :: rstr where
  "print_prompt = lit ''> ''"

text \<open>\<^verbatim>\<open>str::splitn\<close>: at most \<open>n\<close> pieces, the last one unsplit.\<close>

fun splitn :: "nat \<Rightarrow> nat \<Rightarrow> rstr \<Rightarrow> rstr list" where
  "splitn 0 c s = []"
| "splitn (Suc 0) c s = [s]"
| "splitn (Suc (Suc n)) c s = (case split_once c s of None \<Rightarrow> [s] | Some (a, b) \<Rightarrow> a # splitn (Suc n) c b)"

text \<open>\<^verbatim>\<open>parts.next()\<close> for the \<open>i\<close>-th time.\<close>

definition part :: "nat \<Rightarrow> rstr list \<Rightarrow> rstr option" where
  "part i ps = (if i < length ps then Some (ps ! i) else None)"

definition parse32 :: "'d crypto_lib \<Rightarrow> rstr \<Rightarrow> bytes option" where
  "parse32 L hex_str = Option.bind (hex_decode L hex_str) try32"

definition find_peer :: "'d crypto_lib \<Rightarrow> i64 \<Rightarrow> rstr \<Rightarrow> 'd world \<Rightarrow> bytes option \<times> 'd world" where
  "find_peer L now query w = on_wo_net (resolve_peer L now query) w"

definition print_help :: rstr where
  "print_help = concat (map (println \<circ> lit)
     [''Available commands:'',
      ''  peers                           list known contacts + online status'',
      ''  mykeys                          print your two public keys to share with peers'',
      ''  server [host:port]              show, or change + persist, the relay address'',
      ''  add <x25519_hex> <verif_hex>    trust a peer by their two 32-byte keys'',
      ''  alias <peer> <name>             set a local name for a peer'',
      ''  connect <peer>                  ask the relay to broker a P2P hole-punch'',
      ''  msg <peer> <text>               send a message (P2P if live, else offline)'',
      ''  history <peer>                  print the stored conversation'',
      ''  purge <peer>                    delete the conversation (both sides)'',
      ''  remove <peer>                   remove the peer entirely (keys + chat + alias)'',
      ''  (<peer> = alias, alias prefix, or fingerprint prefix)'',
      ''  help, ?                         show this help message'',
      ''  quit, exit                      exit the application''])"

section \<open>Commands\<close>

text \<open>The outcome of a line: what it prints, whether the loop goes on, the state.\<close>

type_synonym 'd cli_result = "(rstr \<times> bool) \<times> 'd world"

definition says :: "rstr \<Rightarrow> 'd world \<Rightarrow> 'd cli_result" where
  "says s w = ((println s, True), w)"

definition contact_line :: "contact \<Rightarrow> rstr" where
  "contact_line c = println (lit ''  '' @ [if ct_online c then 0x1F7E2 else 0x26AA] @ lit '' '' @ label c @ lit '' ('' @ ct_fingerprint c
     @ lit '') '' @ (case ct_address c of Some a \<Rightarrow> a | None \<Rightarrow> []))"

definition cli_peers :: "'d crypto_lib \<Rightarrow> i64 \<Rightarrow> 'd world \<Rightarrow> 'd cli_result" where
  "cli_peers L now w =
     (case on_wo_net (contacts L now) w of (cs, w') \<Rightarrow> ((concat (map contact_line cs), True), w'))"

text \<open>A command on a peer: the peer is looked up by what the user typed.\<close>

definition with_peer :: "'d crypto_lib \<Rightarrow> i64 \<Rightarrow> rstr \<Rightarrow> (bytes \<Rightarrow> 'd world \<Rightarrow> 'd cli_result) \<Rightarrow> 'd world \<Rightarrow> 'd cli_result" where
  "with_peer L now query act w =
     (case find_peer L now query w of
        (Some ident, w') \<Rightarrow> act ident w'
      | (None, w') \<Rightarrow> says (lit ''no such peer'') w')"

definition cli_alias ::
  "'d crypto_lib \<Rightarrow> ((bytes \<times> rstr) list \<Rightarrow> (bytes \<times> rstr) list) \<Rightarrow> i64 \<Rightarrow> rstr list \<Rightarrow> 'd world \<Rightarrow> 'd cli_result" where
  "cli_alias L iter now ps =
     (case (part 1 ps, part 2 ps) of
        (Some p, Some name) \<Rightarrow>
          with_peer L now p (\<lambda>ident w.
            case on_wo_disk (Client_Config.set_alias L iter ident name) w of
              (Inr _, w') \<Rightarrow> says (lit ''alias set: '' @ name) w'
            | (Inl e, w') \<Rightarrow> says (lit ''alias failed: '' @ e) w')
      | _ \<Rightarrow> says (lit ''usage: alias <peer> <name>''))"

definition cli_mykeys :: "'d crypto_lib \<Rightarrow> handle \<Rightarrow> 'd world \<Rightarrow> 'd cli_result" where
  "cli_mykeys L h w =
     (case my_keys_hex L h of (x, v) \<Rightarrow>
        ((println (lit ''share these two keys with your peer so they can add you:'')
          @ println (lit ''  x25519:   '' @ x) @ println (lit ''  verifying:'' @ v), True), w))"

definition cli_server :: "'d crypto_lib \<Rightarrow> rstr option \<Rightarrow> handle \<Rightarrow> rstr list \<Rightarrow> 'd world \<Rightarrow> 'd cli_result" where
  "cli_server L env h ps w =
     (case part 1 ps of
        None \<Rightarrow> says (lit ''current server: '' @ (case resolve_server L env (wo_disk w) of Some s \<Rightarrow> s | None \<Rightarrow> lit ''(unset)'')) w
      | Some addr \<Rightarrow> says (lit ''switching to '' @ addr @ lit '' '' @ [0x2026]) (set_server h addr w))"

definition cli_add :: "'d crypto_lib \<Rightarrow> handle \<Rightarrow> rstr list \<Rightarrow> 'd world \<Rightarrow> 'd cli_result" where
  "cli_add L h ps w =
     (case (part 1 ps, part 2 ps) of
        (Some x, Some v) \<Rightarrow>
          (case (parse32 L x, parse32 L v) of
             (Some x', Some v') \<Rightarrow>
               (case add_peer L h x' v' w of
                  (Inr ident, w') \<Rightarrow> says (lit ''added '' @ fingerprint L ident) w'
                | (Inl e, w') \<Rightarrow> says (lit ''add failed: '' @ e) w')
           | _ \<Rightarrow> says (lit ''both keys must be 32-byte hex'') w)
      | _ \<Rightarrow> says (lit ''usage: add <x25519_hex> <verif_hex>'') w)"

definition cli_connect :: "'d crypto_lib \<Rightarrow> i64 \<Rightarrow> handle \<Rightarrow> rstr list \<Rightarrow> 'd world \<Rightarrow> 'd cli_result" where
  "cli_connect L now h ps =
     (case part 1 ps of
        Some fp \<Rightarrow> with_peer L now fp (\<lambda>ident w. (([], True), connect_peer h ident w))
      | None \<Rightarrow> says (lit ''usage: connect <fingerprint>''))"

definition cli_msg :: "'d crypto_lib \<Rightarrow> i64 \<Rightarrow> handle \<Rightarrow> rstr list \<Rightarrow> 'd world \<Rightarrow> 'd cli_result" where
  "cli_msg L now h ps =
     (case (part 1 ps, part 2 ps) of
        (Some fp, Some text) \<Rightarrow> with_peer L now fp (\<lambda>ident w. (([], True), send_message h ident text w))
      | _ \<Rightarrow> says (lit ''usage: msg <fingerprint> <text>''))"

definition cli_purge :: "'d crypto_lib \<Rightarrow> i64 \<Rightarrow> handle \<Rightarrow> rstr list \<Rightarrow> 'd world \<Rightarrow> 'd cli_result" where
  "cli_purge L now h ps =
     (case part 1 ps of
        Some fp \<Rightarrow> with_peer L now fp (\<lambda>ident w.
          says (lit ''purged conversation with '' @ fingerprint L ident) (purge_peer h ident w))
      | None \<Rightarrow> says (lit ''usage: purge <peer>''))"

definition cli_remove :: "'d crypto_lib \<Rightarrow> i64 \<Rightarrow> handle \<Rightarrow> rstr list \<Rightarrow> 'd world \<Rightarrow> 'd cli_result" where
  "cli_remove L now h ps =
     (case part 1 ps of
        Some fp \<Rightarrow> with_peer L now fp (\<lambda>ident w.
          says (lit ''removed peer '' @ fingerprint L ident) (remove_peer h ident w))
      | None \<Rightarrow> says (lit ''usage: remove <peer>''))"

definition history_line :: "chat_line \<Rightarrow> rstr" where
  "history_line l = println (lit ''  '' @ (if cl_from_me l then lit ''you'' else lit ''peer'') @ lit '': '' @ cl_text l)"

definition cli_history :: "'d crypto_lib \<Rightarrow> i64 \<Rightarrow> handle \<Rightarrow> rstr list \<Rightarrow> 'd world \<Rightarrow> 'd cli_result" where
  "cli_history L now h ps =
     (case part 1 ps of
        Some fp \<Rightarrow> with_peer L now fp (\<lambda>ident w.
          case on_wo_disk (history L (hd_keys h) ident) w of
            (Inr ls, w') \<Rightarrow> ((concat (map history_line ls), True), w')
          | (Inl e, w') \<Rightarrow> says (lit ''history failed: '' @ e) w')
      | None \<Rightarrow> says (lit ''usage: history <fingerprint>''))"

text \<open>\<open>env\<close>: the variable \<^verbatim>\<open>SECHAT_SERVER\<close>.\<close>

definition cli_line ::
  "'d crypto_lib \<Rightarrow> ((bytes \<times> rstr) list \<Rightarrow> (bytes \<times> rstr) list) \<Rightarrow> rstr option \<Rightarrow> handle \<Rightarrow> i64 \<Rightarrow> rstr \<Rightarrow> 'd world \<Rightarrow> 'd cli_result" where
  "cli_line L iter env h now line w =
     (let ps = splitn 3 32 (trim line); cmd = hd ps in
      if cmd = lit ''peers'' then cli_peers L now w
      else if cmd = lit ''alias'' then cli_alias L iter now ps w
      else if cmd = lit ''mykeys'' then cli_mykeys L h w
      else if cmd = lit ''server'' then cli_server L env h ps w
      else if cmd = lit ''add'' then cli_add L h ps w
      else if cmd = lit ''connect'' then cli_connect L now h ps w
      else if cmd = lit ''msg'' then cli_msg L now h ps w
      else if cmd = lit ''purge'' then cli_purge L now h ps w
      else if cmd = lit ''remove'' then cli_remove L now h ps w
      else if cmd = lit ''history'' then cli_history L now h ps w
      else if cmd = lit ''help'' \<or> cmd = lit ''?'' then ((print_help, True), w)
      else if cmd = lit ''quit'' \<or> cmd = lit ''exit'' then (([], False), shutdown h w)
      else if cmd = [] then (([], True), w)
      else says (lit ''unknown command: '' @ cmd @ lit '' (try `help`)'') w)"

text \<open>The loop over the lines, each with the time it is typed at; the rest of the lines is not read after \<^verbatim>\<open>quit\<close>.\<close>

fun cli_loop ::
  "'d crypto_lib \<Rightarrow> ((bytes \<times> rstr) list \<Rightarrow> (bytes \<times> rstr) list) \<Rightarrow> rstr option \<Rightarrow> handle \<Rightarrow> (i64 \<times> rstr) list \<Rightarrow> 'd world \<Rightarrow> rstr \<times> 'd world" where
  "cli_loop L iter env h [] w = ([], w)"
| "cli_loop L iter env h ((now, line) # ls) w =
     (case cli_line L iter env h now line w of
        ((out, False), w') \<Rightarrow> (out, w')
      | ((out, True), w') \<Rightarrow>
          (case cli_loop L iter env h ls w' of (out', w'') \<Rightarrow> (out @ print_prompt @ out', w'')))"

section \<open>Events\<close>

text \<open>What the task that listens to the core prints for an event.\<close>

definition cli_event :: "'d crypto_lib \<Rightarrow> handle \<Rightarrow> app_event \<Rightarrow> 'd world \<Rightarrow> rstr \<times> 'd world" where
  "cli_event L h ev w =
     (case ev of
        AConnected observed_address \<Rightarrow> (println (lit ''[connected] observed as '' @ observed_address), w)
      | APeerOnline _ \<Rightarrow> ([], w)
      | APeerOffline _ \<Rightarrow> ([], w)
      | AMessageArrived peer _ \<Rightarrow>
          (case on_wo_disk (history L (hd_keys h) peer) w of
             (Inr ls, w') \<Rightarrow>
               (if ls = [] then []
                else println (lit ''[msg] '' @ (if cl_from_me (last ls) then lit ''you'' else fingerprint L peer) @ lit '': '' @ cl_text (last ls)), w')
           | (Inl _, w') \<Rightarrow> ([], w'))
      | AHolePunchDenied peer reason \<Rightarrow> (println (lit ''[denied] '' @ fingerprint L peer @ lit '': '' @ reason), w)
      | ASessionUp peer direct \<Rightarrow>
          (println (lit ''[session] '' @ fingerprint L peer @ lit '' connected ('' @ (if direct then lit ''direct'' else lit ''relay'') @ lit '')''), w)
      | ASessionDown peer \<Rightarrow> (println (lit ''[session] '' @ fingerprint L peer @ lit '' ended''), w)
      | AConnectRetrying peer n delay_secs \<Rightarrow>
          (println (lit ''[retry] '' @ fingerprint L peer @ lit '' attempt '' @ show_nat (unat n) @ lit '' (next in '' @ show_nat (unat delay_secs) @ lit ''s)''), w)
      | AConnectGaveUp peer \<Rightarrow>
          (println (lit ''[gave up] '' @ fingerprint L peer @ lit '' '' @ [0x2014] @ lit '' will retry when it comes online''), w)
      | ADisconnected \<Rightarrow> (println (lit ''[disconnected]''), w)
      | AError e \<Rightarrow> (println (lit ''[error] '' @ e), w))"

text \<open>The task that waits for a signal, once one came: the client is shut down, then the process ends.\<close>

definition cli_signal :: "handle \<Rightarrow> 'd world \<Rightarrow> rstr \<times> 'd world" where
  "cli_signal h w = (println ([10] @ lit ''shutting down'' @ [0x2026]), shutdown h w)"

section \<open>Starting up\<close>

text \<open>
  The identity: \<open>pw\<close> and \<open>confirm\<close> are what reading a password yields, an error or the text. \<open>None\<close>
  is a panic. What is printed first, then the outcome.
\<close>

definition cli_identity ::
  "'d crypto_lib \<Rightarrow> (keyfile_error \<Rightarrow> rstr) \<Rightarrow> rstr + rstr \<Rightarrow> rstr + rstr \<Rightarrow> bytes \<Rightarrow> bytes \<Rightarrow> bytes \<Rightarrow> bytes \<Rightarrow> 'd disk
   \<Rightarrow> rstr \<times> (rstr + keys) option \<times> 'd disk" where
  "cli_identity L show pw confirm secret signing salt nonce d =
     (if identity_exists L d then
        ([], case pw of Inl e \<Rightarrow> Some (Inl e) | Inr password \<Rightarrow> unlock L password d, d)
      else
        (println (lit ''no identity found '' @ [0x2014] @ lit '' creating a new one''),
         case (pw, confirm) of
           (Inr password, Inr again) \<Rightarrow>
             if password \<noteq> again then (Some (Inl (lit ''passwords do not match'')), d)
             else (case create_identity L show password secret signing salt nonce d of (r, d') \<Rightarrow> (Some r, d'))
         | (Inl e, _) \<Rightarrow> (Some (Inl e), d)
         | (_, Inl e) \<Rightarrow> (Some (Inl e), d)))"

text \<open>
  A line asked for with a prompt: \<open>typed\<close> is what writing the prompt and reading the line yield. What is printed
  comes first.
\<close>

definition prompt_line :: "rstr \<Rightarrow> rstr + rstr \<Rightarrow> rstr \<times> (rstr + rstr)" where
  "prompt_line prompt typed = (prompt, and_then typed (\<lambda>s. Inr (trim s)))"

text \<open>The server address: from the environment, the file, or the user, who is asked only then.\<close>

definition cli_server_address :: "'d crypto_lib \<Rightarrow> rstr option \<Rightarrow> rstr + rstr \<Rightarrow> 'd disk \<Rightarrow> rstr \<times> (rstr + rstr) \<times> 'd disk" where
  "cli_server_address L env typed d =
     (case resolve_server L env d of
        Some s \<Rightarrow> ([], Inr s, d)
      | None \<Rightarrow>
          (case prompt_line (lit ''server address (host:port): '') typed of
             (out, Inl e) \<Rightarrow> (out, Inl e, d)
           | (out, Inr s) \<Rightarrow> (out, op_bind (op_map_err (io_display L) (save_server L s)) (\<lambda>_. op_ret s) d)))"

text \<open>
  What the program meets: the environment variable, the passwords and the server address typed,
  random bytes, the outcome of binding the socket, and the lines typed with their times.
\<close>

record cli_env =
  ce_server :: "rstr option"
  ce_password :: "rstr + rstr"
  ce_confirm :: "rstr + rstr"
  ce_typed :: "rstr + rstr"
  ce_rand :: "nat \<Rightarrow> bytes"
  ce_bind :: "io_error option"
  ce_lines :: "(i64 \<times> rstr) list"

text \<open>
  The program: what it prints (the event printer apart) and \<open>None\<close> for a panic, the error it ends
  with, or the core it started and the state at the end of the loop.
\<close>

definition cli_main ::
  "'d crypto_lib \<Rightarrow> (keyfile_error \<Rightarrow> rstr) \<Rightarrow> ((bytes \<times> rstr) list \<Rightarrow> (bytes \<times> rstr) list) \<Rightarrow> cli_env \<Rightarrow> 'd net
   \<Rightarrow> rstr \<times> (rstr + 'd runner \<times> 'd world) option" where
  "cli_main L show iter e n =
     (case cli_identity L show (ce_password e) (ce_confirm e) (ce_rand e 0) (ce_rand e 1) (ce_rand e 2) (ce_rand e 3) (net_disk n) of
        (out, None, d) \<Rightarrow> (out, None)
      | (out, Some (Inl err), d) \<Rightarrow> (out, Some (Inl err))
      | (out, Some (Inr ks), d) \<Rightarrow>
          (case cli_server_address L (ce_server e) (ce_typed e) d of
             (asked, Inl err, d') \<Rightarrow> (out @ asked, Some (Inl err))
           | (asked, Inr server, d') \<Rightarrow>
               (case start_client L 0 (ce_bind e) ks server (n\<lparr>net_disk := d'\<rparr>) of
                  Inl err \<Rightarrow> (out @ asked, Some (Inl err))
                | Inr (h, r) \<Rightarrow>
                    (case cli_loop L iter (ce_server e) h (ce_lines e) \<lparr>wo_net = n\<lparr>net_disk := d'\<rparr>, wo_sent = []\<rparr> of
                       (out', w) \<Rightarrow>
                         (out @ asked @ println (lit ''identity '' @ hd_fingerprint h @ lit '' '' @ [0x2014] @ lit '' connecting to '' @ server)
                            @ print_prompt @ out', Some (Inr (r, w)))))))"

section \<open>Parsing lines\<close>

lemma splitn3:
  "32 \<notin> set a \<Longrightarrow> 32 \<notin> set b \<Longrightarrow> splitn 3 32 (a @ 32 # b @ 32 # c) = [a, b, c]"
  "32 \<notin> set a \<Longrightarrow> 32 \<notin> set b \<Longrightarrow> splitn 3 32 (a @ 32 # b) = [a, b]"
  "32 \<notin> set a \<Longrightarrow> splitn 3 32 a = [a]"
  by (simp_all add: numeral_3_eq_3 split_once_append split_once_None [THEN iffD2])

lemma splitn_nonempty: "splitn (Suc n) c s \<noteq> []"
  by (induction n) (auto split: option.splits)

section \<open>Commands reach the core for contacts only\<close>

fun cmd_peer :: "command \<Rightarrow> bytes option" where
  "cmd_peer (CSend p t) = Some p"
| "cmd_peer (CConnect p) = Some p"
| "cmd_peer (CPurge p) = Some p"
| "cmd_peer (CRemovePeer p) = Some p"
| "cmd_peer _ = None"

lemma find_in_set: "List.find P xs = Some x \<Longrightarrow> x \<in> set xs"
  by (auto simp: find_Some_iff)

abbreviation contact_ids :: "'d crypto_lib \<Rightarrow> i64 \<Rightarrow> 'd world \<Rightarrow> bytes set" where
  "contact_ids L now w \<equiv> ct_id ` set (fst (contacts L now (wo_net w)))"

lemma resolve_query_member: "resolve_query cs q = Some i \<Longrightarrow> i \<in> ct_id ` set cs"
  by (auto simp: resolve_query_def Let_def split: if_splits option.splits dest!: find_in_set)

lemma find_peer_contact:
  assumes "find_peer L now q w = (r, w')"
  shows "wo_sent w' = wo_sent w" and "set_option r \<subseteq> ct_id ` set (fst (contacts L now (wo_net w)))"
  using assms resolve_query_member
  by (auto simp: find_peer_def on_wo_net_def resolve_peer_def split: prod.splits)

text \<open>At most one command, and one about a contact if it is about a peer.\<close>

definition issues :: "handle \<Rightarrow> bytes set \<Rightarrow> 'd world \<Rightarrow> 'd cli_result \<Rightarrow> bool" where
  "issues h P w r \<longleftrightarrow> (\<exists>new. wo_sent (snd r) = wo_sent w @ new
     \<and> (new = [] \<or> (\<exists>c. new = [(hd_core h, c)] \<and> set_option (cmd_peer c) \<subseteq> P)))"

lemma issues_none [simp]: "wo_sent w' = wo_sent w \<Longrightarrow> issues h P w (r, w')"
  by (simp add: issues_def)

lemma issues_one [simp]: "wo_sent w' = wo_sent w \<Longrightarrow> set_option (cmd_peer c) \<subseteq> P \<Longrightarrow> issues h P w (r, send_command h c w')"
  by (simp add: issues_def)

lemma issues_with_peer:
  assumes "\<And>i w'. i \<in> contact_ids L now w \<Longrightarrow> wo_sent w' = wo_sent w \<Longrightarrow> issues h (contact_ids L now w) w (act i w')"
  shows "issues h (contact_ids L now w) w (with_peer L now q act w)"
proof -
  obtain r w' where f: "find_peer L now q w = (r, w')" by fastforce
  show ?thesis
    using find_peer_contact [OF f] assms [of _ w'] by (cases r) (auto simp: with_peer_def f says_def)
qed

lemma on_wo_sent: "wo_sent (snd (on_wo_net m w)) = wo_sent w" "wo_sent (snd (on_wo_disk m' w)) = wo_sent w"
  by (simp_all add: on_wo_disk_def on_wo_net_def split: prod.split)

lemma on_wo_sentD: "on_wo_net m w = (r, w') \<Longrightarrow> wo_sent w' = wo_sent w" "on_wo_disk m' w = (r', w') \<Longrightarrow> wo_sent w' = wo_sent w"
  using on_wo_sent(1) [of m w] on_wo_sent(2) [of m' w] by simp_all

lemma add_peer_sent:
  assumes "add_peer L h x v w = (r, w')"
  shows "wo_sent w' = wo_sent w \<or> wo_sent w' = wo_sent w @ [(hd_core h, CAnnounceNow)]"
  using assms by (auto simp: add_peer_def dest: on_wo_sentD split: if_splits prod.splits sum.splits)

lemma cli_add_issues: "issues h P w (cli_add L h ps w)"
proof -
  have "issues h P w (case add_peer L h x v w of (Inr ident, w') \<Rightarrow> says (f ident) w' | (Inl e, w') \<Rightarrow> says (g e) w')" for x v f g
  proof -
    obtain r w' where "add_peer L h x v w = (r, w')" by fastforce
    then show ?thesis using add_peer_sent [of L h x v w r w'] by (cases r) (auto simp: says_def issues_def)
  qed
  then show ?thesis by (auto simp: cli_add_def says_def split: option.split)
qed

lemma cli_peers_issues: "issues h P w (cli_peers L now w)"
  by (auto simp: cli_peers_def on_wo_sentD split: prod.split)

lemma cli_alias_issues: "issues h (contact_ids L now w) w (cli_alias L iter now ps w)"
  unfolding cli_alias_def
  by (auto intro!: issues_with_peer simp: says_def on_wo_sentD split: option.split prod.split sum.split)

lemma cli_history_issues: "issues h (contact_ids L now w) w (cli_history L now k ps w)"
  unfolding cli_history_def
  by (auto intro!: issues_with_peer simp: says_def on_wo_sentD split: option.split prod.split sum.split)

lemma cli_peer_command_issues:
  "issues h (contact_ids L now w) w (cli_connect L now h ps w)" "issues h (contact_ids L now w) w (cli_msg L now h ps w)"
  "issues h (contact_ids L now w) w (cli_purge L now h ps w)" "issues h (contact_ids L now w) w (cli_remove L now h ps w)"
  unfolding cli_connect_def cli_msg_def cli_purge_def cli_remove_def
  by (auto intro!: issues_with_peer simp: says_def method_defs split: option.split)

lemma cli_other_issues:
  "issues h P w (cli_mykeys L h w)" "issues h P w (cli_server L env h ps w)" "issues h P w (says s w)"
  "issues h P w ((out, b), w)" "issues h P w (([], False), shutdown h w)"
  by (auto simp: cli_mykeys_def cli_server_def says_def method_defs split: option.split prod.split)

lemmas cli_issues = cli_peers_issues cli_alias_issues cli_history_issues cli_peer_command_issues cli_other_issues cli_add_issues

text \<open>
  Whatever the user types, at most one command reaches the core, and a command about a peer
  (a message, a connection, a purge, a removal) is only ever about one of the contacts the client
  has at that moment.
\<close>

theorem cli_commands_for_contacts:
  "\<exists>new. wo_sent (snd (cli_line L iter env h now line w)) = wo_sent w @ new
     \<and> (new = [] \<or> (\<exists>c. new = [(hd_core h, c)] \<and> set_option (cmd_peer c) \<subseteq> ct_id ` set (fst (contacts L now (wo_net w)))))"
proof -
  have "issues h (contact_ids L now w) w (cli_line L iter env h now line w)"
    unfolding cli_line_def Let_def by (simp add: cli_issues)
  then show ?thesis by (simp add: issues_def)
qed

section \<open>Messages and new contacts\<close>

lemma cmd_words:
  "lit ''msg'' \<noteq> lit ''peers''" "lit ''msg'' \<noteq> lit ''alias''" "lit ''msg'' \<noteq> lit ''mykeys''" "lit ''msg'' \<noteq> lit ''server''"
  "lit ''msg'' \<noteq> lit ''add''" "lit ''msg'' \<noteq> lit ''connect''" "lit ''add'' \<noteq> lit ''peers''" "lit ''add'' \<noteq> lit ''alias''"
  "lit ''add'' \<noteq> lit ''mykeys''" "lit ''add'' \<noteq> lit ''server''" "32 \<notin> set (lit ''msg'')" "32 \<notin> set (lit ''add'')"
  by (simp_all add: lit_def)

lemma line_words: "lit ''msg '' @ r = lit ''msg'' @ 32 # r" "lit ''add '' @ r = lit ''add'' @ 32 # r"
  by (simp_all add: lit_def)

text \<open>
  A message is sent as it was typed. For a line of the form \<^verbatim>\<open>msg <peer> <text>\<close> whose peer is found,
  the core is given exactly one command: to send \<open>text\<close>, with all blanks inside it, to that
  peer; nothing is printed and no file changes.
\<close>

theorem cli_msg_verbatim:
  assumes "trim line = lit ''msg '' @ q @ 32 # t" and "32 \<notin> set q" and "fst (resolve_peer L now q (wo_net w)) = Some i"
  shows "\<exists>w'. cli_line L iter env h now line w = (([], True), w')
    \<and> wo_sent w' = wo_sent w @ [(hd_core h, CSend i t)] \<and> wo_disk w' = wo_disk w"
proof -
  have ps: "splitn 3 32 (trim line) = [lit ''msg'', q, t]"
    using splitn3(1) [OF cmd_words(11) assms(2)] by (simp only: assms(1) line_words)
  obtain w1 where f: "find_peer L now q w = (Some i, w1)" "wo_sent w1 = wo_sent w" "wo_disk w1 = wo_disk w"
    using assms(3)
    by (auto simp: find_peer_def on_wo_net_def resolve_peer_def contacts_def Let_def load_online_peers_def wo_disk_def
        split: prod.splits if_splits)
  have "cli_line L iter env h now line w = (([], True), send_message h i t w1)"
    using f(1) by (simp add: cli_line_def ps cmd_words cli_msg_def part_def with_peer_def)
  then show ?thesis using f(2,3) by (simp add: method_defs)
qed

text \<open>
  C24: The keys one client prints are the keys another can add. Typing \<^verbatim>\<open>add\<close> with the two
  keys that \<^verbatim>\<open>mykeys\<close> of a client prints makes that client a contact under its own identity, leaves
  every other contact as it was, and has the core announce our presence at once.
\<close>

theorem cli_add_printed_keys:
  assumes "hkdf_ok L" and "hex_ok L" and "peers_ok L (wo_disk w)"
    and "length (x25519_pub (hd_keys a)) = 32" and "length (ed25519_verifying (hd_keys a)) = 32" and "ed_valid L (ed25519_verifying (hd_keys a))"
    and "my_keys_hex L a = (x, v)" and "i = identity_hash L (x25519_pub (hd_keys a)) (ed25519_verifying (hd_keys a))"
  shows "\<exists>w'. cli_line L iter env h now (lit ''add '' @ x @ 32 # v) w = ((println (lit ''added '' @ fingerprint L i), True), w')
    \<and> (\<lambda>g. ok (fst (load_peer_data L g (wo_disk w')))) = (\<lambda>g. ok (fst (load_peer_data L g (wo_disk w))))
         (i \<mapsto> \<lparr>pk_public = x25519_pub (hd_keys a), pk_verifying = ed25519_verifying (hd_keys a)\<rparr>)
    \<and> wo_sent w' = wo_sent w @ [(hd_core h, CAnnounceNow)]"
proof -
  let ?px = "x25519_pub (hd_keys a)" and ?pv = "ed25519_verifying (hd_keys a)"
  have xv: "x = hex_encode L ?px" "v = hex_encode L ?pv" using assms(7) by (simp_all add: my_keys_hex_def)
  have nb: "32 \<notin> set x" "32 \<notin> set v" using hex_no_control [OF assms(2), of 32] by (simp_all add: xv)
  have "length v = 2 * length ?pv" using assms(2) unfolding xv hex_ok_def by blast
  then have "v \<noteq> []" using assms(5) by auto
  then have "hex_digit (last v)" using hex_digits [OF assms(2), of ?pv] by (simp add: xv)
  then have "\<not> is_white (last (lit ''add '' @ x @ 32 # v))" using \<open>v \<noteq> []\<close> by (auto simp: hex_digit_def is_white_def)
  moreover have "\<not> is_white (hd (lit ''add '' @ x @ 32 # v))" by (simp add: lit_def is_white_def)
  ultimately have t: "trim (lit ''add '' @ x @ 32 # v) = lit ''add '' @ x @ 32 # v" by (simp add: trim_fix)
  have ps: "splitn 3 32 (trim (lit ''add '' @ x @ 32 # v)) = [lit ''add'', x, v]"
    unfolding t using splitn3(1) [OF cmd_words(12) nb(1)] by (simp only: line_words)
  have "parse32 L x = Some ?px" "parse32 L v = Some ?pv"
    using assms(2,4,5) by (simp_all add: parse32_def xv hex_ok_def try32_len)
  moreover obtain w' where w': "add_peer L h ?px ?pv w = (Inr (identity_hash L ?px ?pv), w')"
    "wo_sent w' = wo_sent w @ [(hd_core h, CAnnounceNow)]"
    "\<And>g. ok (fst (load_peer_data L g (wo_disk w'))) =
      (if g = identity_hash L ?px ?pv then Some \<lparr>pk_public = ?px, pk_verifying = ?pv\<rparr> else ok (fst (load_peer_data L g (wo_disk w))))"
    using add_peer_effect [OF assms(1-6)] by metis
  ultimately have "cli_line L iter env h now (lit ''add '' @ x @ 32 # v) w = says (lit ''added '' @ fingerprint L i) w'"
    by (simp add: cli_line_def ps cmd_words cli_add_def part_def assms(8))
  then show ?thesis using w'(2,3) assms(8) by (auto simp: says_def)
qed

section \<open>A concrete session\<close>

definition demo_handle :: "nat \<Rightarrow> handle" where
  "demo_handle n = \<lparr>hd_core = 0, hd_keys = \<lparr>x25519_priv = key_of n, x25519_pub = key_of n, ed25519_signing = key_of n, ed25519_verifying = key_of n\<rparr>,
     hd_id = key_of n, hd_fingerprint = fingerprint demo_lib (key_of n)\<rparr>"

definition demo_world :: "demo_db world" where
  "demo_world = \<lparr>wo_net = (demo_box 1 1)\<lparr>net_disk := demo_disk [(peers_dir demo_lib, DirNode), (peer_path demo_lib (key_of 1), DirNode),
     (peer_pub_path demo_lib (key_of 1), FileNode (key_of 1 @ key_of 2))]\<rparr>, wo_sent = []\<rparr>"

theorem cli_msg_verbatim_witness:
  "wo_sent (snd (cli_line demo_lib rev None (demo_handle 2) 100 (lit '' msg 0101 Hi  there '') demo_world)) = [(0, CSend (key_of 1) (lit ''Hi  there''))]"
proof -
  have t: "trim (lit '' msg 0101 Hi  there '') = lit ''msg '' @ lit ''0101'' @ 32 # lit ''Hi  there''"
    by (simp add: trim_def lit_def is_white_def)
  have q: "32 \<notin> set (lit ''0101'')" by (simp add: lit_def)
  have i: "fst (resolve_peer demo_lib 100 (lit ''0101'') (wo_net demo_world)) = Some (key_of 1)"
  proof -
    have "fst (load_peers demo_lib (net_disk (wo_net demo_world))) = Inr [\<lparr>pk_public = key_of 1, pk_verifying = key_of 2\<rparr>]" by code_simp
    moreover have "load_aliases demo_lib (net_disk (wo_net demo_world)) = []" by code_simp
    moreover have "fingerprint demo_lib (key_of 1) = lit ''010101010101''" by code_simp
    moreover have "net_peers (wo_net demo_world) = []" by (simp add: demo_world_def demo_box_def demo_inbox_def)
    ultimately show ?thesis
      by (simp add: resolve_peer_def contacts_def load_online_peers_def Let_def demo_hash resolve_query_def trim_def lit_def is_white_def
          split: prod.split)
  qed
  have "wo_sent demo_world = []" "hd_core (demo_handle 2) = 0" by (simp_all add: demo_world_def demo_handle_def)
  then show ?thesis using cli_msg_verbatim [OF t q i, of rev None "demo_handle 2"] by auto
qed

theorem cli_add_printed_keys_witness:
  "\<exists>w'. snd (cli_line demo_lib rev None (demo_handle 2) 100
        (lit ''add '' @ fst (my_keys_hex demo_lib (demo_handle 3)) @ 32 # snd (my_keys_hex demo_lib (demo_handle 3)))
        \<lparr>wo_net = demo_box 1 1, wo_sent = []\<rparr>) = w'
     \<and> ok (fst (load_peer_data demo_lib (key_of 3) (wo_disk w'))) = Some \<lparr>pk_public = key_of 3, pk_verifying = key_of 3\<rparr>
     \<and> wo_sent w' = [(0, CAnnounceNow)]"
proof -
  have k: "hd_keys (demo_handle 3) = \<lparr>x25519_priv = key_of 3, x25519_pub = key_of 3, ed25519_signing = key_of 3, ed25519_verifying = key_of 3\<rparr>"
    "hd_core (demo_handle 2) = 0"
    by (simp_all add: demo_handle_def)
  have ok: "peers_ok demo_lib (wo_disk \<lparr>wo_net = demo_box 1 1, wo_sent = []\<rparr>)" using demo_box_ok(1) by (simp add: wo_disk_def)
  have len: "length (x25519_pub (hd_keys (demo_handle 3))) = 32" "length (ed25519_verifying (hd_keys (demo_handle 3))) = 32" by (simp_all add: k)
  have v: "ed_valid demo_lib (ed25519_verifying (hd_keys (demo_handle 3)))" using len by (simp add: demo_lib_def)
  show ?thesis
    using cli_add_printed_keys [OF demo_hkdf demo_hex_ok ok len v prod.collapse [symmetric] refl, of rev None "demo_handle 2" 100]
    by (auto simp: k demo_hash dest: fun_cong [of _ _ "key_of 3"])
qed

end
