(* ===== verification/Gui_App.thy ===== *)
theory Gui_App
  imports Cli_App
begin

text \<open>
  The graphical interface (\<^verbatim>\<open>crates/gui/src/main.rs\<close>): its state, the messages its widgets and
  tasks produce, and \<^verbatim>\<open>update\<close> with all it calls. The effects \<^verbatim>\<open>update\<close> asks the toolkit for are values
  of \<open>task\<close>.
\<close>

section \<open>State\<close>

datatype rail_tab = TabContacts | TabChat

type_synonym window_id = nat

text \<open>
  \<^verbatim>\<open>Message\<close>, with an \<open>M\<close> in front. \<open>MStarted\<close> carries what starting the client yielded: an error, or the
  handle with what is in the shared cell of its receiver, nothing once it was taken.
\<close>

datatype message_ui =
  MPasswordChanged rstr
| MServerChanged rstr
| MSubmitPassword
| MStarted "rstr + handle \<times> app_event list option"
| MTick
| MSelectPeer bytes
| MDraftChanged rstr
| MSendDraft
| MAddPeerX25519Changed rstr
| MAddPeerVerifyingChanged rstr
| MAddPeer
| MServerFieldChanged rstr
| MChangeServer
| MOpenSettings
| MToggleTheme
| MAliasChanged rstr
| MSetAlias
| MPurgeSelected
| MRemoveSelected
| MSelectRail rail_tab
| MWindowClose window_id
| MDoExit
| MIgnored

text \<open>Password, server and error of the unlock screen.\<close>

datatype screen = Unlock rstr rstr "rstr option" | Main

text \<open>\<open>ap_rx\<close>: the receiver with the events waiting in it.\<close>

record app =
  ap_main_id :: window_id
  ap_settings_id :: "window_id option"
  ap_dark :: bool
  ap_screen :: screen
  ap_has_identity :: bool
  ap_client :: "handle option"
  ap_rx :: "app_event list option"
  ap_contacts :: "contact list"
  ap_selected :: "bytes option"
  ap_history :: "chat_line list"
  ap_draft :: rstr
  ap_status :: rstr
  ap_add_x25519 :: rstr
  ap_add_verifying :: rstr
  ap_server_field :: rstr
  ap_my_keys :: "(rstr \<times> rstr) option"
  ap_unread :: "bytes \<rightharpoonup> u64"
  ap_alias_input :: rstr
  ap_rail_tab :: rail_tab

text \<open>
  What \<^verbatim>\<open>update\<close> hands to the toolkit: nothing, opening or closing a window, starting a client
  (whose outcome comes back as \<open>MStarted\<close>), exiting after a pause, exiting.
\<close>

datatype task = TNone | TOpen window_id | TClose window_id | TStart keys rstr | TExitLater | TExit

text \<open>
  The outside of one message: readings of the clock, random bytes, the identity of a window that
  is opened.
\<close>

record ui_env =
  ue_now :: "nat \<Rightarrow> i64"
  ue_rand :: "nat \<Rightarrow> bytes"
  ue_window :: window_id

definition DEFAULT_SERVER :: rstr where
  "DEFAULT_SERVER = lit ''localhost:3000''"

definition boot :: "'d crypto_lib \<Rightarrow> rstr option \<Rightarrow> window_id \<Rightarrow> 'd disk \<Rightarrow> app \<times> task" where
  "boot L env main_id d =
     (\<lparr>ap_main_id = main_id, ap_settings_id = None, ap_dark = True,
       ap_screen = Unlock [] (case resolve_server L env d of Some s \<Rightarrow> s | None \<Rightarrow> DEFAULT_SERVER) None,
       ap_has_identity = identity_exists L d, ap_client = None, ap_rx = None, ap_contacts = [], ap_selected = None,
       ap_history = [], ap_draft = [], ap_status = lit ''Not connected'', ap_add_x25519 = [], ap_add_verifying = [],
       ap_server_field = [], ap_my_keys = None, ap_unread = Map.empty, ap_alias_input = [], ap_rail_tab = TabContacts\<rparr>,
      TOpen main_id)"

definition title :: "app \<Rightarrow> window_id \<Rightarrow> rstr" where
  "title a window = (if Some window = ap_settings_id a then lit ''SeChat '' @ [0x2014] @ lit '' Settings'' else lit ''SeChat'')"

datatype theme_ui = TokyoNight | Light

definition theme_of :: "app \<Rightarrow> window_id \<Rightarrow> theme_ui" where
  "theme_of a window = (if ap_dark a then TokyoNight else Light)"

text \<open>The timer runs exactly while there is a receiver.\<close>

definition ticking :: "app \<Rightarrow> bool" where
  "ticking a \<longleftrightarrow> ap_rx a \<noteq> None"

section \<open>Operations\<close>

definition parse_key_hex :: "'d crypto_lib \<Rightarrow> (rstr \<Rightarrow> rstr) \<Rightarrow> rstr \<Rightarrow> rstr \<Rightarrow> rstr + bytes" where
  "parse_key_hex L hex_error input name =
     (case hex_decode L (trim input) of
        None \<Rightarrow> Inl (lit ''Invalid '' @ name @ lit '' key hex: '' @ hex_error (trim input))
      | Some b \<Rightarrow>
          (case try32 b of
             Some k \<Rightarrow> Inr k
           | None \<Rightarrow> Inl (name @ lit '' key must be '' @ show_nat 32 @ lit '' bytes, got '' @ show_nat (length b) @ lit '' bytes'')))"

definition refresh_contacts :: "'d crypto_lib \<Rightarrow> i64 \<Rightarrow> app \<times> 'd world \<Rightarrow> app \<times> 'd world" where
  "refresh_contacts L now s =
     (case ap_client (fst s) of
        Some h \<Rightarrow> (case on_wo_net (contacts L now) (snd s) of (cs, w) \<Rightarrow> ((fst s)\<lparr>ap_contacts := cs\<rparr>, w))
      | None \<Rightarrow> s)"

definition reload_history :: "'d crypto_lib \<Rightarrow> bytes \<Rightarrow> app \<times> 'd world \<Rightarrow> app \<times> 'd world" where
  "reload_history L peer s =
     (case ap_client (fst s) of
        Some h \<Rightarrow>
          (case on_wo_disk (history L (hd_keys h) peer) (snd s) of
             (Inr ls, w) \<Rightarrow> ((fst s)\<lparr>ap_history := ls\<rparr>, w)
           | (Inl e, w) \<Rightarrow> ((fst s)\<lparr>ap_status := lit ''Failed to load history: '' @ e\<rparr>, w))
      | None \<Rightarrow> s)"

definition apply_event :: "'d crypto_lib \<Rightarrow> i64 \<Rightarrow> app_event \<Rightarrow> app \<times> 'd world \<Rightarrow> app \<times> 'd world" where
  "apply_event L now event s =
     (let a = fst s; status = (\<lambda>t. (a\<lparr>ap_status := t\<rparr>, snd s)) in
      case event of
        AConnected observed_address \<Rightarrow> status (lit ''Connected '' @ [0xB7] @ lit '' seen as '' @ observed_address)
      | APeerOnline _ \<Rightarrow> refresh_contacts L now s
      | APeerOffline _ \<Rightarrow> refresh_contacts L now s
      | AMessageArrived peer from_me \<Rightarrow>
          if ap_selected a = Some peer then reload_history L peer s
          else if \<not> from_me then
            (a\<lparr>ap_unread := (ap_unread a)(peer \<mapsto> (case ap_unread a peer of Some n \<Rightarrow> n | None \<Rightarrow> 0) + 1)\<rparr>, snd s)
          else s
      | AHolePunchDenied peer reason \<Rightarrow> status (lit ''Hole punch denied by '' @ fingerprint L peer @ lit '': '' @ reason)
      | ASessionUp peer direct \<Rightarrow>
          status (lit ''Connected to '' @ fingerprint L peer @ lit '' ('' @ (if direct then lit ''direct P2P'' else lit ''relay'') @ lit '')'')
      | ASessionDown _ \<Rightarrow> s
      | AConnectRetrying peer n delay_secs \<Rightarrow>
          status (lit ''Connecting to '' @ fingerprint L peer @ [0x2026] @ lit '' (attempt '' @ show_nat (unat n) @ lit '', next in ''
            @ show_nat (unat delay_secs) @ lit ''s)'')
      | AConnectGaveUp peer \<Rightarrow> status (lit ''Could not reach '' @ fingerprint L peer @ lit ''; will retry when it comes online'')
      | ADisconnected \<Rightarrow> status (lit ''Disconnected from server'')
      | AError e \<Rightarrow> status (lit ''Error: '' @ e))"

text \<open>The events taken from the receiver are applied in order; the clock is read for each.\<close>

fun apply_events :: "'d crypto_lib \<Rightarrow> (nat \<Rightarrow> i64) \<Rightarrow> nat \<Rightarrow> app_event list \<Rightarrow> app \<times> 'd world \<Rightarrow> app \<times> 'd world" where
  "apply_events L clk i [] s = s"
| "apply_events L clk i (e # es) s = apply_events L clk (i + 1) es (apply_event L (clk i) e s)"

definition drain_events :: "'d crypto_lib \<Rightarrow> (nat \<Rightarrow> i64) \<Rightarrow> app \<times> 'd world \<Rightarrow> app \<times> 'd world" where
  "drain_events L clk s =
     (case ap_rx (fst s) of
        Some events \<Rightarrow> apply_events L clk 0 events ((fst s)\<lparr>ap_rx := Some []\<rparr>, snd s)
      | None \<Rightarrow> s)"

definition select_peer :: "'d crypto_lib \<Rightarrow> bytes \<Rightarrow> app \<times> 'd world \<Rightarrow> app \<times> 'd world" where
  "select_peer L ident s =
     (let a = (fst s)\<lparr>ap_selected := Some ident, ap_unread := (ap_unread (fst s))(ident := None),
                ap_alias_input := (case List.find (\<lambda>c. ct_id c = ident) (ap_contacts (fst s)) of
                  Some c \<Rightarrow> (case ct_alias c of Some n \<Rightarrow> n | None \<Rightarrow> []) | None \<Rightarrow> [])\<rparr>
      in reload_history L ident (a, case ap_client a of Some h \<Rightarrow> connect_peer h ident (snd s) | None \<Rightarrow> snd s))"

definition gui_set_alias ::
  "'d crypto_lib \<Rightarrow> ((bytes \<times> rstr) list \<Rightarrow> (bytes \<times> rstr) list) \<Rightarrow> i64 \<Rightarrow> app \<times> 'd world \<Rightarrow> app \<times> 'd world" where
  "gui_set_alias L iter now s =
     (let a = fst s in
      case (ap_client a, ap_selected a) of
        (Some h, Some peer) \<Rightarrow>
          (case on_wo_disk (set_alias L iter peer (ap_alias_input a)) (snd s) of
             (Inr _, w) \<Rightarrow>
               refresh_contacts L now (a\<lparr>ap_status := lit ''Alias set to '' @ [39] @ trim (ap_alias_input a) @ [39]\<rparr>, w)
           | (Inl e, w) \<Rightarrow> (a\<lparr>ap_status := lit ''Alias failed: '' @ e\<rparr>, w))
      | _ \<Rightarrow> (a\<lparr>ap_status := lit ''Select a peer first''\<rparr>, snd s))"

definition send_draft :: "app \<times> 'd world \<Rightarrow> app \<times> 'd world" where
  "send_draft s =
     (let a = fst s; content = trim (ap_draft a) in
      if content = [] then s
      else case (ap_client a, ap_selected a) of
             (Some h, Some peer) \<Rightarrow> (a\<lparr>ap_draft := []\<rparr>, send_message h peer content (snd s))
           | _ \<Rightarrow> s)"

definition gui_add_peer :: "'d crypto_lib \<Rightarrow> (rstr \<Rightarrow> rstr) \<Rightarrow> i64 \<Rightarrow> app \<times> 'd world \<Rightarrow> app \<times> 'd world" where
  "gui_add_peer L hex_error now s =
     (let a = fst s; status = (\<lambda>t. (a\<lparr>ap_status := t\<rparr>, snd s)) in
      case parse_key_hex L hex_error (ap_add_x25519 a) (lit ''x25519'') of
        Inl e \<Rightarrow> status e
      | Inr x25519 \<Rightarrow>
          (case parse_key_hex L hex_error (ap_add_verifying a) (lit ''verifying'') of
             Inl e \<Rightarrow> status e
           | Inr verifying \<Rightarrow>
               (case ap_client a of
                  None \<Rightarrow> status (lit ''Client not started yet'')
                | Some h \<Rightarrow>
                    (case add_peer L h x25519 verifying (snd s) of
                       (Inr ident, w) \<Rightarrow>
                         refresh_contacts L now (a\<lparr>ap_status := lit ''Added peer '' @ fingerprint L ident,
                           ap_add_x25519 := [], ap_add_verifying := []\<rparr>, w)
                     | (Inl e, w) \<Rightarrow> (a\<lparr>ap_status := lit ''Failed to add peer: '' @ e\<rparr>, w)))))"

definition change_server :: "app \<times> 'd world \<Rightarrow> app \<times> 'd world" where
  "change_server s =
     (let a = fst s; addr = trim (ap_server_field a) in
      if addr = [] then (a\<lparr>ap_status := lit ''Server address must not be empty''\<rparr>, snd s)
      else case ap_client a of
             None \<Rightarrow> (a\<lparr>ap_status := lit ''Client not started yet''\<rparr>, snd s)
           | Some h \<Rightarrow> (a\<lparr>ap_server_field := addr, ap_status := lit ''Reconnecting to '' @ addr @ [0x2026]\<rparr>, set_server h addr (snd s)))"

text \<open>
  \<open>show\<close>: how an error of writing the key file prints. \<open>None\<close>: a panic.
\<close>

definition submit_password ::
  "'d crypto_lib \<Rightarrow> (keyfile_error \<Rightarrow> rstr) \<Rightarrow> ui_env \<Rightarrow> app \<times> 'd world \<Rightarrow> ((app \<times> 'd world) \<times> task) option" where
  "submit_password L show env s =
     (let a = fst s in
      case ap_screen a of
        Main \<Rightarrow> Some (s, TNone)
      | Unlock password server err \<Rightarrow>
          if password = [] then
            Some ((a\<lparr>ap_screen := Unlock password server (Some (lit ''Password must not be empty''))\<rparr>, snd s), TNone)
          else
            (let server' = (if trim server = [] then DEFAULT_SERVER else trim server);
                 (keys_result, w) =
                   (if ap_has_identity a then (unlock L password (wo_disk (snd s)), snd s)
                    else (case on_wo_disk (create_identity L show password (ue_rand env 0) (ue_rand env 1) (ue_rand env 2) (ue_rand env 3)) (snd s) of
                            (r, w') \<Rightarrow> (Some r, w')))
             in case keys_result of
                  None \<Rightarrow> None
                | Some (Inl e) \<Rightarrow> Some ((a\<lparr>ap_screen := Unlock password server (Some e)\<rparr>, w), TNone)
                | Some (Inr ks) \<Rightarrow>
                    (case on_wo_disk (save_server L server') w of
                       (Inl e, w') \<Rightarrow>
                         Some ((a\<lparr>ap_screen := Unlock password server (Some (lit ''Failed to save server address: '' @ io_display L e))\<rparr>, w'), TNone)
                     | (Inr _, w') \<Rightarrow>
                         Some ((a\<lparr>ap_screen := Unlock password server None, ap_server_field := server'\<rparr>, w'), TStart ks server'))))"

definition on_started :: "'d crypto_lib \<Rightarrow> i64 \<Rightarrow> rstr + handle \<times> app_event list option \<Rightarrow> app \<times> 'd world \<Rightarrow> app \<times> 'd world" where
  "on_started L now result s =
     (let a = fst s in
      case result of
        Inr (h, shared_rx) \<Rightarrow>
          (case on_wo_net (contacts L now) (snd s) of
             (cs, w) \<Rightarrow> (a\<lparr>ap_rx := shared_rx, ap_contacts := cs, ap_my_keys := Some (my_keys_hex L h),
               ap_status := lit ''Connecting to server'' @ [0x2026], ap_client := Some h, ap_screen := Main\<rparr>, w))
      | Inl e \<Rightarrow>
          (let message = lit ''Failed to start client: '' @ e in
           case ap_screen a of
             Unlock password server err \<Rightarrow> (a\<lparr>ap_screen := Unlock password server (Some message)\<rparr>, snd s)
           | Main \<Rightarrow> (a\<lparr>ap_status := message\<rparr>, snd s)))"

definition purge_selected :: "app \<times> 'd world \<Rightarrow> app \<times> 'd world" where
  "purge_selected s =
     (case (ap_client (fst s), ap_selected (fst s)) of
        (Some h, Some peer) \<Rightarrow>
          ((fst s)\<lparr>ap_history := [], ap_status := lit ''Conversation purged''\<rparr>, purge_peer h peer (snd s))
      | _ \<Rightarrow> s)"

definition remove_selected :: "'d crypto_lib \<Rightarrow> i64 \<Rightarrow> app \<times> 'd world \<Rightarrow> app \<times> 'd world" where
  "remove_selected L now s =
     (case (ap_client (fst s), ap_selected (fst s)) of
        (Some h, Some peer) \<Rightarrow>
          refresh_contacts L now
            ((fst s)\<lparr>ap_selected := None, ap_history := [], ap_unread := (ap_unread (fst s))(peer := None),
               ap_status := lit ''Removed '' @ fingerprint L peer\<rparr>, remove_peer h peer (snd s))
      | _ \<Rightarrow> s)"

definition close_window :: "window_id \<Rightarrow> app \<times> 'd world \<Rightarrow> (app \<times> 'd world) \<times> task" where
  "close_window wid s =
     (if Some wid = ap_settings_id (fst s) then (((fst s)\<lparr>ap_settings_id := None\<rparr>, snd s), TClose wid)
      else ((fst s, case ap_client (fst s) of Some h \<Rightarrow> shutdown h (snd s) | None \<Rightarrow> snd s), TExitLater))"

section \<open>Update\<close>

definition update ::
  "'d crypto_lib \<Rightarrow> (keyfile_error \<Rightarrow> rstr) \<Rightarrow> (rstr \<Rightarrow> rstr) \<Rightarrow> ((bytes \<times> rstr) list \<Rightarrow> (bytes \<times> rstr) list) \<Rightarrow> ui_env
   \<Rightarrow> message_ui \<Rightarrow> app \<times> 'd world \<Rightarrow> ((app \<times> 'd world) \<times> task) option" where
  "update L show hex_error iter env message s =
     (let a = fst s; w = snd s; just = (\<lambda>a'. Some ((a', w), TNone)); run = (\<lambda>s'. Some (s', TNone)); now = ue_now env 0 in
      case message of
        MPasswordChanged new \<Rightarrow>
          (case ap_screen a of Unlock p sv e \<Rightarrow> just (a\<lparr>ap_screen := Unlock new sv e\<rparr>) | Main \<Rightarrow> Some (s, TNone))
      | MServerChanged new \<Rightarrow>
          (case ap_screen a of Unlock p sv e \<Rightarrow> just (a\<lparr>ap_screen := Unlock p new e\<rparr>) | Main \<Rightarrow> Some (s, TNone))
      | MSubmitPassword \<Rightarrow> submit_password L show env s
      | MStarted result \<Rightarrow> run (on_started L now result s)
      | MTick \<Rightarrow> run (drain_events L (ue_now env) s)
      | MSelectPeer ident \<Rightarrow> (case select_peer L ident s of (a', w') \<Rightarrow> run (a'\<lparr>ap_rail_tab := TabChat\<rparr>, w'))
      | MDraftChanged draft \<Rightarrow> just (a\<lparr>ap_draft := draft\<rparr>)
      | MSendDraft \<Rightarrow> run (send_draft s)
      | MAddPeerX25519Changed v \<Rightarrow> just (a\<lparr>ap_add_x25519 := v\<rparr>)
      | MAddPeerVerifyingChanged v \<Rightarrow> just (a\<lparr>ap_add_verifying := v\<rparr>)
      | MAddPeer \<Rightarrow> run (gui_add_peer L hex_error now s)
      | MServerFieldChanged v \<Rightarrow> just (a\<lparr>ap_server_field := v\<rparr>)
      | MChangeServer \<Rightarrow> run (change_server s)
      | MOpenSettings \<Rightarrow>
          if ap_settings_id a \<noteq> None then Some (s, TNone)
          else Some ((a\<lparr>ap_settings_id := Some (ue_window env)\<rparr>, w), TOpen (ue_window env))
      | MToggleTheme \<Rightarrow> just (a\<lparr>ap_dark := \<not> ap_dark a\<rparr>)
      | MAliasChanged v \<Rightarrow> just (a\<lparr>ap_alias_input := v\<rparr>)
      | MSetAlias \<Rightarrow> run (gui_set_alias L iter now s)
      | MPurgeSelected \<Rightarrow> run (purge_selected s)
      | MRemoveSelected \<Rightarrow> run (remove_selected L now s)
      | MSelectRail tab \<Rightarrow> just (a\<lparr>ap_rail_tab := tab\<rparr>)
      | MWindowClose wid \<Rightarrow> Some (close_window wid s)
      | MDoExit \<Rightarrow> Some (s, TExit)
      | MIgnored \<Rightarrow> Some (s, TNone))"

end
