(* ===== verification/Gui_Logic.thy ===== *)
theory Gui_Logic
  imports Gui_App
begin

text \<open>
  What the graphical interface guarantees: the invariant of its state under any sequence of messages,
  which commands it gives to the core and when, how it counts unread messages, and that an identity
  made with it unlocks after a restart.
\<close>

section \<open>What the operations change\<close>

lemma refresh_contacts_frame:
  obtains cs w' where "refresh_contacts L now (a, w) = (a\<lparr>ap_contacts := cs\<rparr>, w')" and "wo_sent w' = wo_sent w"
proof (cases "ap_client a")
  case None
  then show ?thesis by (intro that [of "ap_contacts a" w]) (simp_all add: refresh_contacts_def)
next
  case (Some h)
  then show ?thesis
    by (intro that [of "fst (on_wo_net (contacts L now) w)" "snd (on_wo_net (contacts L now) w)"])
      (simp_all add: refresh_contacts_def on_wo_sent split: prod.split)
qed

lemma reload_history_frame:
  obtains ls st w' where "reload_history L p (a, w) = (a\<lparr>ap_history := ls, ap_status := st\<rparr>, w')" and "wo_sent w' = wo_sent w"
proof (cases "ap_client a")
  case None
  then show ?thesis by (intro that [of "ap_status a" "ap_history a" w]) (simp_all add: reload_history_def)
next
  case (Some h)
  obtain r w' where r: "on_wo_disk (history L (hd_keys h) p) w = (r, w')" by fastforce
  then have w: "wo_sent w' = wo_sent w" by (rule on_wo_sentD)
  show ?thesis
  proof (cases r)
    case (Inl e)
    then show ?thesis
      using r Some w by (intro that [of "lit ''Failed to load history: '' @ e" "ap_history a" w']) (simp_all add: reload_history_def)
  next
    case (Inr ls)
    then show ?thesis using r Some w by (intro that [of "ap_status a" ls w']) (simp_all add: reload_history_def)
  qed
qed

lemma frame_simps [simp]:
  "ap_selected (fst (refresh_contacts L now s)) = ap_selected (fst s)" "ap_unread (fst (refresh_contacts L now s)) = ap_unread (fst s)"
  "ap_rx (fst (refresh_contacts L now s)) = ap_rx (fst s)"
  "ap_selected (fst (reload_history L p s)) = ap_selected (fst s)" "ap_unread (fst (reload_history L p s)) = ap_unread (fst s)"
  "ap_rx (fst (reload_history L p s)) = ap_rx (fst s)"
  by (simp_all add: refresh_contacts_def reload_history_def split: option.split prod.split sum.split)

section \<open>The invariant\<close>

text \<open>
  The main screen shows exactly when there is a client; the keys shown are the client's; events
  are awaited only with a client; the selected peer has no unread messages.
\<close>

definition app_inv :: "'d crypto_lib \<Rightarrow> app \<Rightarrow> bool" where
  "app_inv L a \<longleftrightarrow> (ap_screen a = Main \<longleftrightarrow> ap_client a \<noteq> None) \<and> ap_my_keys a = map_option (my_keys_hex L) (ap_client a)
     \<and> (ap_rx a \<noteq> None \<longrightarrow> ap_client a \<noteq> None) \<and> (\<forall>p. ap_selected a = Some p \<longrightarrow> ap_unread a p = None)"

lemma app_inv_updates [simp]:
  "app_inv L (a\<lparr>ap_status := t\<rparr>) = app_inv L a" "app_inv L (a\<lparr>ap_contacts := cs\<rparr>) = app_inv L a"
  "app_inv L (a\<lparr>ap_history := ls\<rparr>) = app_inv L a" "app_inv L (a\<lparr>ap_draft := d\<rparr>) = app_inv L a"
  "app_inv L (a\<lparr>ap_alias_input := d\<rparr>) = app_inv L a" "app_inv L (a\<lparr>ap_rail_tab := tb\<rparr>) = app_inv L a"
  "app_inv L (a\<lparr>ap_dark := b\<rparr>) = app_inv L a" "app_inv L (a\<lparr>ap_settings_id := i\<rparr>) = app_inv L a"
  "app_inv L (a\<lparr>ap_server_field := d\<rparr>) = app_inv L a" "app_inv L (a\<lparr>ap_add_x25519 := d\<rparr>) = app_inv L a"
  "app_inv L (a\<lparr>ap_add_verifying := d\<rparr>) = app_inv L a"
  by (simp_all add: app_inv_def)

lemma app_inv_parts:
  "app_inv L a \<Longrightarrow> app_inv L (a\<lparr>ap_selected := None\<rparr>)"
  "app_inv L a \<Longrightarrow> app_inv L (a\<lparr>ap_unread := (ap_unread a)(p := None)\<rparr>)"
  "app_inv L a \<Longrightarrow> app_inv L (a\<lparr>ap_selected := Some p, ap_unread := (ap_unread a)(p := None)\<rparr>)"
  "app_inv L a \<Longrightarrow> ap_selected a \<noteq> Some p \<Longrightarrow> app_inv L (a\<lparr>ap_unread := (ap_unread a)(p \<mapsto> n)\<rparr>)"
  "app_inv L a \<Longrightarrow> ap_screen a = Unlock x y z \<Longrightarrow> app_inv L (a\<lparr>ap_screen := Unlock x' y' z'\<rparr>)"
  "app_inv L a \<Longrightarrow> ap_rx a \<noteq> None \<Longrightarrow> app_inv L (a\<lparr>ap_rx := Some es\<rparr>)"
  by (auto simp: app_inv_def)

lemma refresh_inv: "app_inv L (fst s) \<Longrightarrow> app_inv L (fst (refresh_contacts M now s))"
  by (cases s) (metis refresh_contacts_frame app_inv_updates(2) fst_conv)

lemma reload_inv: "app_inv L (fst s) \<Longrightarrow> app_inv L (fst (reload_history M p s))"
  by (cases s) (metis reload_history_frame app_inv_updates(1,3) fst_conv)

lemma apply_event_inv:
  assumes "app_inv L (fst s)"
  shows "app_inv L (fst (apply_event M now e s))"
proof (cases e)
  case (AMessageArrived p from_me)
  then show ?thesis
    using assms reload_inv [OF assms, of M p] by (auto simp: apply_event_def Let_def intro: app_inv_parts)
qed (use assms refresh_inv [OF assms, of M now] in \<open>simp_all add: apply_event_def Let_def\<close>)

lemma apply_events_inv: "app_inv L (fst s) \<Longrightarrow> app_inv L (fst (apply_events M clk i es s))"
  by (induction es arbitrary: i s) (simp_all add: apply_event_inv)

lemma drain_inv: "app_inv L (fst s) \<Longrightarrow> app_inv L (fst (drain_events M clk s))"
  by (auto simp: drain_events_def intro!: apply_events_inv app_inv_parts split: option.split)

lemma select_inv: "app_inv L (fst s) \<Longrightarrow> app_inv L (fst (select_peer M p s))"
  unfolding select_peer_def Let_def by (intro reload_inv) (simp add: app_inv_parts)

lemma set_alias_inv: "app_inv L (fst s) \<Longrightarrow> app_inv L (fst (gui_set_alias M iter now s))"
  by (auto simp: gui_set_alias_def Let_def intro!: refresh_inv split: option.split prod.split sum.split)

lemma add_peer_inv: "app_inv L (fst s) \<Longrightarrow> app_inv L (fst (gui_add_peer M he now s))"
  by (auto simp: gui_add_peer_def Let_def intro!: refresh_inv split: option.split prod.split sum.split)

lemma remove_selected_inv: "app_inv L (fst s) \<Longrightarrow> app_inv L (fst (remove_selected M now s))"
  by (auto simp: remove_selected_def intro!: refresh_inv split: option.split) (auto simp: app_inv_def)

lemma submit_inv:
  assumes "app_inv L (fst s)" and "submit_password M err env s = Some (s', t)"
  shows "app_inv L (fst s')"
  using assms
  by (auto simp: submit_password_def Let_def intro: app_inv_parts split: screen.splits if_splits prod.splits option.splits sum.splits)

lemma update_inv:
  assumes "app_inv L (fst s)" and u: "update L err he iter env m s = Some (s', t)"
  shows "app_inv L (fst s')"
proof (cases m)
  case MSubmitPassword
  then show ?thesis using u submit_inv [OF assms(1)] by (simp add: update_def)
next
  case (MStarted r)
  then show ?thesis
    using assms by (auto simp: update_def on_started_def Let_def app_inv_def split: sum.splits prod.splits screen.splits)
next
  case (MPasswordChanged x)
  then show ?thesis using assms by (auto simp: update_def Let_def intro: app_inv_parts split: screen.splits)
next
  case (MServerChanged x)
  then show ?thesis using assms by (auto simp: update_def Let_def intro: app_inv_parts split: screen.splits)
next
  case (MSelectPeer p)
  then show ?thesis using u select_inv [OF assms(1), of L p] by (auto simp: update_def Let_def split: prod.splits)
next
  case MSendDraft
  then show ?thesis using assms by (auto simp: update_def send_draft_def Let_def split: option.splits)
next
  case MChangeServer
  then show ?thesis using assms by (auto simp: update_def change_server_def Let_def split: option.splits if_splits)
next
  case MPurgeSelected
  then show ?thesis using assms by (auto simp: update_def purge_selected_def Let_def split: option.splits)
next
  case (MWindowClose i)
  then show ?thesis using assms by (auto simp: update_def close_window_def Let_def split: if_splits)
qed (use assms drain_inv [OF assms(1)] set_alias_inv [OF assms(1)] add_peer_inv [OF assms(1)] remove_selected_inv [OF assms(1)]
     in \<open>auto simp: update_def Let_def split: if_splits\<close>)

text \<open>
  Everything that happens to the interface: a message is handled, the core queues an event, or the
  shared files and channels change in any way.
\<close>

inductive gui_step ::
  "'d crypto_lib \<Rightarrow> (keyfile_error \<Rightarrow> rstr) \<Rightarrow> (rstr \<Rightarrow> rstr) \<Rightarrow> ((bytes \<times> rstr) list \<Rightarrow> (bytes \<times> rstr) list)
   \<Rightarrow> app \<times> 'd world \<Rightarrow> app \<times> 'd world \<Rightarrow> bool"
  for L err he iter where
  handled: "update L err he iter env m s = Some (s', t) \<Longrightarrow> gui_step L err he iter s s'"
| queued: "ap_rx a = Some es \<Longrightarrow> gui_step L err he iter (a, w) (a\<lparr>ap_rx := Some (es @ [e])\<rparr>, w)"
| shared: "gui_step L err he iter (a, w) (a, w')"

definition gui_init :: "'d crypto_lib \<Rightarrow> app \<times> 'd world \<Rightarrow> bool" where
  "gui_init L s \<longleftrightarrow> (\<exists>env wid. fst s = fst (boot L env wid (wo_disk (snd s))))"

interpretation gui: invariant_system "gui_init L" "gui_step L err he iter" "\<lambda>s. app_inv L (fst s)" for L err he iter
proof
  show "app_inv L (fst s)" if "gui_init L s" for s
    using that by (auto simp: gui_init_def boot_def app_inv_def)
  show "app_inv L (fst t)" if "app_inv L (fst s)" "gui_step L err he iter s t" for s t
    using that(2,1) by (cases rule: gui_step.cases) (auto intro: update_inv app_inv_parts)
qed

text \<open>
  C21: The invariant of the interface. Whatever messages arrive in whatever order, and whatever the
  core does meanwhile: the main screen is shown exactly when a client runs, the keys offered for
  sharing are that client's own, events are polled for only while a client runs, and the selected
  conversation never has unread messages.
\<close>

theorem gui_invariant:
  assumes "gui_init L s" and "run_of (gui_step L err he iter) s s'" and "a = fst s'"
  shows "(ap_screen a = Main \<longleftrightarrow> ap_client a \<noteq> None)
    \<and> ap_my_keys a = map_option (\<lambda>h. (hex_encode L (x25519_pub (hd_keys h)), hex_encode L (ed25519_verifying (hd_keys h)))) (ap_client a)
    \<and> (ticking a \<longrightarrow> ap_client a \<noteq> None) \<and> (\<forall>p. ap_selected a = Some p \<longrightarrow> ap_unread a p = None)"
  using gui.inv_reachable [OF assms(1,2)] assms(3) by (simp add: app_inv_def ticking_def my_keys_hex_def [abs_def])

section \<open>Commands\<close>

text \<open>When the interface may give a command to the core: on which message, about which peer.\<close>

fun gui_may :: "app \<Rightarrow> message_ui \<Rightarrow> command \<Rightarrow> bool" where
  "gui_may a m (CSend p t) = (m = MSendDraft \<and> ap_selected a = Some p \<and> t = trim (ap_draft a) \<and> t \<noteq> [])"
| "gui_may a m (CConnect p) = (m = MSelectPeer p)"
| "gui_may a m (CPurge p) = (m = MPurgeSelected \<and> ap_selected a = Some p)"
| "gui_may a m (CRemovePeer p) = (m = MRemoveSelected \<and> ap_selected a = Some p)"
| "gui_may a m CAnnounceNow = (m = MAddPeer)"
| "gui_may a m (CSetServer x) = (m = MChangeServer \<and> x = trim (ap_server_field a) \<and> x \<noteq> [])"
| "gui_may a m CShutdown = (\<exists>i. m = MWindowClose i \<and> ap_settings_id a \<noteq> Some i)"

definition gives :: "app \<Rightarrow> message_ui \<Rightarrow> 'd world \<Rightarrow> 'd world \<Rightarrow> bool" where
  "gives a m w w' \<longleftrightarrow> (wo_sent w' = wo_sent w
     \<or> (\<exists>h c. ap_client a = Some h \<and> gui_may a m c \<and> wo_sent w' = wo_sent w @ [(hd_core h, c)]))"

lemma gives_none: "wo_sent w' = wo_sent w \<Longrightarrow> gives a m w w'"
  by (simp add: gives_def)

lemma gives_one: "ap_client a = Some h \<Longrightarrow> gui_may a m c \<Longrightarrow> wo_sent w' = wo_sent w @ [(hd_core h, c)] \<Longrightarrow> gives a m w w'"
  by (auto simp: gives_def)

lemma refresh_sent: "wo_sent (snd (refresh_contacts L now s)) = wo_sent (snd s)"
  by (cases s) (metis refresh_contacts_frame snd_conv)

lemma reload_sent: "wo_sent (snd (reload_history L p s)) = wo_sent (snd s)"
  by (cases s) (metis reload_history_frame snd_conv)

lemma apply_event_sent: "wo_sent (snd (apply_event L now e s)) = wo_sent (snd s)"
  by (simp add: apply_event_def Let_def refresh_sent reload_sent split: app_event.split)

lemma apply_events_sent: "wo_sent (snd (apply_events L clk i es s)) = wo_sent (snd s)"
  by (induction es arbitrary: i s) (simp_all add: apply_event_sent)

lemma drain_sent: "wo_sent (snd (drain_events L clk s)) = wo_sent (snd s)"
  by (simp add: drain_events_def apply_events_sent split: option.split)

lemma submit_sent:
  assumes "submit_password L err env s = Some (s', t)"
  shows "wo_sent (snd s') = wo_sent (snd s)"
  using assms by (auto simp: submit_password_def Let_def dest!: on_wo_sentD(2) split: screen.splits if_splits prod.splits option.splits sum.splits)

lemma set_alias_sent: "wo_sent (snd (gui_set_alias L iter now s)) = wo_sent (snd s)"
  by (auto simp: gui_set_alias_def Let_def refresh_sent dest!: on_wo_sentD(2) split: option.split prod.split sum.split)

lemma on_started_sent: "wo_sent (snd (on_started L now r s)) = wo_sent (snd s)"
  by (auto simp: on_started_def Let_def dest!: on_wo_sentD(1) split: sum.split prod.split screen.split)

lemma gui_add_gives: "gives (fst s) MAddPeer (snd s) (snd (gui_add_peer L he now s))"
proof -
  have "gives (fst s) MAddPeer (snd s) (snd (case add_peer L h x v (snd s) of
      (Inr i, w) \<Rightarrow> refresh_contacts L now (f i, w) | (Inl e, w) \<Rightarrow> (g e, w)))"
    if "ap_client (fst s) = Some h" for h x v f g
  proof -
    obtain r w where "add_peer L h x v (snd s) = (r, w)" by fastforce
    then show ?thesis
      using add_peer_sent [of L h x v "snd s" r w] that by (cases r) (auto simp: gives_def refresh_sent)
  qed
  then show ?thesis by (auto simp: gui_add_peer_def Let_def gives_none split: sum.split option.split)
qed

lemma update_gives:
  assumes "update L err he iter env m (a, w) = Some ((a', w'), t)"
  shows "gives a m w w'"
proof (cases m)
  case MSubmitPassword
  then show ?thesis using assms submit_sent [of L err env "(a, w)" "(a', w')" t] by (simp add: update_def Let_def gives_none)
next
  case (MStarted r)
  then show ?thesis using assms on_started_sent [of L "ue_now env 0" r "(a, w)"] by (auto simp: update_def Let_def gives_none)
next
  case MTick
  then show ?thesis using assms drain_sent [of L "ue_now env" "(a, w)"] by (auto simp: update_def Let_def gives_none)
next
  case (MSelectPeer p)
  then have "wo_sent w' = wo_sent (case ap_client a of Some h \<Rightarrow> connect_peer h p w | None \<Rightarrow> w)"
    using assms by (auto simp: update_def Let_def select_peer_def reload_sent split: prod.splits dest: arg_cong [of _ _ snd])
      (metis reload_sent snd_conv)+
  then show ?thesis using MSelectPeer by (cases "ap_client a") (auto simp: method_defs gives_none intro!: gives_one)
next
  case MAddPeer
  then show ?thesis using assms gui_add_gives [of "(a, w)" L he "ue_now env 0"] by (auto simp: update_def Let_def)
next
  case MSetAlias
  then show ?thesis using assms set_alias_sent [of L iter "ue_now env 0" "(a, w)"] by (auto simp: update_def Let_def gives_none)
next
  case MSendDraft
  then show ?thesis
    using assms by (auto simp: update_def Let_def send_draft_def method_defs gives_none split: if_splits option.splits intro!: gives_one)
next
  case MChangeServer
  then show ?thesis
    using assms by (auto simp: update_def Let_def change_server_def method_defs gives_none split: if_splits option.splits intro!: gives_one)
next
  case MPurgeSelected
  then show ?thesis
    using assms by (auto simp: update_def Let_def purge_selected_def method_defs gives_none split: option.splits intro!: gives_one)
next
  case MRemoveSelected
  then have "w' = snd (remove_selected L (ue_now env 0) (a, w))" using assms by (simp add: update_def Let_def)
  then have "wo_sent w' = (case (ap_client a, ap_selected a) of (Some h, Some p) \<Rightarrow> wo_sent w @ [(hd_core h, CRemovePeer p)] | _ \<Rightarrow> wo_sent w)"
    by (simp add: remove_selected_def refresh_sent method_defs split: option.split)
  then show ?thesis using MRemoveSelected by (auto simp: gives_none split: option.splits intro!: gives_one)
next
  case (MWindowClose i)
  then show ?thesis
    using assms by (auto simp: update_def Let_def close_window_def method_defs gives_none split: if_splits option.splits intro!: gives_one)
qed (use assms in \<open>auto simp: update_def Let_def gives_none split: if_splits screen.splits\<close>)

text \<open>
  C22: The interface never acts on its own. Handling one message gives the core at most one command,
  and only the one the user asked for: a message is sent on request to the selected peer, with the
  non-blank draft; a purge or a removal is requested for the selected peer; a connection when a peer
  is selected; a new server, an announcement after adding a peer, and the shutdown on
  closing the main window likewise.
\<close>

theorem gui_commands_requested:
  assumes "update L err he iter env m (a, w) = Some ((a', w'), t)"
  shows "wo_sent w' = wo_sent w
    \<or> (\<exists>h c. ap_client a = Some h \<and> gui_may a m c \<and> wo_sent w' = wo_sent w @ [(hd_core h, c)])"
  using update_gives [OF assms] by (simp add: gives_def)

section \<open>Unread messages\<close>

definition incoming :: "bytes \<Rightarrow> app_event list \<Rightarrow> nat" where
  "incoming p es = length (filter (\<lambda>e. e = AMessageArrived p False) es)"

lemma apply_event_unread:
  assumes "ap_selected (fst s) \<noteq> Some p"
  shows "ap_unread (fst (apply_event L now e s)) p =
      (if e = AMessageArrived p False then Some ((case ap_unread (fst s) p of Some n \<Rightarrow> n | None \<Rightarrow> 0) + 1) else ap_unread (fst s) p)"
  using assms by (cases e) (auto simp: apply_event_def Let_def)

lemma apply_event_selected:
  "ap_selected (fst (apply_event L now e s)) = ap_selected (fst s)" "ap_rx (fst (apply_event L now e s)) = ap_rx (fst s)"
  by (cases e; simp add: apply_event_def Let_def)+

lemma apply_events_rx: "ap_rx (fst (apply_events L clk i es s)) = ap_rx (fst s)"
  by (induction es arbitrary: i s) (simp_all add: apply_event_selected)

lemma apply_events_unread:
  assumes "ap_selected (fst s) \<noteq> Some p"
  shows "ap_unread (fst (apply_events L clk i es s)) p =
    (if incoming p es = 0 then ap_unread (fst s) p
     else Some ((case ap_unread (fst s) p of Some n \<Rightarrow> n | None \<Rightarrow> 0) + of_nat (incoming p es)))"
  using assms
proof (induction es arbitrary: i s)
  case (Cons e es)
  note step = apply_event_unread [OF Cons.prems, of L "clk i" e]
  from Cons.IH [of "apply_event L (clk i) e s" "i + 1"] show ?case
    using Cons.prems step by (auto simp: incoming_def apply_event_selected add.assoc split: option.split)
qed (simp add: incoming_def)

text \<open>
  The unread counter counts. When a tick takes the waiting events from the core, the counter of
  every conversation that is not selected grows by the number of messages that came in from
  that peer, whatever other events lie between them; messages of ours and other peers' do not
  change it; and selecting the peer takes the counter away.
\<close>

theorem unread_counts_incoming:
  assumes "ap_rx a = Some es" and "ap_selected a \<noteq> Some p"
    and "update L err he iter env MTick (a, w) = Some ((a', w'), t)"
    and "update L err he iter env' (MSelectPeer p) (a', w') = Some ((a'', w''), t')"
  shows "ap_unread a' p = (if incoming p es = 0 then ap_unread a p
      else Some ((case ap_unread a p of Some n \<Rightarrow> n | None \<Rightarrow> 0) + of_nat (incoming p es)))
    \<and> ap_rx a' = Some [] \<and> ap_unread a'' p = None \<and> ap_selected a'' = Some p"
proof -
  have e: "(a', w') = apply_events L (ue_now env) 0 es (a\<lparr>ap_rx := Some []\<rparr>, w)"
    using assms(1,3) by (simp add: update_def Let_def drain_events_def)
  have "a' = fst (apply_events L (ue_now env) 0 es (a\<lparr>ap_rx := Some []\<rparr>, w))" using arg_cong [OF e, of fst] by simp
  moreover have "fst (select_peer L p (a', w'))\<lparr>ap_rail_tab := TabChat\<rparr> = a''"
    using assms(4) by (auto simp: update_def Let_def split: prod.splits)
  then have "ap_unread a'' p = None \<and> ap_selected a'' = Some p"
    by (auto simp: select_peer_def Let_def)
  ultimately show ?thesis
    using apply_events_unread [of "(a\<lparr>ap_rx := Some []\<rparr>, w)" p L "ue_now env" 0 es] assms(2) by (simp add: apply_events_rx)
qed

section \<open>Removing a peer\<close>

text \<open>
  A removed peer stays on the list. Removing the selected peer only queues the command; the
  contacts are read again before the core has carried it out, so the peer that was reported as
  removed is still among the contacts shown.
\<close>

theorem removed_peer_still_listed:
  assumes "ap_client a = Some h" and "ap_selected a = Some p" and "p \<in> ct_id ` set (fst (contacts L (ue_now env 0) (wo_net w)))"
    and "update L err he iter env MRemoveSelected (a, w) = Some ((a', w'), t)"
  shows "wo_sent w' = wo_sent w @ [(hd_core h, CRemovePeer p)] \<and> ap_status a' = lit ''Removed '' @ fingerprint L p
    \<and> ap_selected a' = None \<and> p \<in> ct_id ` set (ap_contacts a')"
proof -
  obtain cs n where c: "contacts L (ue_now env 0) (wo_net w) = (cs, n)" by fastforce
  then show ?thesis
    using assms by (auto simp: update_def Let_def remove_selected_def refresh_contacts_def method_defs on_wo_net_def)
qed

section \<open>Coming back\<close>

lemma save_server_keeps:
  assumes "save_server L addr d = (Inr u, d')" and "q \<noteq> server_config_path L" and "\<not> prefix q (sechat_dir L)"
  shows "node_at d' q = node_at d q" and "fault d' = fault d"
proof -
  from assms(1) obtain d1 where m: "fs_create_dir_all (sechat_dir L) d = (Inr (), d1)"
    and w: "fs_write (server_config_path L) (as_bytes (trim addr)) d1 = (Inr (), d')"
    by (auto simp: save_server_def op_bind_ok)
  show "node_at d' q = node_at d q" using assms(2,3) create_dir_all_ok(1) [OF m, of q] by (simp add: fs_write_ok(1) [OF w])
  show "fault d' = fault d" using create_dir_all_ok(2) [OF m] by (simp add: fs_write_ok(1) [OF w])
qed

lemma identity_paths:
  "identity_key_path L \<noteq> server_config_path L" "\<not> prefix (identity_key_path L) (sechat_dir L)"
  "identity_pub_path L \<noteq> server_config_path L" "\<not> prefix (identity_pub_path L) (sechat_dir L)"
  using prefix_length_le [of "identity_key_path L" "sechat_dir L"] prefix_length_le [of "identity_pub_path L" "sechat_dir L"]
  by (auto simp: identity_key_path_def identity_pub_path_def server_config_path_def lit_def)

lemma save_server_unlock:
  assumes "save_server L addr d = (Inr u, d')"
  shows "unlock L pw d' = unlock L pw d" and "identity_exists L d' = identity_exists L d"
proof -
  note k = save_server_keeps [OF assms]
  have "fst (read_keyfile L d') = fst (read_keyfile L d)"
    using k(1) [OF identity_paths(1,2)] k(1) [OF identity_paths(3,4)] k(2) [OF identity_paths(1,2)] by (intro read_keyfile_cong) simp_all
  then show "unlock L pw d' = unlock L pw d" by (simp add: unlock_def)
  show "identity_exists L d' = identity_exists L d"
    using k(1) [OF identity_paths(1,2)] by (simp add: identity_exists_def exists_def)
qed

lemma save_server_again:
  assumes "save_server L addr d = (Inr u, d')" and "\<forall>k p. fault d k p = None"
  shows "fst (save_server L addr' d') = Inr ()"
proof -
  let ?p = "server_config_path L"
  from assms(1) obtain d1 where m: "fs_create_dir_all (sechat_dir L) d = (Inr (), d1)"
    and w: "fs_write ?p (as_bytes (trim addr)) d1 = (Inr (), d')"
    by (auto simp: save_server_def op_bind_ok)
  note d' = fs_write_ok(1) [OF w]
  have np: "\<not> prefix ?p (sechat_dir L)" "?p \<noteq> []" "butlast ?p = sechat_dir L"
    using prefix_length_le [of ?p "sechat_dir L"] by (auto simp: server_config_path_def)
  have f: "fault d' k p = None" for k p using assms(2) create_dir_all_ok(2) [OF m] by (simp add: d')
  have dirs: "is_dir d' q" if "prefix q (sechat_dir L)" for q
    using create_dir_all_ok(3) [OF m that] np(1) that by (auto simp: d' is_dir_def)
  then have "fst (fs_create_dir_all (sechat_dir L) d') = Inr ()"
    using f by (auto simp: fs_create_dir_all_def list_all_iff ancestors_iff)
  then obtain d2 where d2: "fs_create_dir_all (sechat_dir L) d' = (Inr (), d2)" by (metis prod.collapse)
  have "\<not> is_dir d2 ?p" using create_dir_all_ok(1) [OF d2, of ?p] np by (simp add: is_dir_def d')
  then show ?thesis
    using d2 f create_dir_all_ok(2,3) [OF d2] np(3) by (simp add: save_server_def fs_write_total)
qed

text \<open>
  A disk that can take an identity and a server address: it never fails, the directories are there or
  can be made, and none stands where a file is to be written.
\<close>

definition home_files :: "'d crypto_lib \<Rightarrow> path set" where
  "home_files L = {identity_key_path L, identity_pub_path L, server_config_path L}"

definition home_ok :: "'d crypto_lib \<Rightarrow> 'd disk \<Rightarrow> bool" where
  "home_ok L d \<longleftrightarrow> (\<forall>k p. fault d k p = None) \<and> (\<forall>q. prefix q (peers_dir L) \<longrightarrow> is_dir d q \<or> \<not> exists d q)
     \<and> (\<forall>f \<in> home_files L. \<not> is_dir d f)"

lemma home_files_in:
  assumes "f \<in> home_files L"
  shows "f \<noteq> []" and "butlast f = sechat_dir L" and "\<not> prefix f (peers_dir L)" and "\<not> prefix f (sechat_dir L)"
  using assms prefix_length_le [of f "sechat_dir L"]
  by (auto simp: home_files_def peers_dir_def identity_key_path_def identity_pub_path_def server_config_path_def lit_def)

lemma home_mkdir:
  assumes "home_ok L d" and "p = sechat_dir L \<or> p = peers_dir L"
  obtains d' where "fs_create_dir_all p d = (Inr (), d')" and "home_ok L d'" and "is_dir d' (sechat_dir L)"
proof -
  have under: "prefix q (peers_dir L)" if "prefix q p" for q
    using assms(2) that by (auto simp: peers_dir_def)
  then have "fst (fs_create_dir_all p d) = Inr ()"
    using assms(1) by (auto simp: home_ok_def fs_create_dir_all_def list_all_iff ancestors_iff)
  then obtain d' where d': "fs_create_dir_all p d = (Inr (), d')" by (metis prod.collapse)
  note n = create_dir_all_ok [OF d']
  have "is_dir d' q \<or> \<not> exists d' q" if "prefix q (peers_dir L)" for q
    using assms(1) that by (auto simp: home_ok_def is_dir_def exists_def n(1) split: option.splits node.splits)
  moreover have "\<not> is_dir d' f" if "f \<in> home_files L" for f
    using assms(1) that home_files_in [OF that] under [of f] by (auto simp: home_ok_def is_dir_def n(1))
  ultimately have "home_ok L d'" using assms(1) n(2) by (simp add: home_ok_def)
  moreover have "is_dir d' (sechat_dir L)" using assms(2) by (intro n(3)) (auto simp: peers_dir_def)
  ultimately show ?thesis by (rule that [OF d'])
qed

lemma home_write:
  assumes "home_ok L d" and "is_dir d (sechat_dir L)" and "f \<in> home_files L"
  obtains d' where "fs_write f b d = (Inr (), d')" and "home_ok L d'" and "is_dir d' (sechat_dir L)"
proof -
  note f = home_files_in [OF assms(3)]
  let ?d = "put_node f (FileNode b) (put_node f (FileNode []) d)"
  have same: "node_at ?d q = node_at d q" if "q \<noteq> f" for q using that by simp
  have "fs_write f b d = (Inr (), ?d)"
    using assms f by (intro fs_write_total) (simp_all add: home_ok_def)
  moreover have "is_dir ?d q \<or> \<not> exists ?d q" if "prefix q (peers_dir L)" for q
    using assms(1) that same [of q] f(3) by (cases "q = f") (auto simp: home_ok_def is_dir_def exists_def)
  then have "home_ok L ?d"
    using assms(1) f(1) by (auto simp: home_ok_def is_dir_def)
  moreover have "is_dir ?d (sechat_dir L)" using assms(2) same [of "sechat_dir L"] f(4) by (auto simp: is_dir_def)
  ultimately show ?thesis by (rule that)
qed

lemma home_save:
  assumes "home_ok L d"
  obtains d' where "save_server L addr d = (Inr (), d')" and "home_ok L d'"
proof -
  obtain d1 where 1: "fs_create_dir_all (sechat_dir L) d = (Inr (), d1)" "home_ok L d1" "is_dir d1 (sechat_dir L)"
    using home_mkdir [OF assms] by blast
  obtain d2 where "fs_write (server_config_path L) (as_bytes (trim addr)) d1 = (Inr (), d2)" "home_ok L d2"
    by (rule home_write [OF 1(2,3), of "server_config_path L"]) (simp_all add: home_files_def)
  with 1(1) show ?thesis by (intro that [of d2]) (simp_all add: save_server_def op_bind_def)
qed

lemma home_create:
  assumes "home_ok L d" and "argon2_ok L" and "aead_ok L" and "argon2_hash L (as_bytes pw) salt 32 \<noteq> None"
    and "length secret = 32" and "length signing = 32" and "length nonce = 12"
  obtains ks d' where "create_identity L err pw secret signing salt nonce d = (Inr ks, d')" and "home_ok L d'"
proof -
  obtain k where k: "argon2_hash L (as_bytes pw) salt 32 = Some k" "length k = 32"
    using assms(2,4) by (auto simp: argon2_ok_def)
  obtain c where c: "aead_encrypt L k nonce (secret @ signing) = Some c"
  proof -
    have "length (secret @ signing) \<le> 274877906880" using assms(5,6) by simp
    with assms(3,7) k(2) that show thesis unfolding aead_ok_def by metis
  qed
  obtain d1 where 1: "fs_create_dir_all (sechat_dir L) d = (Inr (), d1)" "home_ok L d1"
    using home_mkdir [OF assms(1)] by blast
  obtain d2 where 2: "fs_create_dir_all (peers_dir L) d1 = (Inr (), d2)" "home_ok L d2" "is_dir d2 (sechat_dir L)"
    using home_mkdir [OF 1(2)] by blast
  obtain d3 where 3: "fs_write (identity_key_path L) (salt @ nonce @ c) d2 = (Inr (), d3)" "home_ok L d3" "is_dir d3 (sechat_dir L)"
    by (rule home_write [OF 2(2,3), of "identity_key_path L"]) (simp_all add: home_files_def)
  obtain d4 where 4: "fs_write (identity_pub_path L) (x25519_public L secret @ ed_public L signing) d3 = (Inr (), d4)" "home_ok L d4"
    by (rule home_write [OF 3(2,3), of "identity_pub_path L"]) (simp_all add: home_files_def)
  show ?thesis
    using k(1) c 1(1) 2(1) 3(1) 4 that
    by (simp add: create_identity_def generate_x25519_def encrypt_keyfile_def op_bind_def op_map_err_def op_lift_def op_ret_def)
qed

lemma rust_str_default: "rust_str DEFAULT_SERVER" "trim DEFAULT_SERVER = DEFAULT_SERVER" "DEFAULT_SERVER \<noteq> []"
  by (simp_all add: DEFAULT_SERVER_def lit_def rust_str_def scalar_def trim_def is_white_def)

text \<open>A successful submission without an identity: it is created, then the server address is saved.\<close>

lemma submit_creates:
  assumes "aead_ok L" and "argon2_ok L" and "ed_ok L" and "dh_ok L"
    and "length (ue_rand e 0) = 32" and "length (ue_rand e 1) = 32" and "length (ue_rand e 2) = 32" and "length (ue_rand e 3) = 12"
    and "\<forall>k p. fault (wo_disk w) k p = None" and "ap_has_identity a = False" and "ap_screen a = Unlock password sv er"
    and "submit_password L err e (a, w) = Some ((a', w'), TStart ks server)"
  obtains d where "save_server L server d = (Inr (), wo_disk w')" and "fault d = fault (wo_disk w)" and "identity_exists L d"
    and "unlock L password d = Some (Inr ks)" and "server = (if trim sv = [] then DEFAULT_SERVER else trim sv)" and "password \<noteq> []"
    and "a' = a\<lparr>ap_screen := Unlock password sv None, ap_server_field := server\<rparr>" and "x25519_priv ks = ue_rand e 0"
proof -
  have pw: "password \<noteq> []" using assms(11,12) by (auto simp: submit_password_def Let_def)
  obtain d where c: "create_identity L err password (ue_rand e 0) (ue_rand e 1) (ue_rand e 2) (ue_rand e 3) (wo_disk w) = (Inr ks, d)"
    and s: "save_server L server d = (Inr (), wo_disk w')" and server: "server = (if trim sv = [] then DEFAULT_SERVER else trim sv)"
    and a': "a' = a\<lparr>ap_screen := Unlock password sv None, ap_server_field := server\<rparr>"
    using assms(10-12) pw unfolding submit_password_def Let_def
    by (auto simp: on_wo_disk_def on_wo_net_def on_disk_def wo_disk_def split: prod.splits sum.splits)
  have u: "identity_exists L d \<and> unlock L password d = Some (Inr ks)"
    using assms(9) by (intro unlock_after_create [OF assms(1-8) _ _ c]) (simp_all add: readable_def)
  have "fault d = fault (wo_disk w)" "x25519_priv ks = ue_rand e 0"
    using c encrypt_keyfile_ok by (auto simp: create_identity_def generate_x25519_def op_bind_ok op_map_err_ok)
  then show ?thesis using s u server pw a' by (intro that [of d]) simp_all
qed

text \<open>
  C23: A user who created an identity can come back. When the first launch created an identity with
  a password and started a client, the next launch finds the identity, offers the same server,
  and with the same password starts a client with the very same keys on that server.
\<close>

theorem gui_relogin:
  assumes "aead_ok L" and "argon2_ok L" and "ed_ok L" and "dh_ok L" and "rust_str sv"
    and "length (ue_rand e 0) = 32" and "length (ue_rand e 1) = 32" and "length (ue_rand e 2) = 32" and "length (ue_rand e 3) = 12"
    and "\<forall>k p. fault (wo_disk w) k p = None" and "\<not> identity_exists L (wo_disk w)"
    and a: "a = (fst (boot L env wid (wo_disk w)))\<lparr>ap_screen := Unlock password sv None\<rparr>"
    and first: "submit_password L err e (a, w) = Some ((a', w'), TStart ks server)"
    and b: "b = fst (boot L None wid' (wo_disk w'))"
  shows "ap_has_identity b \<and> ap_screen b = Unlock [] server None
    \<and> (\<exists>s. submit_password L err e' (b\<lparr>ap_screen := Unlock password server None\<rparr>, w') = Some (s, TStart ks server))"
proof -
  have ap: "ap_has_identity a = False" "ap_screen a = Unlock password sv None"
    using assms(11) by (simp_all add: a boot_def)
  obtain d1 where d1: "save_server L server d1 = (Inr (), wo_disk w')" "fault d1 = fault (wo_disk w)" "identity_exists L d1"
    "unlock L password d1 = Some (Inr ks)" "server = (if trim sv = [] then DEFAULT_SERVER else trim sv)" "password \<noteq> []"
    using submit_creates [OF assms(1-4,6-10) ap first] by metis
  have sv: "rust_str server" "trim server = server" "server \<noteq> []"
    using assms(5) rust_str_default by (auto simp: d1(5) rust_str_trim)
  have "readable d1 (server_config_path L)" using assms(10) d1(2) by (simp add: readable_def)
  then have "resolve_server L None (wo_disk w') = Some server"
    using server_address_roundtrip [OF sv(1) _ _ d1(1), of None] sv by simp
  then have b': "ap_has_identity b" "ap_screen b = Unlock [] server None"
    using d1(3) save_server_unlock(2) [OF d1(1)] by (simp_all add: b boot_def)
  have "fst (save_server L server (wo_disk w')) = Inr ()" using save_server_again [OF d1(1)] d1(2) assms(10) by simp
  then obtain d3 where d3: "save_server L server (wo_disk w') = (Inr (), d3)" by (metis prod.collapse)
  have "unlock L password (wo_disk w') = Some (Inr ks)" using d1(4) save_server_unlock(1) [OF d1(1)] by simp
  then have "\<exists>s. submit_password L err e' (b\<lparr>ap_screen := Unlock password server None\<rparr>, w') = Some (s, TStart ks server)"
    using b'(1) d1(6) sv on_wo_disk_eq [of "save_server L server" w', OF d3] by (simp add: submit_password_def Let_def)
  with b' show ?thesis by blast
qed

text \<open>
  C34: Submitting the password twice at the first launch replaces the identity. The interface keeps in mind
  that there was no identity when it was started, and stays on the unlock screen until the client
  is up; a second submission in between creates other keys and writes them over the first, so that the
  first client runs with an identity that can never be unlocked again.
\<close>

theorem identity_replaced:
  assumes "aead_ok L" and "argon2_ok L" and "ed_ok L" and "dh_ok L"
    and "length (ue_rand e 0) = 32" and "length (ue_rand e 1) = 32" and "length (ue_rand e 2) = 32" and "length (ue_rand e 3) = 12"
    and "length (ue_rand e' 0) = 32" and "length (ue_rand e' 1) = 32" and "length (ue_rand e' 2) = 32" and "length (ue_rand e' 3) = 12"
    and "\<forall>k p. fault (wo_disk w) k p = None" and "ap_has_identity a = False" and "ap_screen a = Unlock password sv er"
    and first: "submit_password L err e (a, w) = Some ((a', w'), TStart ks server)"
    and second: "submit_password L err e' (a', w') = Some ((a'', w''), TStart ks' server')"
    and "ue_rand e' 0 \<noteq> ue_rand e 0"
  shows "unlock L password (wo_disk w') = Some (Inr ks) \<and> unlock L password (wo_disk w'') = Some (Inr ks') \<and> ks' \<noteq> ks"
proof -
  obtain d1 where d1: "save_server L server d1 = (Inr (), wo_disk w')" "fault d1 = fault (wo_disk w)" "unlock L password d1 = Some (Inr ks)"
    "x25519_priv ks = ue_rand e 0" "a' = a\<lparr>ap_screen := Unlock password sv None, ap_server_field := server\<rparr>"
    using submit_creates [OF assms(1-8,13-16)] by metis
  have "fault (wo_disk w') = fault d1" using save_server_keeps(2) [OF d1(1) identity_paths(1,2)] .
  then have "\<forall>k p. fault (wo_disk w') k p = None" using assms(13) d1(2) by simp
  moreover have "ap_has_identity a' = False" "ap_screen a' = Unlock password sv None" using assms(14) d1(5) by simp_all
  ultimately obtain d2 where d2: "save_server L server' d2 = (Inr (), wo_disk w'')" "unlock L password d2 = Some (Inr ks')" "x25519_priv ks' = ue_rand e' 0"
    using submit_creates [OF assms(1-4,9-12) _ _ _ second] by metis
  show ?thesis using d1 d2 save_server_unlock(1) assms(18) by metis
qed

section \<open>A concrete interface\<close>

definition demo_ui_env :: ui_env where
  "demo_ui_env = \<lparr>ue_now = (\<lambda>_. 100), ue_rand = (\<lambda>i. if i = 3 then replicate 12 4 else key_of (i + 1)), ue_window = 1\<rparr>"

definition demo_app :: app where
  "demo_app = (fst (boot demo_lib None 0 (wo_disk demo_world)))\<lparr>ap_screen := Main, ap_client := Some (demo_handle 2),
     ap_my_keys := Some (my_keys_hex demo_lib (demo_handle 2)), ap_selected := Some (key_of 1), ap_draft := lit '' Hi '',
     ap_rx := Some [AMessageArrived (key_of 3) False, AMessageArrived (key_of 3) True, AMessageArrived (key_of 4) False, AMessageArrived (key_of 3) False]\<rparr>"

abbreviation demo_update :: "message_ui \<Rightarrow> app \<times> demo_db world \<Rightarrow> ((app \<times> demo_db world) \<times> task) option" where
  "demo_update \<equiv> update demo_lib (\<lambda>_. []) (\<lambda>_. []) rev demo_ui_env"

lemma demo_app_simps [simp]:
  "ap_client demo_app = Some (demo_handle 2)" "ap_selected demo_app = Some (key_of 1)" "ap_draft demo_app = lit '' Hi ''"
  "ap_rx demo_app = Some [AMessageArrived (key_of 3) False, AMessageArrived (key_of 3) True, AMessageArrived (key_of 4) False, AMessageArrived (key_of 3) False]"
  "ap_unread demo_app = Map.empty" "wo_sent demo_world = []" "hd_core (demo_handle 2) = 0"
  by (simp_all add: demo_app_def boot_def demo_world_def demo_handle_def)

theorem gui_invariant_witness:
  "\<exists>s'. run_of (gui_step demo_lib (\<lambda>_. []) (\<lambda>_. []) rev) (fst (boot demo_lib None 0 (wo_disk demo_world)), demo_world) s'
     \<and> ap_client (fst s') = Some (demo_handle 2) \<and> ap_screen (fst s') = Main"
proof -
  let ?s = "(fst (boot demo_lib None 0 (wo_disk demo_world)), demo_world)"
  obtain s' t where u: "demo_update (MStarted (Inr (demo_handle 2, Some []))) ?s = Some (s', t)" "ap_client (fst s') = Some (demo_handle 2)"
    by (simp add: update_def Let_def on_started_def split: prod.split)
  have i: "gui_init demo_lib ?s" by (auto simp: gui_init_def)
  have r: "run_of (gui_step demo_lib (\<lambda>_. []) (\<lambda>_. []) rev) ?s s'"
    using handled [OF u(1)] by (blast intro: run_step run_refl)
  show ?thesis using gui_invariant [OF i r refl] u(2) r by (intro exI [of _ s']) auto
qed

theorem gui_commands_requested_witness:
  "\<exists>a' w' t c. demo_update MSendDraft (demo_app, demo_world) = Some ((a', w'), t) \<and> wo_sent w' = [(0, c)] \<and> gui_may demo_app MSendDraft c"
proof -
  have tr: "trim (lit '' Hi '') = lit ''Hi''" "lit ''Hi'' \<noteq> []" by (simp_all add: trim_def lit_def is_white_def)
  obtain a' w' t where u: "demo_update MSendDraft (demo_app, demo_world) = Some ((a', w'), t)" "wo_sent w' \<noteq> []"
    by (simp add: update_def Let_def send_draft_def tr method_defs)
  show ?thesis using gui_commands_requested [OF u(1)] u by auto
qed

theorem unread_counts_incoming_witness:
  "\<exists>a' w' t a'' w'' t'. demo_update MTick (demo_app, demo_world) = Some ((a', w'), t) \<and> ap_unread a' (key_of 3) = Some 2
     \<and> demo_update (MSelectPeer (key_of 3)) (a', w') = Some ((a'', w''), t') \<and> ap_unread a'' (key_of 3) = None"
proof -
  obtain a' w' t where u: "demo_update MTick (demo_app, demo_world) = Some ((a', w'), t)"
    by (simp add: update_def Let_def) (metis surj_pair)
  obtain a'' w'' t' where v: "demo_update (MSelectPeer (key_of 3)) (a', w') = Some ((a'', w''), t')"
    by (simp add: update_def Let_def case_prod_unfold)
  have ne: "key_of 1 \<noteq> key_of 3" "key_of 4 \<noteq> key_of 3" by code_simp+
  then have "ap_selected demo_app \<noteq> Some (key_of 3)" by simp
  moreover have "incoming (key_of 3) [AMessageArrived (key_of 3) False, AMessageArrived (key_of 3) True, AMessageArrived (key_of 4) False, AMessageArrived (key_of 3) False] = 2"
    using ne by (simp add: incoming_def)
  ultimately show ?thesis
    using unread_counts_incoming [OF _ _ u v] u v by auto
qed

theorem removed_peer_still_listed_witness:
  "\<exists>a' w' t. demo_update MRemoveSelected (demo_app, demo_world) = Some ((a', w'), t) \<and> key_of 1 \<in> ct_id ` set (ap_contacts a')"
proof -
  obtain a' w' t where u: "demo_update MRemoveSelected (demo_app, demo_world) = Some ((a', w'), t)"
    by (simp add: update_def Let_def) (metis surj_pair)
  have "fst (load_peers demo_lib (net_disk (wo_net demo_world))) = Inr [\<lparr>pk_public = key_of 1, pk_verifying = key_of 2\<rparr>]" by code_simp
  then have "key_of 1 \<in> ct_id ` set (fst (contacts demo_lib (ue_now demo_ui_env 0) (wo_net demo_world)))"
    by (simp add: contacts_def Let_def demo_hash split: prod.split)
  then show ?thesis using removed_peer_still_listed [OF _ _ _ u] u by auto
qed

text \<open>The first login on an empty disk, with the password \<^verbatim>\<open>pw\<close>.\<close>

definition demo_fresh :: "demo_db world" where
  "demo_fresh = demo_world\<lparr>wo_net := demo_inbox\<lparr>net_disk := demo_disk []\<rparr>\<rparr>"

definition demo_login :: app where
  "demo_login = (fst (boot demo_lib None 0 (wo_disk demo_fresh)))\<lparr>ap_screen := Unlock (lit ''pw'') [] None\<rparr>"

lemma demo_fresh_state:
  "wo_disk demo_fresh = demo_disk []" "\<not> identity_exists demo_lib (wo_disk demo_fresh)" "ap_has_identity demo_login = False"
  "ap_screen demo_login = Unlock (lit ''pw'') [] None" "wo_sent demo_fresh = []"
proof -
  show d: "wo_disk demo_fresh = demo_disk []" by (simp add: demo_fresh_def wo_disk_def)
  show "\<not> identity_exists demo_lib (wo_disk demo_fresh)" unfolding d by code_simp
  then show "ap_has_identity demo_login = False" by (simp add: demo_login_def boot_def)
qed (simp_all add: demo_login_def demo_fresh_def)

lemma submit_succeeds:
  assumes "ap_has_identity a = False" and "ap_screen a = Unlock password sv er" and "password \<noteq> []" and "server = (if trim sv = [] then DEFAULT_SERVER else trim sv)"
    and c: "create_identity L err password (ue_rand e 0) (ue_rand e 1) (ue_rand e 2) (ue_rand e 3) d0 = (Inr ks, d1)"
    and w: "wo_disk w = d0" and s: "save_server L server d1 = (Inr (), d2)"
  shows "submit_password L err e (a, w) = Some ((a\<lparr>ap_screen := Unlock password sv None, ap_server_field := server\<rparr>,
      w\<lparr>wo_net := (wo_net w)\<lparr>net_disk := d2\<rparr>\<rparr>), TStart ks server)"
proof -
  let ?w1 = "w\<lparr>wo_net := (wo_net w)\<lparr>net_disk := d1\<rparr>\<rparr>"
  have "on_wo_disk (save_server L server) ?w1 = (Inr (), ?w1\<lparr>wo_net := (wo_net ?w1)\<lparr>net_disk := d2\<rparr>\<rparr>)"
    by (rule on_wo_disk_eq) (simp add: wo_disk_def s)
  then show ?thesis using assms(1-4) on_wo_disk_eq [where w = w, of "create_identity L err password (ue_rand e 0) (ue_rand e 1) (ue_rand e 2) (ue_rand e 3)", unfolded w, OF c] by (simp add: submit_password_def Let_def)
qed

definition demo_other_env :: ui_env where
  "demo_other_env = demo_ui_env\<lparr>ue_rand := (\<lambda>i. if i = 3 then replicate 12 4 else key_of (i + 8))\<rparr>"

lemma demo_rand:
  "e = demo_ui_env \<or> e = demo_other_env \<Longrightarrow> length (ue_rand e 0) = 32" "e = demo_ui_env \<or> e = demo_other_env \<Longrightarrow> length (ue_rand e 1) = 32"
  "e = demo_ui_env \<or> e = demo_other_env \<Longrightarrow> length (ue_rand e 2) = 32" "e = demo_ui_env \<or> e = demo_other_env \<Longrightarrow> length (ue_rand e 3) = 12"
  by (auto simp: demo_ui_env_def demo_other_env_def)

lemma demo_submit:
  assumes "home_ok demo_lib (wo_disk w)" and "ap_has_identity a = False" and "ap_screen a = Unlock (lit ''pw'') [] None"
    and "e = demo_ui_env \<or> e = demo_other_env"
  obtains ks w' where "submit_password demo_lib (\<lambda>_. []) e (a, w) = Some ((a\<lparr>ap_screen := Unlock (lit ''pw'') [] None, ap_server_field := DEFAULT_SERVER\<rparr>, w'), TStart ks DEFAULT_SERVER)"
    and "home_ok demo_lib (wo_disk w')" and "wo_sent w' = wo_sent w"
proof -
  have h: "argon2_hash demo_lib (as_bytes (lit ''pw'')) (ue_rand e 2) 32 \<noteq> None" by (simp add: demo_lib_def)
  obtain ks d1 where c: "create_identity demo_lib (\<lambda>_. []) (lit ''pw'') (ue_rand e 0) (ue_rand e 1) (ue_rand e 2) (ue_rand e 3) (wo_disk w) = (Inr ks, d1)"
    "home_ok demo_lib d1"
    by (rule home_create [OF assms(1) demo_argon2 demo_aead h demo_rand(1,2,4) [OF assms(4)]])
  obtain d2 where s: "save_server demo_lib DEFAULT_SERVER d1 = (Inr (), d2)" "home_ok demo_lib d2" using c(2) by (rule home_save)
  have d: "lit ''pw'' \<noteq> []" "DEFAULT_SERVER = (if trim [] = [] then DEFAULT_SERVER else trim [])" by (simp_all add: lit_def trim_def)
  show ?thesis
    by (rule that [OF submit_succeeds [OF assms(2,3) d c(1) refl s(1)]]) (simp_all add: wo_disk_def s(2))
qed

lemma demo_submits:
  obtains ks a' w' ks' a'' w'' where
    "submit_password demo_lib (\<lambda>_. []) demo_ui_env (demo_login, demo_fresh) = Some ((a', w'), TStart ks DEFAULT_SERVER)" and "wo_sent w' = []"
    and "submit_password demo_lib (\<lambda>_. []) demo_other_env (a', w') = Some ((a'', w''), TStart ks' DEFAULT_SERVER)"
proof -
  have h: "home_ok demo_lib (wo_disk demo_fresh)"
    using home_files_in(1) [of _ demo_lib] by (auto simp: home_ok_def demo_fresh_state(1) is_dir_def exists_def demo_disk_def node_at_def)
  obtain ks w' where 1: "submit_password demo_lib (\<lambda>_. []) demo_ui_env (demo_login, demo_fresh)
      = Some ((demo_login\<lparr>ap_screen := Unlock (lit ''pw'') [] None, ap_server_field := DEFAULT_SERVER\<rparr>, w'), TStart ks DEFAULT_SERVER)"
    "home_ok demo_lib (wo_disk w')" "wo_sent w' = wo_sent demo_fresh"
    by (rule demo_submit [OF h demo_fresh_state(3,4), of demo_ui_env]) simp_all
  obtain ks' w'' where 2: "submit_password demo_lib (\<lambda>_. []) demo_other_env (demo_login\<lparr>ap_screen := Unlock (lit ''pw'') [] None, ap_server_field := DEFAULT_SERVER\<rparr>, w')
      = Some ((demo_login\<lparr>ap_screen := Unlock (lit ''pw'') [] None, ap_server_field := DEFAULT_SERVER\<rparr>\<lparr>ap_screen := Unlock (lit ''pw'') [] None, ap_server_field := DEFAULT_SERVER\<rparr>, w''),
          TStart ks' DEFAULT_SERVER)"
    by (rule demo_submit [OF 1(2), of "demo_login\<lparr>ap_screen := Unlock (lit ''pw'') [] None, ap_server_field := DEFAULT_SERVER\<rparr>" demo_other_env])
      (simp_all add: demo_fresh_state)
  show ?thesis using 1(3) by (intro that [OF 1(1) _ 2]) (simp add: demo_fresh_state)
qed

theorem gui_relogin_witness:
  "\<exists>ks w'. submit_password demo_lib (\<lambda>_. []) demo_ui_env (demo_login, demo_fresh) = Some w' \<and> snd w' = TStart ks DEFAULT_SERVER
     \<and> ap_has_identity (fst (boot demo_lib None 0 (wo_disk (snd (fst w')))))"
proof -
  obtain ks a' w' where f: "submit_password demo_lib (\<lambda>_. []) demo_ui_env (demo_login, demo_fresh) = Some ((a', w'), TStart ks DEFAULT_SERVER)"
    by (rule demo_submits)
  have rs: "rust_str []" "\<forall>k p. fault (wo_disk demo_fresh) k p = None" by (simp_all add: rust_str_def demo_fresh_state(1))
  have len: "length (ue_rand demo_ui_env 0) = 32" "length (ue_rand demo_ui_env 1) = 32" "length (ue_rand demo_ui_env 2) = 32"
    "length (ue_rand demo_ui_env 3) = 12" by (intro demo_rand; simp)+
  have "ap_has_identity (fst (boot demo_lib None 0 (wo_disk w')))"
    using gui_relogin [OF demo_aead demo_argon2 demo_ed demo_dh rs(1) len rs(2) demo_fresh_state(2) demo_login_def f refl, of 0] by blast
  then show ?thesis using f by auto
qed

theorem identity_replaced_witness:
  "\<exists>ks ks' a' w' a'' w''. submit_password demo_lib (\<lambda>_. []) demo_ui_env (demo_login, demo_fresh) = Some ((a', w'), TStart ks DEFAULT_SERVER)
     \<and> submit_password demo_lib (\<lambda>_. []) demo_other_env (a', w') = Some ((a'', w''), TStart ks' DEFAULT_SERVER)
     \<and> unlock demo_lib (lit ''pw'') (wo_disk w'') = Some (Inr ks') \<and> ks' \<noteq> ks"
proof -
  obtain ks a' w' ks' a'' w'' where f: "submit_password demo_lib (\<lambda>_. []) demo_ui_env (demo_login, demo_fresh) = Some ((a', w'), TStart ks DEFAULT_SERVER)"
    "submit_password demo_lib (\<lambda>_. []) demo_other_env (a', w') = Some ((a'', w''), TStart ks' DEFAULT_SERVER)"
    by (rule demo_submits)
  have len: "length (ue_rand demo_ui_env 0) = 32" "length (ue_rand demo_ui_env 1) = 32" "length (ue_rand demo_ui_env 2) = 32"
    "length (ue_rand demo_ui_env 3) = 12" "length (ue_rand demo_other_env 0) = 32" "length (ue_rand demo_other_env 1) = 32"
    "length (ue_rand demo_other_env 2) = 32" "length (ue_rand demo_other_env 3) = 12"
    by (intro demo_rand; simp)+
  have n: "\<forall>k p. fault (wo_disk demo_fresh) k p = None" by (simp add: demo_fresh_state(1))
  have "ue_rand demo_other_env 0 \<noteq> ue_rand demo_ui_env 0" by code_simp
  from identity_replaced [OF demo_aead demo_argon2 demo_ed demo_dh len n demo_fresh_state(3,4) f this] show ?thesis using f by blast
qed

end
