(* ===== verification/Gui_Views.thy ===== *)
theory Gui_Views
  imports Gui_Logic
begin

text \<open>
  The views of the graphical interface (\<^verbatim>\<open>crates/gui/src/main.rs\<close>): for each state the tree of widgets
  with their texts, the messages they send and the style of buttons. Sizes, colours, paddings and
  alignments are left out.
\<close>

section \<open>Widgets\<close>

datatype button_style = Primary | Secondary | Danger | Plain

text \<open>
  A text; the online dot of a contact; a gap; a button with its content and the message of a press; an
  input with its placeholder, value, whether it hides the value, the messages of typing and of
  the return key; a row, column or container.
\<close>

datatype element =
  WText rstr
| WDot bool
| WSpace
| WButton button_style "element list" "message_ui option"
| WInput rstr rstr bool "(rstr \<Rightarrow> message_ui)" "message_ui option"
| WBox "element list"

text \<open>\<^verbatim>\<open>str::to_uppercase\<close> on ASCII text; the program applies it to its own ASCII labels only.\<close>

definition to_uppercase :: "rstr \<Rightarrow> rstr" where
  "to_uppercase s = map (\<lambda>c. if 97 \<le> c \<and> c \<le> 122 then c - 32 else c) s"

fun join :: "rstr \<Rightarrow> rstr list \<Rightarrow> rstr" where
  "join sep [] = []"
| "join sep [s] = s"
| "join sep (s # t # ss) = s @ sep @ join sep (t # ss)"

definition spaced_upper :: "rstr \<Rightarrow> rstr" where
  "spaced_upper s = join [0x2009] (map (\<lambda>c. [c]) (to_uppercase s))"

definition accent_text :: "rstr \<Rightarrow> element" where
  "accent_text s = WText s"

definition section_header :: "rstr \<Rightarrow> element" where
  "section_header s = WText (spaced_upper s)"

definition muted_text :: "rstr \<Rightarrow> element" where
  "muted_text s = WText s"

definition danger_text :: "rstr \<Rightarrow> element" where
  "danger_text s = WText s"

definition section_of :: "rstr \<Rightarrow> element \<Rightarrow> element" where
  "section_of heading body = WBox [section_header heading, body]"

definition card_el :: "element \<Rightarrow> element" where
  "card_el content = WBox [content]"

definition icon_button :: "rstr \<Rightarrow> rstr \<Rightarrow> bool \<Rightarrow> message_ui option \<Rightarrow> element" where
  "icon_button glyph caption active on_press =
     WButton (if active then Primary else Plain) [WText glyph, WText (to_uppercase caption)] on_press"

definition unread_badge :: "u64 \<Rightarrow> element" where
  "unread_badge n = WBox [WText (show_nat (unat n))]"

definition contact_row :: "contact \<Rightarrow> u64 \<Rightarrow> bool \<Rightarrow> element" where
  "contact_row c unread selected =
     WButton (if selected then Primary else Plain)
       [WBox ([WDot (ct_online c), WText (label c), WSpace] @ (if unread > 0 then [unread_badge unread] else []))]
       (Some (MSelectPeer (ct_id c)))"

definition message_bubble :: "chat_line \<Rightarrow> element" where
  "message_bubble l = (let bubble = WBox [WText (cl_text l)] in
     if cl_from_me l then WBox [WSpace, bubble] else WBox [bubble, WSpace])"

section \<open>The main window\<close>

definition peer_label :: "'d crypto_lib \<Rightarrow> app \<Rightarrow> bytes \<Rightarrow> rstr" where
  "peer_label L a ident =
     (case List.find (\<lambda>c. ct_id c = ident) (ap_contacts a) of Some c \<Rightarrow> label c | None \<Rightarrow> fingerprint L ident)"

definition unlock_view :: "app \<Rightarrow> rstr \<Rightarrow> rstr \<Rightarrow> rstr option \<Rightarrow> element" where
  "unlock_view a password server err =
     (let (heading, action) =
            (if ap_has_identity a then (lit ''Enter your password to unlock your identity'', lit ''Unlock'')
             else (lit ''Choose a password to create a new identity'', lit ''Create identity''));
          input = WInput (lit ''Password'') password True MPasswordChanged (Some MSubmitPassword);
          server_input = WInput (lit ''Server address'') server False MServerChanged (Some MSubmitPassword);
          submit = WButton Primary [WText action] (Some MSubmitPassword)
      in WBox [WBox [WBox (
           [accent_text (lit ''SeChat''), muted_text (lit ''SECURE '' @ [0xB7] @ lit '' PEER-TO-PEER '' @ [0xB7] @ lit '' ENCRYPTED''), WSpace,
            section_header (lit ''Unlock''), WText heading, input, section_header (lit ''Relay server''), server_input, WSpace, submit]
           @ (case err of Some e \<Rightarrow> [danger_text e] | None \<Rightarrow> []))]])"

definition icon_rail :: "app \<Rightarrow> element" where
  "icon_rail a = WBox [WBox
     [accent_text [0x1F512], WSpace,
      icon_button [0x1F465] (lit ''Contacts'') (ap_rail_tab a = TabContacts) (Some (MSelectRail TabContacts)),
      icon_button [0x2709] (lit ''Chat'') (ap_rail_tab a = TabChat) (Some (MSelectRail TabChat)),
      WSpace,
      icon_button [0x2699] (lit ''Settings'') False (Some MOpenSettings),
      icon_button [0x23FB] (lit ''Quit'') False (Some (MWindowClose (ap_main_id a)))]]"

definition header_bar :: "app \<Rightarrow> element" where
  "header_bar a =
     (let me = (case ap_client a of Some h \<Rightarrow> lit ''you '' @ [0xB7] @ lit '' '' @ hd_fingerprint h | None \<Rightarrow> []);
          heading = (case ap_rail_tab a of TabContacts \<Rightarrow> lit ''Contacts'' | TabChat \<Rightarrow> lit ''Chat'')
      in WBox [WBox [accent_text (lit ''SeChat''), WBox [section_header heading, muted_text me], WSpace,
           WButton Secondary [WText ([0x2699] @ lit ''  '' @ to_uppercase (lit ''Settings''))] (Some MOpenSettings)]])"

definition add_peer_area :: "app \<Rightarrow> element" where
  "add_peer_area a = WBox [WBox
     [section_header (lit ''Add a peer''),
      WInput (lit ''x25519 public key (hex)'') (ap_add_x25519 a) False MAddPeerX25519Changed None,
      WInput (lit ''ed25519 verifying key (hex)'') (ap_add_verifying a) False MAddPeerVerifyingChanged None,
      WButton Primary [WText (lit ''Add peer'')] (Some MAddPeer)]]"

definition contacts_panel :: "app \<Rightarrow> element" where
  "contacts_panel a =
     (let empty_hint = (if ap_contacts a = [] then [muted_text (lit ''No contacts yet '' @ [0x2014] @ lit '' add a peer below.'')] else []);
          rows = map (\<lambda>c. contact_row c (case ap_unread a (ct_id c) of Some n \<Rightarrow> n | None \<Rightarrow> 0) (ap_selected a = Some (ct_id c))) (ap_contacts a)
      in WBox [section_header (lit ''Contacts''), WBox (empty_hint @ rows), add_peer_area a])"

definition chat_panel :: "'d crypto_lib \<Rightarrow> app \<Rightarrow> element" where
  "chat_panel L a =
     (case ap_selected a of
        None \<Rightarrow> WBox [muted_text (lit ''Select a contact to start chatting.'')]
      | Some selected \<Rightarrow>
          WBox [WBox [WBox [section_header (lit ''Chat''), WText (peer_label L a selected)],
                      WButton Secondary [WText (lit ''Purge'')] (Some MPurgeSelected),
                      WButton Danger [WText (lit ''Remove'')] (Some MRemoveSelected)],
                WBox (map message_bubble (ap_history a)),
                WBox [WBox [WInput (lit ''Type a message'' @ [0x2026]) (ap_draft a) False MDraftChanged (Some MSendDraft),
                            WButton Primary [WText (lit ''Send'')] (Some MSendDraft)]]])"

definition status_bar :: "app \<Rightarrow> element" where
  "status_bar a = WBox [WBox [accent_text [0x2022], WText (ap_status a)]]"

definition workspace :: "app \<Rightarrow> element \<Rightarrow> element" where
  "workspace a content = WBox [header_bar a, content, status_bar a]"

definition main_view :: "'d crypto_lib \<Rightarrow> app \<Rightarrow> element" where
  "main_view L a =
     (let content = (case ap_rail_tab a of TabContacts \<Rightarrow> card_el (contacts_panel a) | TabChat \<Rightarrow> card_el (chat_panel L a))
      in WBox [WBox [icon_rail a, workspace a content]])"

section \<open>The settings window\<close>

definition server_area :: "app \<Rightarrow> element" where
  "server_area a = WBox [WInput (lit ''host:port'') (ap_server_field a) False MServerFieldChanged (Some MChangeServer),
     WButton Secondary [WText (lit ''Change'')] (Some MChangeServer)]"

definition alias_area :: "app \<Rightarrow> element" where
  "alias_area a = WBox [WInput (lit ''name for the selected peer'') (ap_alias_input a) False MAliasChanged (Some MSetAlias),
     WButton Secondary [WText (lit ''Save'')] (Some MSetAlias)]"

definition key_row :: "rstr \<Rightarrow> rstr \<Rightarrow> element" where
  "key_row name key = WBox [WText name, WInput [] key False (\<lambda>_. MIgnored) None]"

definition my_keys_area :: "app \<Rightarrow> element" where
  "my_keys_area a =
     (case ap_my_keys a of
        None \<Rightarrow> WText (lit ''Unlock your identity to see your keys.'')
      | Some (x25519_hex, verifying_hex) \<Rightarrow>
          WBox [WText (lit ''Fingerprint: '' @ (case ap_client a of Some h \<Rightarrow> hd_fingerprint h | None \<Rightarrow> [])),
                WText (lit ''Share both keys so a peer can add you:''),
                key_row (lit ''x25519'') x25519_hex,
                key_row (lit ''ed25519 verifying'') verifying_hex])"

definition settings_view :: "'d crypto_lib \<Rightarrow> app \<Rightarrow> element" where
  "settings_view L a =
     (let theme_btn = WButton Secondary
            [WText (if ap_dark a then [0x2600] @ lit '' Switch to light'' else [0x1F319] @ lit '' Switch to dark'')] (Some MToggleTheme)
      in WBox [WBox [accent_text (lit ''Settings''), muted_text (lit ''CONTROL PANEL''), WSpace,
           section_of (lit ''Appearance'') theme_btn, section_of (lit ''Relay server'') (server_area a),
           section_of (lit ''Peer alias'') (alias_area a), section_of (lit ''Your keys'') (my_keys_area a),
           section_of (lit ''Storage'') (muted_text (lit ''Data dir: '' @ data_dir L))]])"

definition view :: "'d crypto_lib \<Rightarrow> app \<Rightarrow> window_id \<Rightarrow> element" where
  "view L a window =
     (if Some window = ap_settings_id a then settings_view L a
      else case ap_screen a of
             Unlock password server err \<Rightarrow> unlock_view a password server err
           | Main \<Rightarrow> main_view L a)"

section \<open>What a window shows and sends\<close>

text \<open>The texts on the screen: labels, and the values of inputs that do not hide them.\<close>

fun shown :: "element \<Rightarrow> rstr list" where
  "shown (WText s) = [s]"
| "shown (WDot b) = []"
| "shown WSpace = []"
| "shown (WButton st es m) = concat (map shown es)"
| "shown (WInput ph v hidden f m) = [ph] @ (if hidden then [] else [v])"
| "shown (WBox es) = concat (map shown es)"

text \<open>The messages the user can make a window send.\<close>

fun sends :: "element \<Rightarrow> message_ui set" where
  "sends (WText s) = {}"
| "sends (WDot b) = {}"
| "sends WSpace = {}"
| "sends (WButton st es m) = set_option m \<union> \<Union>(set (map sends es))"
| "sends (WInput ph v hidden f m) = range f \<union> set_option m"
| "sends (WBox es) = \<Union>(set (map sends es))"

lemmas text_defs = accent_text_def section_header_def muted_text_def danger_text_def section_of_def card_el_def icon_button_def
  unread_badge_def key_row_def

lemmas view_defs = view_def unlock_view_def main_view_def icon_rail_def workspace_def header_bar_def contacts_panel_def
  add_peer_area_def chat_panel_def status_bar_def settings_view_def server_area_def alias_area_def my_keys_area_def

lemma sends_row [simp]: "sends (contact_row c n b) = {MSelectPeer (ct_id c)}"
  by (simp add: contact_row_def text_defs)

lemma sends_bubble [simp]: "sends (message_bubble l) = {}"
  by (simp add: message_bubble_def Let_def)

text \<open>
  What the user can do depends on the screen. Until a client runs, the main window offers
  nothing but typing a password and a server and submitting them; on the main screen the list of
  contacts offers selecting exactly the contacts, a message can be sent, a conversation purged
  or a peer removed only while a peer is selected; and no window can fake an event of the
  program itself (a started client, a tick, the exit).
\<close>

theorem view_offers:
  assumes "ap_settings_id a \<noteq> Some i"
  shows "(ap_screen a = Unlock p sv e \<longrightarrow> sends (view L a i) = range MPasswordChanged \<union> range MServerChanged \<union> {MSubmitPassword})
    \<and> (ap_screen a = Main \<longrightarrow> {x. MSelectPeer x \<in> sends (view L a i)} = (if ap_rail_tab a = TabContacts then ct_id ` set (ap_contacts a) else {})
         \<and> ({MSendDraft, MPurgeSelected, MRemoveSelected} \<inter> sends (view L a i) \<noteq> {} \<longrightarrow> ap_selected a \<noteq> None \<and> ap_rail_tab a = TabChat))
    \<and> sends (view L a j) \<inter> (range MStarted \<union> {MTick, MDoExit}) = {}"
  using assms
  by (auto simp: view_defs text_defs Let_def split: screen.splits rail_tab.splits option.splits prod.splits if_splits)

theorem view_offers_witness:
  "{x. MSelectPeer x \<in> sends (view demo_lib (demo_app\<lparr>ap_contacts := [\<lparr>ct_id = key_of 1, ct_fingerprint = [], ct_online = True, ct_address = None, ct_alias = None\<rparr>]\<rparr>) 0)} = {key_of 1}"
proof -
  let ?a = "demo_app\<lparr>ap_contacts := [\<lparr>ct_id = key_of 1, ct_fingerprint = [], ct_online = True, ct_address = None, ct_alias = None\<rparr>]\<rparr>"
  have a: "ap_settings_id ?a \<noteq> Some 0" "ap_screen ?a = Main" "ap_rail_tab ?a = TabContacts" by (simp_all add: demo_app_def boot_def)
  show ?thesis using view_offers [OF a(1), of _ _ _ demo_lib 0] a(2,3) by simp
qed

end
