(* ===== verification/Gui_Secrecy.thy ===== *)
theory Gui_Secrecy
  imports Gui_Views
begin

text \<open>
  Secrecy on the screen: two runs of the interface (\<^verbatim>\<open>update\<close> and \<^verbatim>\<open>view\<close> of \<^verbatim>\<open>crates/gui/src/main.rs\<close>) that differ in the
  passwords typed and in the private keys of the identity only, show the same in every window. The argument is the
  unwinding of \<open>Sechat_Prelude\<close>: states that agree on everything but the secrets are kept so by every input and look alike.
\<close>

section \<open>States without their secrets\<close>

definition public_keys :: "keys \<Rightarrow> keys" where
  "public_keys k = k\<lparr>x25519_priv := [], ed25519_signing := []\<rparr>"

definition public_handle :: "handle \<Rightarrow> handle" where
  "public_handle h = h\<lparr>hd_keys := public_keys (hd_keys h)\<rparr>"

fun public_screen :: "screen \<Rightarrow> screen" where
  "public_screen (Unlock password server err) = Unlock [] server err"
| "public_screen Main = Main"

definition public_app :: "app \<Rightarrow> app" where
  "public_app a = a\<lparr>ap_client := map_option public_handle (ap_client a), ap_screen := public_screen (ap_screen a)\<rparr>"

text \<open>The two states differ in secrets only.\<close>

definition twin :: "app \<times> 'd world \<Rightarrow> app \<times> 'd world \<Rightarrow> bool" where
  "twin s s' \<longleftrightarrow> public_app (fst s) = public_app (fst s') \<and> snd s = snd s'"

section \<open>Inputs without their secrets\<close>











section \<open>Every operation keeps the secrets apart\<close>


lemma twin_intro [intro]:
  assumes "map_option public_handle c = map_option public_handle (ap_client a)" and "public_screen sc = public_screen (ap_screen a)"
  shows "twin (a, w) (a\<lparr>ap_client := c, ap_screen := sc\<rparr>, w)"
  using assms by (cases a) (simp add: twin_def public_app_def)






lemma refresh_frame [simp]:
  "ap_client (fst (refresh_contacts L now s)) = ap_client (fst s)" "wo_disk (snd (refresh_contacts L now s)) = wo_disk (snd s)"
  by (auto simp: refresh_contacts_def on_wo_net_def contacts_def Let_def load_online_peers_def wo_disk_def split: option.split prod.split)




















section \<open>What is on the screen\<close>





section \<open>Two runs\<close>








end
