(* ===== verification/Desktop.thy ===== *)
theory Desktop
  imports Gui_Logic
begin

text \<open>
  The graphical client as a whole: the interface of \<open>Gui_App\<close>, the cores it starts and the channels
  between them. A conversation that can be read is shown as it is stored; the interface and the cores
  agree on the identity they use; and every event of the core reaches the interface once, in
  order.
\<close>

section \<open>Reading a conversation\<close>









section \<open>What the open conversation shows\<close>







section \<open>Cores and their channels\<close>

text \<open>
  A core that was started: the keys it runs with, its state, how many of the commands given to it it
  has taken, and whether its loop still runs.
\<close>

record 'd running =
  rn_keys :: keys
  rn_runner :: "'d runner"
  rn_taken :: nat
  rn_alive :: bool

text \<open>
  The whole program: the interface; what it shares with the cores; the clients being started; the
  started ones whose message has not been handled yet; the cores; and, for the statements only, the events of the
  current client's core that ticks have applied to the interface so far.
\<close>

record 'd desktop =
  dt_app :: app
  dt_world :: "'d world"
  dt_starting :: "(keys \<times> rstr) list"
  dt_ready :: "handle list"
  dt_cores :: "nat \<rightharpoonup> 'd running"
  dt_shown :: "app_event list"

abbreviation run_core :: "'d runner \<Rightarrow> 'd core" where
  "run_core r \<equiv> cl_core (ru_client r)"

text \<open>A core works on the files as they are.\<close>

definition sync :: "'d net \<Rightarrow> 'd runner \<Rightarrow> 'd runner" where
  "sync n r = r\<lparr>ru_client := (ru_client r)\<lparr>cl_core := (run_core r)\<lparr>co_net := n\<rparr>\<rparr>\<rparr>"

text \<open>New events of the core \<open>n\<close> wait in the receiver, if the interface has that core's.\<close>

definition forward :: "nat \<Rightarrow> app_event list \<Rightarrow> app \<Rightarrow> app" where
  "forward n es a = (case (ap_client a, ap_rx a) of
     (Some h, Some q) \<Rightarrow> if hd_core h = n then a\<lparr>ap_rx := Some (q @ es)\<rparr> else a | _ \<Rightarrow> a)"

definition core_moved :: "nat \<Rightarrow> 'd running \<Rightarrow> 'd runner \<Rightarrow> nat \<Rightarrow> bool \<Rightarrow> 'd desktop \<Rightarrow> 'd desktop" where
  "core_moved n c r taken alive D =
     D\<lparr>dt_app := forward n (drop (length (co_events (run_core (rn_runner c)))) (co_events (run_core r))) (dt_app D),
       dt_world := (dt_world D)\<lparr>wo_net := co_net (run_core r)\<rparr>,
       dt_cores := (dt_cores D)(n \<mapsto> c\<lparr>rn_runner := r, rn_taken := taken, rn_alive := alive\<rparr>)\<rparr>"

definition waiting :: "app \<Rightarrow> app_event list" where
  "waiting a = (case ap_rx a of None \<Rightarrow> [] | Some es \<Rightarrow> es)"

definition commands :: "nat \<Rightarrow> 'd world \<Rightarrow> command list" where
  "commands n w = map snd (filter (\<lambda>x. fst x = n) (wo_sent w))"

definition tasks_of :: "task \<Rightarrow> (keys \<times> rstr) list" where
  "tasks_of t = (case t of TStart ks server \<Rightarrow> [(ks, server)] | _ \<Rightarrow> [])"

definition is_started :: "message_ui \<Rightarrow> bool" where
  "is_started m \<longleftrightarrow> (\<exists>r. m = MStarted r)"

section \<open>The program as a system\<close>

text \<open>
  What happens: the interface handles a message of a widget or of the timer; a client being started
  comes up or fails; its message is handled, with the events that came in the meantime; a core takes its next
  command, has another turn, or goes through its outer loop; a task of a core makes a step, also when
  the loop of the core has ended.
\<close>

inductive desktop_step ::
  "'d crypto_lib \<Rightarrow> server_lib \<Rightarrow> p2p_codec \<Rightarrow> (keyfile_error \<Rightarrow> rstr) \<Rightarrow> (rstr \<Rightarrow> rstr) \<Rightarrow> ((bytes \<times> rstr) list \<Rightarrow> (bytes \<times> rstr) list)
   \<Rightarrow> nat \<Rightarrow> 'd desktop \<Rightarrow> 'd desktop \<Rightarrow> bool"
  for L V C err he iter udp_port where
  input: "\<not> is_started m \<Longrightarrow> update L err he iter env m (dt_app D, dt_world D) = Some ((a, w), t) \<Longrightarrow>
    desktop_step L V C err he iter udp_port D (D\<lparr>dt_app := a, dt_world := w, dt_starting := dt_starting D @ tasks_of t,
      dt_shown := dt_shown D @ (if m = MTick then waiting (dt_app D) else [])\<rparr>)"
| up: "(ks, server) \<in> set (dt_starting D) \<Longrightarrow> dt_cores D n = None \<Longrightarrow>
    start_client L n None ks server (wo_net (dt_world D)) = Inr (h, r) \<Longrightarrow>
    desktop_step L V C err he iter udp_port D (D\<lparr>dt_starting := remove1 (ks, server) (dt_starting D), dt_ready := dt_ready D @ [h],
      dt_cores := (dt_cores D)(n \<mapsto> \<lparr>rn_keys = ks, rn_runner = r, rn_taken = 0, rn_alive = True\<rparr>)\<rparr>)"
| failed: "(ks, server) \<in> set (dt_starting D) \<Longrightarrow> start_client L n bind ks server (wo_net (dt_world D)) = Inl e \<Longrightarrow>
    update L err he iter env (MStarted (Inl e)) (dt_app D, dt_world D) = Some ((a, w), t) \<Longrightarrow>
    desktop_step L V C err he iter udp_port D (D\<lparr>dt_app := a, dt_world := w, dt_starting := remove1 (ks, server) (dt_starting D)\<rparr>)"
| ready: "h \<in> set (dt_ready D) \<Longrightarrow> dt_cores D (hd_core h) = Some c \<Longrightarrow>
    update L err he iter env (MStarted (Inr (h, Some (co_events (run_core (rn_runner c)))))) (dt_app D, dt_world D) = Some ((a, w), t) \<Longrightarrow>
    desktop_step L V C err he iter udp_port D (D\<lparr>dt_app := a, dt_world := w, dt_ready := remove1 h (dt_ready D), dt_shown := []\<rparr>)"
| command: "dt_cores D n = Some c \<Longrightarrow> rn_alive c \<Longrightarrow> rn_taken c < length (commands n (dt_world D)) \<Longrightarrow>
    relay_turn L V iter (rn_keys c) env (FromUser (Some (commands n (dt_world D) ! rn_taken c))) (sync (wo_net (dt_world D)) (rn_runner c)) = (t, r) \<Longrightarrow>
    desktop_step L V C err he iter udp_port D (core_moved n c r (rn_taken c + 1) (t \<noteq> Return) D)"
| other: "dt_cores D n = Some c \<Longrightarrow> rn_alive c \<Longrightarrow> (\<And>x. i \<noteq> FromUser x) \<Longrightarrow>
    relay_turn L V iter (rn_keys c) env i (sync (wo_net (dt_world D)) (rn_runner c)) = (t, r) \<Longrightarrow>
    desktop_step L V C err he iter udp_port D (core_moved n c r (rn_taken c) True D)"
| background: "dt_cores D n = Some c \<Longrightarrow> connect_step L (rn_keys c) (run_core (sync (wo_net (dt_world D)) (rn_runner c))) k \<Longrightarrow>
    desktop_step L V C err he iter udp_port D
      (core_moved n c ((rn_runner c)\<lparr>ru_client := (ru_client (rn_runner c))\<lparr>cl_core := k\<rparr>\<rparr>) (rn_taken c) (rn_alive c) D)"
| dial: "dt_cores D n = Some c \<Longrightarrow> rn_alive c \<Longrightarrow>
    connect_relay L V C (rn_keys c) udp_port attempt (sync (wo_net (dt_world D)) (rn_runner c)) = (res, r) \<Longrightarrow>
    r' = (case res of Inl e \<Rightarrow> pause (r\<lparr>ru_client := app_send (AError (lit ''connect failed: '' @ show_client_errors e)) (ru_client r)\<rparr>)
                    | Inr _ \<Rightarrow> r\<lparr>ru_backoff := 1\<rparr>) \<Longrightarrow>
    desktop_step L V C err he iter udp_port D (core_moved n c r' (rn_taken c) True D)"
| dropped: "dt_cores D n = Some c \<Longrightarrow> rn_alive c \<Longrightarrow> n \<notin> hd_core ` (set (dt_ready D) \<union> set_option (ap_client (dt_app D))) \<Longrightarrow>
    rn_taken c = length (commands n (dt_world D)) \<Longrightarrow>
    relay_turn L V iter (rn_keys c) env (FromUser None) (sync (wo_net (dt_world D)) (rn_runner c)) = (t, r) \<Longrightarrow>
    desktop_step L V C err he iter udp_port D (core_moved n c r (rn_taken c) (t \<noteq> Return) D)"
| hang_up: "dt_cores D n = Some c \<Longrightarrow> rn_alive c \<Longrightarrow>
    desktop_step L V C err he iter udp_port D (core_moved n c (pause (sync (wo_net (dt_world D)) (rn_runner c))) (rn_taken c) True D)"

definition desktop_init :: "'d crypto_lib \<Rightarrow> 'd desktop \<Rightarrow> bool" where
  "desktop_init L D \<longleftrightarrow> (\<exists>env wid. dt_app D = fst (boot L env wid (wo_disk (dt_world D)))) \<and> wo_sent (dt_world D) = []
     \<and> dt_starting D = [] \<and> dt_ready D = [] \<and> dt_cores D = Map.empty \<and> dt_shown D = []"

section \<open>Events are only added\<close>

definition grows :: "'d client \<Rightarrow> 'd client \<Rightarrow> bool" where
  "grows s s' \<longleftrightarrow> prefix (co_events (cl_core s)) (co_events (cl_core s'))"

lemma grows_simps [simp]:
  "grows s s" "grows s s' \<Longrightarrow> grows s (app_send e s')" "grows s (server_send up m s') = grows s s'" "grows s (remove_session p s') = grows s s'"
  "grows s (s'\<lparr>cl_intents := is\<rparr>) = grows s s'" "grows s (s'\<lparr>cl_outbound := xs\<rparr>) = grows s s'" "grows s (s'\<lparr>cl_relay_in := ys\<rparr>) = grows s s'"
  "grows s (s'\<lparr>cl_core := spawn_connect peer (cl_core s')\<rparr>) = grows s s'"
  by (simp_all add: grows_def spawn_connect_def prefix_prefix)

lemma grows_on_cl [simp]: "grows s (snd (on_cl_net m s')) = grows s s'" "grows s (snd (on_cl_disk m' s')) = grows s s'"
  by (simp_all add: grows_def on_cl_disk_def on_cl_net_def split: prod.split)

lemma record_sent_grows: "grows s s' \<Longrightarrow> grows s (record_sent L me env peer p t s')"
  by (simp add: record_sent_def case_prod_beta split: sum.split)

lemma announce_grows: "grows s (announce_now L env priv ts address i ps s') = grows s s'" "grows s (unannounce_all L env priv ts i ps s') = grows s s'"
  using announce_now_frame [of L env priv ts address i ps s'] unannounce_all_frame [of L env priv ts i ps s'] by (simp_all add: grows_def)

lemma command_grows: "grows s (handle_command L V iter me env cmd s)"
proof (cases cmd)
  case (CSend peer t)
  then show ?thesis by (simp add: handle_command_def command_send_def record_sent_grows split: sum.split option.split)
next
  case (CConnect peer)
  then show ?thesis by (auto simp: handle_command_def command_connect_def case_prod_beta split: sum.split)
next
  case (CPurge peer)
  then show ?thesis
    by (auto simp: handle_command_def command_purge_def Let_def case_prod_beta split: sum.split)
next
  case (CRemovePeer peer)
  then show ?thesis
    by (auto simp: handle_command_def command_remove_def Let_def case_prod_beta split: sum.split)
next
  case CAnnounceNow
  then show ?thesis
    by (auto simp: handle_command_def command_announce_def announce_grows case_prod_beta split: option.split)
qed (simp_all add: handle_command_def)

lemma event_grows: "grows s (handle_server_event L env ev s)"
proof (cases ev)
  case (EPunchHole tok h addr ts)
  obtain r s' where p: "punch_peer L (en_now env 0) h addr s = (r, s')" by fastforce
  have "grows s (snd (punch_peer L (en_now env 0) h addr s))" by (simp add: punch_peer_def case_prod_beta split: sum.split)
  then show ?thesis using EPunchHole p by (cases r) (simp_all add: handle_server_event_def)
qed (auto simp: handle_server_event_def split: option.split)

lemma turn_grows:
  assumes "relay_turn L V iter me env i r = (t, r')"
  shows "grows (ru_client r) (ru_client r')"
proof -
  have "grows s (retry_tick L me env s)" for s by (simp add: retry_tick_def grows_def split: prod.split)
  moreover have "grows s (shutdown_client L me env s)" for s
    by (simp add: shutdown_client_def Let_def grows_def unannounce_all_frame split: sum.split)
  ultimately show ?thesis
    using assms
    by (auto simp: relay_turn_def command_grows event_grows
        split: core_input.splits option.splits command.splits if_splits)
qed

lemma connect_step_grows: "connect_step L me c k \<Longrightarrow> prefix (co_events c) (co_events k)"
  by (cases rule: connect_step.cases) (auto simp: spawn_connect_def)

lemma connect_relay_grows: "connect_relay L V C me port a r = (res, r') \<Longrightarrow> grows (ru_client r) (ru_client r')"
  by (auto simp: connect_relay_def Let_def case_prod_beta)

section \<open>The invariant of the program\<close>

text \<open>
  Each core keeps its own invariant and has taken no more commands than it was given; whoever
  holds a handle holds it to a core with the same keys; commands were given to cores only;
  what was shown and what waits in the receiver are together the events of the core whose handle the interface has.
\<close>

definition handle_ok :: "'d crypto_lib \<Rightarrow> (nat \<rightharpoonup> 'd running) \<Rightarrow> handle \<Rightarrow> bool" where
  "handle_ok L cores h \<longleftrightarrow> (\<exists>c. cores (hd_core h) = Some c \<and> rn_keys c = hd_keys h
     \<and> hd_id h = identity_hash L (x25519_pub (hd_keys h)) (ed25519_verifying (hd_keys h)))"

definition rx_ok :: "app_event list \<Rightarrow> app \<Rightarrow> (nat \<rightharpoonup> 'd running) \<Rightarrow> bool" where
  "rx_ok shown a cores \<longleftrightarrow> (\<forall>h c. ap_client a = Some h \<longrightarrow> cores (hd_core h) = Some c \<longrightarrow>
     (\<exists>es. ap_rx a = Some es \<and> shown @ es = co_events (run_core (rn_runner c))))"

definition cores_ok :: "'d crypto_lib \<Rightarrow> (nat \<rightharpoonup> 'd running) \<Rightarrow> 'd world \<Rightarrow> bool" where
  "cores_ok L cores w \<longleftrightarrow> (\<forall>n c. cores n = Some c \<longrightarrow> client_inv L (rn_keys c) (rn_runner c) \<and> rn_taken c \<le> length (commands n w))"

definition sent_ok :: "(nat \<rightharpoonup> 'd running) \<Rightarrow> 'd world \<Rightarrow> bool" where
  "sent_ok cores w \<longleftrightarrow> (\<forall>x \<in> set (wo_sent w). cores (fst x) \<noteq> None)"

definition desktop_inv :: "'d crypto_lib \<Rightarrow> 'd desktop \<Rightarrow> bool" where
  "desktop_inv L D \<longleftrightarrow> app_inv L (dt_app D) \<and> cores_ok L (dt_cores D) (dt_world D)
     \<and> (\<forall>h \<in> set (dt_ready D) \<union> set_option (ap_client (dt_app D)). handle_ok L (dt_cores D) h)
     \<and> sent_ok (dt_cores D) (dt_world D) \<and> rx_ok (dt_shown D) (dt_app D) (dt_cores D)"

lemma update_client_rx:
  assumes "update L err he iter env m (a, w) = Some ((a', w'), t)" and "\<not> is_started m"
  shows "ap_client a' = ap_client a" and "ap_rx a' = (if m = MTick then map_option (\<lambda>_. []) (ap_rx a) else ap_rx a)"
proof -
  have r: "ap_client (fst (refresh_contacts L now s)) = ap_client (fst s)" "ap_client (fst (reload_history L p s)) = ap_client (fst s)" for now p s
    by (simp_all add: refresh_contacts_def reload_history_def split: option.split prod.split sum.split)
  have e: "ap_client (fst (apply_event L now e s)) = ap_client (fst s)" for now e s
    by (cases e; simp add: apply_event_def Let_def r)
  have es: "ap_client (fst (apply_events L clk i es s)) = ap_client (fst s)" for clk i es s
    by (induction es arbitrary: i s) (simp_all add: e)
  have rx: "ap_rx (fst (refresh_contacts L now s)) = ap_rx (fst s)" "ap_rx (fst (reload_history L p s)) = ap_rx (fst s)" for now p s
    by (simp_all add: refresh_contacts_def reload_history_def split: option.split prod.split sum.split)
  have "ap_client a' = ap_client a \<and> ap_rx a' = (if m = MTick then map_option (\<lambda>_. []) (ap_rx a) else ap_rx a)"
  proof (cases m)
    case MSubmitPassword
    then show ?thesis
      using assms(1) by (auto simp: update_def submit_password_def Let_def split: screen.splits if_splits prod.splits option.splits sum.splits)
  next
    case MTick
    then have "(a', w') = drain_events L (ue_now env) (a, w)" using assms(1) by (simp add: update_def Let_def)
    from arg_cong [OF this, of fst] show ?thesis using MTick by (simp add: drain_events_def es apply_events_rx split: option.split)
  next
    case (MSelectPeer p)
    then have "a' = (fst (select_peer L p (a, w)))\<lparr>ap_rail_tab := TabChat\<rparr>" using assms(1) by (simp add: update_def Let_def case_prod_beta)
    then show ?thesis using MSelectPeer by (simp add: select_peer_def Let_def r rx rx rx)
  next
    case MAddPeer
    then have "a' = fst (gui_add_peer L he (ue_now env 0) (a, w))" using assms(1) by (simp add: update_def Let_def)
    then show ?thesis using MAddPeer by (simp add: gui_add_peer_def Let_def r rx rx case_prod_beta split: option.split sum.split)
  next
    case MSetAlias
    then have "a' = fst (gui_set_alias L iter (ue_now env 0) (a, w))" using assms(1) by (simp add: update_def Let_def)
    then show ?thesis using MSetAlias by (simp add: gui_set_alias_def Let_def r rx rx case_prod_beta split: option.split sum.split)
  next
    case MRemoveSelected
    then have "a' = fst (remove_selected L (ue_now env 0) (a, w))" using assms(1) by (simp add: update_def Let_def)
    then show ?thesis using MRemoveSelected by (simp add: remove_selected_def r rx split: option.split)
  qed (use assms in \<open>auto simp: update_def Let_def is_started_def send_draft_def change_server_def purge_selected_def close_window_def
         split: if_splits screen.splits option.splits\<close>)
  then show "ap_client a' = ap_client a" and "ap_rx a' = (if m = MTick then map_option (\<lambda>_. []) (ap_rx a) else ap_rx a)" by blast+
qed

lemma client_inv_sync: "client_inv L me r \<Longrightarrow> client_inv L me (sync n r)"
  using tasks_inv_trims [of "run_core r" "run_core (sync n r)" L me] by (simp add: client_inv_def sync_def)

lemma forward_simps [simp]:
  "ap_client (forward n es a) = ap_client a" "app_inv L a \<Longrightarrow> app_inv L (forward n es a)"
  by (auto simp: forward_def intro: app_inv_parts split: option.split)

lemma commands_net [simp]: "commands n (w\<lparr>wo_net := x\<rparr>) = commands n w"
  by (simp add: commands_def)

lemma commands_grow: "gives a m w w' \<Longrightarrow> length (commands n w) \<le> length (commands n w')"
  by (auto simp: gives_def commands_def)

lemma core_moved_inv:
  assumes "desktop_inv L D" and c: "dt_cores D n = Some c" and "client_inv L (rn_keys c) r" and "k \<le> length (commands n (dt_world D))"
    and ev: "prefix (co_events (run_core (rn_runner c))) (co_events (run_core r))"
  shows "desktop_inv L (core_moved n c r k alive D)"
proof -
  let ?D = "core_moved n c r k alive D"
  have "handle_ok L (dt_cores ?D) h" if "handle_ok L (dt_cores D) h" for h
    using that c by (auto simp: handle_ok_def core_moved_def)
  moreover have "rx_ok (dt_shown ?D) (dt_app ?D) (dt_cores ?D)"
  proof -
    obtain new where new: "co_events (run_core r) = co_events (run_core (rn_runner c)) @ new" using ev by (rule prefixE)
    show ?thesis
      using assms(1) c new unfolding desktop_inv_def rx_ok_def core_moved_def forward_def
      by (auto split: option.splits if_splits)
  qed
  moreover have "cores_ok L (dt_cores ?D) (dt_world ?D)"
    using assms(1,3,4) by (simp add: desktop_inv_def core_moved_def cores_ok_def)
  moreover have "sent_ok (dt_cores ?D) (dt_world ?D)" using assms(1) by (simp add: desktop_inv_def core_moved_def sent_ok_def)
  moreover have "app_inv L (dt_app ?D)" "ap_client (dt_app ?D) = ap_client (dt_app D)" "dt_ready ?D = dt_ready D"
    using assms(1) by (simp_all add: desktop_inv_def core_moved_def)
  ultimately show ?thesis using assms(1) by (simp add: desktop_inv_def)
qed

lemma interface_inv:
  assumes "desktop_inv L D" and u: "update L err he iter env m (dt_app D, dt_world D) = Some ((a, w), t)"
    and "\<And>h. ap_client a = Some h \<Longrightarrow> handle_ok L (dt_cores D) h" and "rx_ok shown a (dt_cores D)"
    and "set ready \<subseteq> set (dt_ready D)"
  shows "desktop_inv L (D\<lparr>dt_app := a, dt_world := w, dt_starting := st, dt_ready := ready, dt_shown := shown\<rparr>)"
proof -
  have "app_inv L a" using update_inv [OF _ u, unfolded fst_conv] assms(1) by (simp add: desktop_inv_def)
  moreover have g: "gives (dt_app D) m (dt_world D) w" using u by (rule update_gives)
  then have "length (commands n (dt_world D)) \<le> length (commands n w)" for n by (rule commands_grow)
  then have "cores_ok L (dt_cores D) w"
    using assms(1) unfolding desktop_inv_def cores_ok_def by (meson le_trans)
  moreover have "dt_cores D (hd_core h) \<noteq> None" if "ap_client (dt_app D) = Some h" for h
    using assms(1) that by (auto simp: desktop_inv_def handle_ok_def)
  then have "sent_ok (dt_cores D) w"
    using assms(1) g by (auto simp: desktop_inv_def gives_def sent_ok_def)
  ultimately show ?thesis
    using assms(1,3-5) by (simp add: desktop_inv_def) blast
qed

lemma rx_ok_input:
  assumes "rx_ok shown a cores" and "ap_client a' = ap_client a" and "ap_rx a' = (if tick then map_option (\<lambda>_. []) (ap_rx a) else ap_rx a)"
  shows "rx_ok (shown @ (if tick then waiting a else [])) a' cores"
  using assms by (fastforce simp: rx_ok_def waiting_def)

lemma desktop_inv_step:
  assumes "desktop_step L V C err he iter udp_port D D'" and inv: "desktop_inv L D"
  shows "desktop_inv L D'"
proof -
  have core_inv: "client_inv L (rn_keys c) (sync w (rn_runner c))" "rn_taken c \<le> length (commands n (dt_world D))" if "dt_cores D n = Some c" for n c w
    using inv that by (auto simp: desktop_inv_def cores_ok_def intro: client_inv_sync)
  from assms(1) show ?thesis
  proof (cases rule: desktop_step.cases)
    case (input m env a w t)
    note k = update_client_rx [OF input(3,2)]
    have "desktop_inv L (D\<lparr>dt_app := a, dt_world := w, dt_starting := dt_starting D @ tasks_of t, dt_ready := dt_ready D,
        dt_shown := dt_shown D @ (if m = MTick then waiting (dt_app D) else [])\<rparr>)"
    proof (rule interface_inv [OF inv input(3)])
      show "rx_ok (dt_shown D @ (if m = MTick then waiting (dt_app D) else [])) a (dt_cores D)"
        using inv by (intro rx_ok_input [OF _ k]) (simp add: desktop_inv_def)
    qed (use inv k(1) in \<open>auto simp: desktop_inv_def\<close>)
    then show ?thesis using input(1) by simp
  next
    case (up ks server n h r)
    have h: "hd_core h = n" "hd_keys h = ks" "hd_id h = identity_hash L (x25519_pub ks) (ed25519_verifying ks)"
      using up(4) by (auto simp: start_client_def Let_def)
    have "client_inv L ks r" using whole_client.inv_init start_client_init [OF up(4)] by blast
    moreover have "handle_ok L (dt_cores D') g" if "handle_ok L (dt_cores D) g" for g
      using that up(1,3) by (auto simp: handle_ok_def)
    moreover have "handle_ok L (dt_cores D') h" using h up(1) by (simp add: handle_ok_def)
    moreover have "rx_ok (dt_shown D') (dt_app D') (dt_cores D')"
      using inv up(1,3) by (auto simp: desktop_inv_def rx_ok_def handle_ok_def)
    moreover have "cores_ok L (dt_cores D') (dt_world D')" using inv up(1) calculation(1) by (simp add: desktop_inv_def cores_ok_def)
    moreover have "sent_ok (dt_cores D') (dt_world D')" using inv up(1) by (simp add: desktop_inv_def sent_ok_def)
    ultimately show ?thesis using inv up(1) by (simp add: desktop_inv_def)
  next
    case (failed ks server n bind e env a w t)
    have k: "ap_client a = ap_client (dt_app D)" "ap_rx a = ap_rx (dt_app D)"
      using failed(4) by (auto simp: update_def Let_def on_started_def split: screen.splits)
    have "desktop_inv L (D\<lparr>dt_app := a, dt_world := w, dt_starting := remove1 (ks, server) (dt_starting D), dt_ready := dt_ready D, dt_shown := dt_shown D\<rparr>)"
      using inv k by (intro interface_inv [OF inv failed(4)]) (auto simp: desktop_inv_def rx_ok_def)
    then show ?thesis using failed(1) by simp
  next
    case (ready h c env a w t)
    have k: "ap_client a = Some h" "ap_rx a = Some (co_events (run_core (rn_runner c)))"
      using ready(4) by (auto simp: update_def Let_def on_started_def split: prod.splits)
    have "desktop_inv L (D\<lparr>dt_app := a, dt_world := w, dt_starting := dt_starting D, dt_ready := remove1 h (dt_ready D), dt_shown := []\<rparr>)"
      using inv k ready(2,3) set_remove1_subset [of h "dt_ready D"]
      by (intro interface_inv [OF inv ready(4)]) (auto simp: desktop_inv_def rx_ok_def)
    then show ?thesis using ready(1) by simp
  next
    case (command n c env t r)
    then show ?thesis
      using core_inv [OF command(2)] turn_inv [OF command(5)] turn_grows [OF command(5)] core_moved_inv [OF inv command(2)]
      by (simp add: grows_def sync_def)
  next
    case (other n c i env t r)
    then show ?thesis
      using core_inv [OF other(2)] turn_inv [OF other(5)] turn_grows [OF other(5)] core_moved_inv [OF inv other(2)]
      by (simp add: grows_def sync_def)
  next
    case (dropped n c env t r)
    then show ?thesis
      using core_inv [OF dropped(2)] turn_inv [OF dropped(6)] turn_grows [OF dropped(6)] core_moved_inv [OF inv dropped(2)]
      by (simp add: grows_def sync_def)
  next
    case (background n c k)
    let ?r = "sync (wo_net (dt_world D)) (rn_runner c)"
    have "client_step L V C iter (rn_keys c) udp_port ?r (?r\<lparr>ru_client := (ru_client ?r)\<lparr>cl_core := k\<rparr>\<rparr>)"
      using background(3) by (rule client_step.task)
    then have "client_inv L (rn_keys c) ((rn_runner c)\<lparr>ru_client := (ru_client (rn_runner c))\<lparr>cl_core := k\<rparr>\<rparr>)"
      using client_inv_step core_inv(1) [OF background(2)] by (fastforce simp: sync_def)
    then show ?thesis
      using background(1) core_inv(2) [OF background(2)] connect_step_grows [OF background(3)] core_moved_inv [OF inv background(2)]
      by (simp add: sync_def)
  next
    case (dial n c attempt res r r')
    have i: "client_inv L (rn_keys c) r"
      using client_inv_step [OF client_step.connect [OF dial(4)]] core_inv(1) [OF dial(2)] .
    have "client_inv L (rn_keys c) r'"
      using dial(5) i client_inv_step [OF client_step.connected]
      by (cases res) (auto intro!: client_inv_step [OF client_step.paused] client_inv_step [OF client_step.failed])
    moreover have "prefix (co_events (run_core (rn_runner c))) (co_events (run_core r'))"
      using dial(5) connect_relay_grows [OF dial(4)] by (cases res) (auto simp: grows_def sync_def pause_def prefix_prefix)
    ultimately show ?thesis using dial(1) core_inv(2) [OF dial(2)] core_moved_inv [OF inv dial(2)] by simp
  next
    case (hang_up n c)
    let ?r = "sync (wo_net (dt_world D)) (rn_runner c)"
    have "client_inv L (rn_keys c) (pause ?r)" using client_inv_step [OF client_step.paused core_inv(1) [OF hang_up(2)]] .
    moreover have "prefix (co_events (run_core (rn_runner c))) (co_events (run_core (pause ?r)))" by (simp add: sync_def pause_def)
    ultimately show ?thesis using hang_up(1) core_inv(2) [OF hang_up(2)] core_moved_inv [OF inv hang_up(2)] by blast
  qed
qed

interpretation desktop: invariant_system "desktop_init L" "desktop_step L V C err he iter udp_port" "desktop_inv L" for L V C err he iter udp_port
proof
  show "desktop_inv L D" if "desktop_init L D" for D
    using that gui.inv_init [of L "(dt_app D, dt_world D)"]
    by (auto simp: desktop_init_def desktop_inv_def gui_init_def cores_ok_def sent_ok_def rx_ok_def boot_def)
qed (rule desktop_inv_step)

text \<open>
  A tick applies what waits, the first event first, each with its own reading of the clock.
\<close>

lemma apply_events_fold: "apply_events L clk i es s = fold (\<lambda>(j, e). apply_event L (clk j) e) (enumerate i es) s"
  by (induction es arbitrary: i s) simp_all

text \<open>
  C5: The interface and the core act as one. In every state the running program can reach, the client
  the interface holds is a running core with the same keys: the keys the interface offers for
  sharing are those the core signs its sessions with, and every session is with the peer it is filed under. The events
  the interface has applied since it got this client, followed by those waiting for it, are exactly the events the core has emitted, and
  the next tick applies those waiting, all of them and in their order; so the interface sees each event of the core once and in order.
\<close>

theorem desktop_invariant:
  assumes "desktop_init L D" and "run_of (desktop_step L V C err he iter udp_port) D D'" and "ap_client (dt_app D') = Some h"
  shows "\<exists>c es. dt_cores D' (hd_core h) = Some c
    \<and> ap_my_keys (dt_app D') = Some (hex_encode L (x25519_pub (rn_keys c)), hex_encode L (ed25519_verifying (rn_keys c)))
    \<and> hd_id h = identity_hash L (x25519_pub (rn_keys c)) (ed25519_verifying (rn_keys c))
    \<and> (\<forall>p e. co_sessions (run_core (rn_runner c)) p = Some e \<longrightarrow>
         identity_hash L (s_peer_x (se_session e)) (s_verifying (se_session e)) = p
         \<and> s_my_pub (se_session e) = x25519_pub (rn_keys c) \<and> s_signing (se_session e) = ed25519_signing (rn_keys c))
    \<and> ap_rx (dt_app D') = Some es \<and> dt_shown D' @ es = co_events (run_core (rn_runner c))
    \<and> (\<forall>env. update L err he iter env MTick (dt_app D', dt_world D')
         = Some (fold (\<lambda>(j, e). apply_event L (ue_now env j) e) (enumerate 0 es) ((dt_app D')\<lparr>ap_rx := Some []\<rparr>, dt_world D'), TNone))"
proof -
  have inv: "desktop_inv L D'" using desktop.inv_reachable [OF assms(1,2)] .
  then obtain c where c: "dt_cores D' (hd_core h) = Some c" "rn_keys c = hd_keys h"
    "hd_id h = identity_hash L (x25519_pub (hd_keys h)) (ed25519_verifying (hd_keys h))"
    using assms(3) by (auto simp: desktop_inv_def handle_ok_def)
  moreover have "client_inv L (rn_keys c) (rn_runner c)"
    using inv c(1) by (simp add: desktop_inv_def cores_ok_def)
  moreover have "ap_my_keys (dt_app D') = Some (my_keys_hex L h)" using inv assms(3) by (simp add: desktop_inv_def app_inv_def)
  moreover obtain es where es: "ap_rx (dt_app D') = Some es" "dt_shown D' @ es = co_events (run_core (rn_runner c))"
    using inv c(1) assms(3) by (auto simp: desktop_inv_def rx_ok_def)
  moreover have "update L err he iter env MTick (dt_app D', dt_world D')
      = Some (fold (\<lambda>(j, e). apply_event L (ue_now env j) e) (enumerate 0 es) ((dt_app D')\<lparr>ap_rx := Some []\<rparr>, dt_world D'), TNone)" for env
    using es(1) by (simp add: update_def Let_def drain_events_def apply_events_fold)
  ultimately show ?thesis
    by (intro exI [of _ c] exI [of _ es]) (auto simp: client_inv_def tasks_inv_def sessions_inv_def my_keys_hex_def)
qed

section \<open>A first run\<close>

definition demo_desktop :: "demo_db desktop" where
  "demo_desktop = \<lparr>dt_app = fst (boot demo_lib None 0 (wo_disk demo_fresh)), dt_world = demo_fresh, dt_starting = [], dt_ready = [], dt_cores = Map.empty, dt_shown = []\<rparr>"

abbreviation demo_desktop_step :: "demo_db desktop \<Rightarrow> demo_db desktop \<Rightarrow> bool" where
  "demo_desktop_step \<equiv> desktop_step demo_lib demo_server demo_codec (\<lambda>_. []) (\<lambda>_. []) rev 7"

lemma demo_desktop_init: "desktop_init demo_lib demo_desktop"
  by (auto simp: desktop_init_def demo_desktop_def demo_fresh_state)

lemma demo_desktop_run:
  obtains D h c where "run_of demo_desktop_step demo_desktop D" and "ap_client (dt_app D) = Some h" and "hd_core h = 0"
    and "dt_cores D 0 = Some c" and "rn_alive c" and "ap_rx (dt_app D) = Some []" and "ap_selected (dt_app D) = None"
proof -
  obtain ks a w where f: "submit_password demo_lib (\<lambda>_. []) demo_ui_env (demo_login, demo_fresh) = Some ((a, w), TStart ks DEFAULT_SERVER)"
    by (rule demo_submits)
  let ?b = "fst (boot demo_lib None 0 (wo_disk demo_fresh))" and ?up = "update demo_lib (\<lambda>_. []) (\<lambda>_. []) rev demo_ui_env"
  let ?D1 = "demo_desktop\<lparr>dt_app := ?b\<lparr>ap_screen := Unlock (lit ''pw'') DEFAULT_SERVER None\<rparr>\<rparr>" and ?D2 = "demo_desktop\<lparr>dt_app := demo_login\<rparr>"
  let ?D3 = "demo_desktop\<lparr>dt_app := a, dt_world := w, dt_starting := [(ks, DEFAULT_SERVER)]\<rparr>"
  have "resolve_server demo_lib None (wo_disk demo_fresh) = None" unfolding demo_fresh_state(1) by code_simp
  then have "?up (MPasswordChanged (lit ''pw'')) (dt_app demo_desktop, dt_world demo_desktop) = Some ((dt_app ?D1, dt_world ?D1), TNone)"
    by (simp add: update_def Let_def demo_desktop_def boot_def)
  from input [OF _ this] have 1: "demo_desktop_step demo_desktop ?D1" by (simp add: is_started_def tasks_of_def demo_desktop_def)
  have "?up (MServerChanged []) (dt_app ?D1, dt_world ?D1) = Some ((dt_app ?D2, dt_world ?D2), TNone)"
    by (simp add: update_def Let_def demo_login_def)
  from input [OF _ this] have 2: "demo_desktop_step ?D1 ?D2" by (simp add: is_started_def tasks_of_def demo_desktop_def)
  have "?up MSubmitPassword (dt_app ?D2, dt_world ?D2) = Some ((a, w), TStart ks DEFAULT_SERVER)"
    using f by (simp add: update_def Let_def demo_desktop_def)
  from input [OF _ this] have 3: "demo_desktop_step ?D2 ?D3" by (simp add: is_started_def tasks_of_def demo_desktop_def)
  obtain h r where s: "start_client demo_lib 0 None ks DEFAULT_SERVER (wo_net w) = Inr (h, r)" and h: "hd_core h = 0" "co_events (run_core r) = []"
    by (simp add: start_client_def Let_def start_runner_def)
  let ?c = "\<lparr>rn_keys = ks, rn_runner = r, rn_taken = 0, rn_alive = True\<rparr>"
  let ?D4 = "?D3\<lparr>dt_starting := [], dt_ready := [h], dt_cores := [0 \<mapsto> ?c]\<rparr>"
  have 4: "demo_desktop_step ?D3 ?D4"
    using up [of ks DEFAULT_SERVER ?D3 0 demo_lib h r demo_server demo_codec "\<lambda>_. []" "\<lambda>_. []" rev 7] s by (simp add: demo_desktop_def)
  obtain cs x where "on_wo_net (contacts demo_lib (ue_now demo_ui_env 0)) w = (cs, x)" by fastforce
  then obtain a' w' where u: "?up (MStarted (Inr (h, Some []))) (a, w) = Some ((a', w'), TNone)" "ap_client a' = Some h" "ap_rx a' = Some []" "ap_selected a' = ap_selected a"
    by (simp add: update_def Let_def on_started_def)
  have 5: "demo_desktop_step ?D4 (?D4\<lparr>dt_app := a', dt_world := w', dt_ready := [], dt_shown := []\<rparr>)"
    using ready [of h ?D4 ?c demo_lib "\<lambda>_. []" "\<lambda>_. []" rev demo_ui_env a' w' TNone demo_server demo_codec 7] u(1) h by simp
  have "run_of demo_desktop_step demo_desktop (?D4\<lparr>dt_app := a', dt_world := w', dt_ready := [], dt_shown := []\<rparr>)"
  proof -
    note rs = run_step [where step = demo_desktop_step]
    show ?thesis by (rule rs [OF rs [OF rs [OF rs [OF rs [OF run_refl 1] 2] 3] 4] 5])
  qed
  moreover have "ap_selected a = None" using f by (auto simp: submit_password_def Let_def demo_login_def boot_def split: if_splits prod.splits option.splits sum.splits)
  ultimately show ?thesis
    using u(2-4) h(1) by (intro that [of "?D4\<lparr>dt_app := a', dt_world := w', dt_ready := [], dt_shown := []\<rparr>" h ?c]) simp_all
qed

theorem desktop_invariant_witness:
  "\<exists>D h c es. run_of demo_desktop_step demo_desktop D \<and> ap_client (dt_app D) = Some h \<and> dt_cores D (hd_core h) = Some c
     \<and> ap_my_keys (dt_app D) = Some (hex_encode demo_lib (x25519_pub (rn_keys c)), hex_encode demo_lib (ed25519_verifying (rn_keys c)))
     \<and> ap_rx (dt_app D) = Some es \<and> es \<noteq> [] \<and> dt_shown D @ es = co_events (run_core (rn_runner c))"
proof -
  obtain D h c where D: "run_of demo_desktop_step demo_desktop D" "ap_client (dt_app D) = Some h" "hd_core h = 0"
    "dt_cores D 0 = Some c" "rn_alive c" "ap_rx (dt_app D) = Some []"
    by (rule demo_desktop_run)
  let ?r = "sync (wo_net (dt_world D)) (rn_runner c)"
  let ?r' = "?r\<lparr>ru_client := app_send ADisconnected (ru_client ?r)\<rparr>"
  let ?D = "core_moved 0 c ?r' (rn_taken c) True D"
  have "relay_turn demo_lib demo_server rev (rn_keys c) demo_env (FromServer None) ?r = (Reconnect, ?r')" by (simp add: relay_turn_def)
  then have "demo_desktop_step D ?D" using D(4,5) by (intro other [of D 0 c "FromServer None"]) simp_all
  then have run: "run_of demo_desktop_step demo_desktop ?D" by (rule run_step [OF D(1)])
  have "ap_client (dt_app ?D) = Some h" "ap_rx (dt_app ?D) = Some [ADisconnected]"
    using D(2,3,6) by (simp_all add: core_moved_def forward_def sync_def)
  then show ?thesis using desktop_invariant [OF demo_desktop_init run, of h] run by auto
qed

section \<open>A text from one window to the other\<close>









end
