(* ===== verification/P2P_Timing.thy ===== *)
theory P2P_Timing
  imports P2P_Session
begin

text \<open>
  The clock of a session (\<^verbatim>\<open>crates/p2p/src/lib.rs\<close>, the two tasks of \<^verbatim>\<open>start_session\<close>): the writer
  sends a heartbeat every 15 seconds, the reader gives up when nothing came for 45. Here the tasks
  run over what happens with the seconds at which it happens: heartbeats keep a session over a network that
  loses and delays some of them, and silence ends it.
\<close>

section \<open>The tasks in time\<close>

definition HEARTBEAT_SECS :: nat where
  "HEARTBEAT_SECS = 15"

definition SESSION_IDLE_TIMEOUT_SECS :: nat where
  "SESSION_IDLE_TIMEOUT_SECS = 45"

text \<open>
  What wakes the writer next: the application, by then or after \<open>beat\<close>, or the interval. When
  both are ready at once, \<^verbatim>\<open>select!\<close> takes either.
\<close>

definition due :: "(nat \<Rightarrow> bool) \<Rightarrow> nat \<Rightarrow> (nat \<times> rstr option) list \<Rightarrow> nat \<times> writer_event \<times> nat \<times> (nat \<times> rstr option) list" where
  "due beat_first beat xs =
     (case xs of
        (u, out) # xs' \<Rightarrow>
          if u < beat \<or> u = beat \<and> \<not> beat_first u then (u, Outgoing out, beat, xs')
          else (beat, HeartbeatTick, beat + HEARTBEAT_SECS, xs)
      | [] \<Rightarrow> (beat, HeartbeatTick, beat + HEARTBEAT_SECS, []))"

text \<open>
  The writer until the second \<open>T\<close>: \<open>clk\<close> is the time of day, \<open>sent\<close> what the channel does, \<open>beat\<close> the next tick of
  the interval, \<open>xs\<close> what the application hands over and when. Frames come with the second they were written.
\<close>

function writer_task ::
  "'d crypto_lib \<Rightarrow> p2p_codec \<Rightarrow> (nat \<Rightarrow> i64) \<Rightarrow> (nat \<Rightarrow> bool) \<Rightarrow> (nat \<Rightarrow> bool) \<Rightarrow> nat \<Rightarrow> nat \<Rightarrow> (nat \<times> rstr option) list \<Rightarrow> session
   \<Rightarrow> (session \<times> (nat \<times> bytes) list) option" where
  "writer_task L C clk sent beat_first T beat xs s =
     (if \<not> s_writing s then Some (s, [])
      else (case due beat_first beat xs of (u, ev, beat', xs') \<Rightarrow>
        if T < u then Some (s, [])
        else (case session_write L C (clk u) (sent u) ev s of
                None \<Rightarrow> None
              | Some (s', fs) \<Rightarrow> map_option (\<lambda>(s'', fs'). (s'', map (Pair u) fs @ fs')) (writer_task L C clk sent beat_first T beat' xs' s'))))"
  by pat_completeness auto

termination
  by (relation "measure (\<lambda>(L, C, clk, sent, beat_first, T, beat, xs, s). T + 1 - beat + length xs)")
    (auto simp: due_def HEARTBEAT_SECS_def split: list.splits if_splits)

declare writer_task.simps [simp del]

text \<open>
  The reader until the second \<open>T\<close>, waiting since \<open>since\<close>: a datagram that comes within 45 seconds is
  handled, from whatever address, and the wait begins anew; otherwise the loop ends. \<open>up\<close> says whether
  the application still takes events.
\<close>

fun reader_task ::
  "'d crypto_lib \<Rightarrow> p2p_codec \<Rightarrow> (nat \<Rightarrow> i64) \<Rightarrow> (nat \<Rightarrow> bool) \<Rightarrow> nat \<Rightarrow> nat \<Rightarrow> (nat \<times> reader_event) list \<Rightarrow> session
   \<Rightarrow> (session \<times> session_event list) option" where
  "reader_task L C clk up T since [] s =
     (let t = since + SESSION_IDLE_TIMEOUT_SECS in
      if \<not> s_reading s \<or> T < t then Some (s, []) else session_read L C (clk t) (up t) IdleTimeout s)"
| "reader_task L C clk up T since ((u, ev) # evs) s =
     (let t = since + SESSION_IDLE_TIMEOUT_SECS in
      if \<not> s_reading s \<or> T < min u t then Some (s, [])
      else if t < u then session_read L C (clk t) (up t) IdleTimeout s
      else (case session_read L C (clk u) (up u) ev s of
              None \<Rightarrow> None
            | Some (s', es) \<Rightarrow> map_option (\<lambda>(s'', es'). (s'', es @ es')) (reader_task L C clk up T u evs s')))"

section \<open>What the writer puts on the wire\<close>

lemma write_beat:
  assumes "frame_codec_ok C" and "length (s_my_pub s) = 32" and "s_writing s"
  shows "\<exists>b. session_write L C now True HeartbeatTick s = Some (s, [b])
    \<and> pm_from_slice C b = Some (peer_message_new L now HeartBeat (s_my_pub s) (s_signing s))"
proof -
  obtain b where b: "pm_to_vec C (peer_message_new L now HeartBeat (s_my_pub s) (s_signing s)) = Some b"
    "pm_from_slice C b = Some (peer_message_new L now HeartBeat (s_my_pub s) (s_signing s))"
    using frame_exists [OF assms(1,2), of HeartBeat L now "s_signing s"] by auto
  have "relay_write L C now True (s_send_key s) (s_my_pub s) (s_signing s) (s_counter s) HeartbeatTick = Some (s_counter s, [b], True)"
    using b(1) by (simp add: relay_write_def frame_def)
  then have "session_write L C now True HeartbeatTick s = Some (s\<lparr>s_counter := s_counter s, s_writing := True\<rparr>, [b])"
    using assms(3)
    by (cases "s_transport s") (simp_all add: session_write_def direct_write_eq_relay_write [OF assms(1,2)])
  then have "session_write L C now True HeartbeatTick s = Some (s, [b])" using assms(3) by (cases s) simp
  with b(2) show ?thesis by blast
qed

text \<open>A frame the writer of \<open>s\<close> makes before it says goodbye.\<close>

definition lively :: "'d crypto_lib \<Rightarrow> p2p_codec \<Rightarrow> session \<Rightarrow> bytes \<Rightarrow> bool" where
  "lively L C s b \<longleftrightarrow> (\<exists>now p. pm_from_slice C b = Some (peer_message_new L now p (s_my_pub s) (s_signing s)) \<and> p \<noteq> End)"

lemma write_lively:
  assumes "libs_ok L C" and "length (s_my_pub s) = 32" and "s_writing s" and "\<And>out. ev = Outgoing out \<Longrightarrow> \<exists>t. out = Some t \<and> sendable t"
  obtains n b where "session_write L C now True ev s = Some (s\<lparr>s_counter := n\<rparr>, [b])" and "lively L C s b"
proof (cases ev)
  case (Outgoing out)
  then obtain t where t: "ev = Outgoing (Some t)" "sendable t" using assms(4) by blast
  then obtain b where "session_write L C now True ev s = Some (s\<lparr>s_counter := s_counter s + 1\<rparr>, [b])"
    "text_frame L C now (s_send_key s) (s_my_pub s) (s_signing s) (s_counter s + 1) t b"
    using write_text [OF assms(1-3)] by blast
  then show ?thesis using that by (auto simp: lively_def text_frame_def)
next
  case HeartbeatTick
  then obtain b where b: "session_write L C now True ev s = Some (s, [b])"
    "pm_from_slice C b = Some (peer_message_new L now HeartBeat (s_my_pub s) (s_signing s))"
    using write_beat [of C s L now] assms(1-3) by (auto simp: libs_ok_def)
  have "s\<lparr>s_counter := s_counter s\<rparr> = s" by (cases s) simp
  moreover have "lively L C s b" unfolding lively_def using b(2) by blast
  ultimately show ?thesis using that [of "s_counter s" b] b(1) by simp
qed

lemma lively_counter [simp]: "lively L C (s\<lparr>s_counter := n\<rparr>) = lively L C s"
  by (simp add: lively_def fun_eq_iff)

text \<open>The writer beats at every multiple of the interval, whatever is written in between.\<close>

lemma writer_beats:
  assumes "libs_ok L C" and "length (s_my_pub s) = 32" and "s_writing s" and "\<forall>x \<in> set xs. \<exists>t. snd x = Some t \<and> sendable t"
  shows "\<exists>s' fs. writer_task L C clk (\<lambda>_. True) beat_first T beat xs s = Some (s', fs) \<and> s_writing s'
    \<and> (\<forall>x \<in> set fs. lively L C s (snd x)) \<and> (\<forall>k. beat + HEARTBEAT_SECS * k \<le> T \<longrightarrow> (\<exists>b. (beat + HEARTBEAT_SECS * k, b) \<in> set fs))"
  using assms(2-4)
proof (induction "T + 1 - beat + length xs" arbitrary: beat xs s rule: less_induct)
  case less
  obtain u ev beat' xs' where d: "due beat_first beat xs = (u, ev, beat', xs')" by (metis prod_cases4)
  have xs': "\<forall>x \<in> set xs'. \<exists>t. snd x = Some t \<and> sendable t"
  proof -
    have "set xs' \<subseteq> set xs" using d by (auto simp: due_def split: list.splits if_splits)
    then show ?thesis using less.prems(3) by blast
  qed
  have ev: "\<exists>t. out = Some t \<and> sendable t" if "ev = Outgoing out" for out
    using d that less.prems(3) by (auto simp: due_def split: list.splits if_splits)
  have step: "ev = HeartbeatTick \<and> u = beat \<and> beat' = beat + HEARTBEAT_SECS \<or> u \<le> beat \<and> beat' = beat \<and> length xs' < length xs"
    "length xs' \<le> length xs"
    using d by (auto simp: due_def split: list.splits if_splits)
  show ?case
  proof (cases "T < u")
    case True
    then have "T < beat" using step(1) by auto
    then show ?thesis using True d less.prems(2) by (subst writer_task.simps) simp
  next
    case False
    obtain n b where w: "session_write L C (clk u) True ev s = Some (s\<lparr>s_counter := n\<rparr>, [b])" "lively L C s b"
      using less.prems(1,2) ev by (rule write_lively [OF assms(1)])
    have "T + 1 - beat' + length xs' < T + 1 - beat + length xs"
      using step False by (auto simp: HEARTBEAT_SECS_def)
    from less.hyps [OF this, of "s\<lparr>s_counter := n\<rparr>"] less.prems(1,2) xs'
    obtain s' fs where r: "writer_task L C clk (\<lambda>_. True) beat_first T beat' xs' (s\<lparr>s_counter := n\<rparr>) = Some (s', fs)" "s_writing s'"
      "\<forall>x \<in> set fs. lively L C s (snd x)" "\<forall>k. beat' + HEARTBEAT_SECS * k \<le> T \<longrightarrow> (\<exists>b. (beat' + HEARTBEAT_SECS * k, b) \<in> set fs)"
      by auto
    have t: "writer_task L C clk (\<lambda>_. True) beat_first T beat xs s = Some (s', (u, b) # fs)"
      using False d less.prems(2) w(1) r(1) by (subst writer_task.simps) simp
    have "\<exists>b'. (beat + HEARTBEAT_SECS * k, b') \<in> set ((u, b) # fs)" if k: "beat + HEARTBEAT_SECS * k \<le> T" for k
    proof (cases "beat' = beat")
      case True
      then show ?thesis using r(4) k by auto
    next
      case False
      then have "u = beat" "beat' = beat + HEARTBEAT_SECS" using step(1) by auto
      then show ?thesis using r(4) [THEN spec, of "k - 1"] k by (cases k) (auto simp: algebra_simps)
    qed
    then show ?thesis using t r(2,3) w(2) by auto
  qed
qed

section \<open>What keeps the reader\<close>

text \<open>
  The reader never waits too long: after the start and after every arrival there is another within
  45 seconds, as far as \<open>T\<close>.
\<close>

definition steady :: "nat \<Rightarrow> nat \<Rightarrow> nat list \<Rightarrow> bool" where
  "steady T since ts \<longleftrightarrow> (\<forall>x \<in> set (since # ts). x + SESSION_IDLE_TIMEOUT_SECS \<le> T \<longrightarrow> (\<exists>u \<in> set ts. x < u \<and> u \<le> x + SESSION_IDLE_TIMEOUT_SECS))"

lemma steady_Cons:
  assumes "steady T since (u # ts)" and "sorted (since # u # ts)"
  shows "steady T u ts" and "u \<le> since + SESSION_IDLE_TIMEOUT_SECS \<or> T < since + SESSION_IDLE_TIMEOUT_SECS"
proof -
  show "steady T u ts" unfolding steady_def
  proof (intro ballI impI)
    fix x assume x: "x \<in> set (u # ts)" "x + SESSION_IDLE_TIMEOUT_SECS \<le> T"
    then obtain v where v: "v \<in> set (u # ts)" "x < v" "v \<le> x + SESSION_IDLE_TIMEOUT_SECS" using assms(1) unfolding steady_def by force
    moreover have "u \<le> x" using x(1) assms(2) by auto
    ultimately show "\<exists>v \<in> set ts. x < v \<and> v \<le> x + SESSION_IDLE_TIMEOUT_SECS" by auto
  qed
  show "u \<le> since + SESSION_IDLE_TIMEOUT_SECS \<or> T < since + SESSION_IDLE_TIMEOUT_SECS"
    using assms unfolding steady_def by fastforce
qed

text \<open>Steady arrivals none of which ends the loop keep the reader reading; \<open>P\<close> is what they keep of the session.\<close>

lemma reader_stays:
  assumes keep: "\<And>u ev s. (u, ev) \<in> set evs \<Longrightarrow> s_reading s \<Longrightarrow> P s \<Longrightarrow> \<exists>s' es. session_read L C (clk u) (up u) ev s = Some (s', es) \<and> s_reading s' \<and> P s' \<and> Q es"
    and "Q []" and "\<And>xs ys. Q xs \<Longrightarrow> Q ys \<Longrightarrow> Q (xs @ ys)"
    and "s_reading s" and "P s" and "sorted (since # map fst evs)" and "steady T since (map fst evs)"
  shows "\<exists>s' es. reader_task L C clk up T since evs s = Some (s', es) \<and> s_reading s' \<and> P s' \<and> Q es"
  using assms(1,4-7)
proof (induction evs arbitrary: since s)
  case Nil
  then have "T < since + SESSION_IDLE_TIMEOUT_SECS" by (auto simp: steady_def)
  then show ?case using Nil assms(2) by simp
next
  case (Cons e evs)
  obtain u ev where e: "e = (u, ev)" by fastforce
  let ?t = "since + SESSION_IDLE_TIMEOUT_SECS"
  note st = steady_Cons [of T since u "map fst evs"]
  show ?case
  proof (cases "T < min u ?t")
    case True
    then show ?thesis using Cons.prems assms(2) e by (simp add: Let_def)
  next
    case False
    then have u: "\<not> ?t < u" using st(2) Cons.prems(4,5) e by auto
    obtain s1 es1 where 1: "session_read L C (clk u) (up u) ev s = Some (s1, es1)" "s_reading s1" "P s1" "Q es1"
      using Cons.prems(1) [of u ev s] Cons.prems(2,3) e by auto
    have "\<exists>s' es. reader_task L C clk up T u evs s1 = Some (s', es) \<and> s_reading s' \<and> P s' \<and> Q es"
    proof (rule Cons.IH)
      show "\<exists>s' es. session_read L C (clk u) (up u) ev s = Some (s', es) \<and> s_reading s' \<and> P s' \<and> Q es"
        if "(u, ev) \<in> set evs" "s_reading s" "P s" for u ev s using Cons.prems(1) that by (meson list.set_intros(2))
      show "sorted (u # map fst evs)" using Cons.prems(4) e by simp
      show "steady T u (map fst evs)" using st(1) Cons.prems(4,5) e by simp
    qed (use 1 in auto)
    then obtain s2 es2 where "reader_task L C clk up T u evs s1 = Some (s2, es2)" "s_reading s2" "P s2" "Q es2" by blast
    then show ?thesis using False u Cons.prems(2) 1 e assms(3) by (auto simp: Let_def)
  qed
qed


text \<open>
  A datagram that does not end a session: everything but a goodbye of the peer that comes from its address, whole, and is still fresh,
  whichever session it was made in.
\<close>

definition harmless :: "'d crypto_lib \<Rightarrow> p2p_codec \<Rightarrow> session \<Rightarrow> i64 \<Rightarrow> bytes \<Rightarrow> socket_addr \<Rightarrow> bool" where
  "harmless L C s now b addr \<longleftrightarrow> \<not> (accepts_from (s_transport s) addr
     \<and> (\<exists>pm. pm_from_slice C (handed (s_transport s) b) = Some pm \<and> verify L pm (s_peer_x s) (s_verifying s)
          \<and> frame_is_fresh (pm_timestamp pm) now \<and> pm_payload pm = End))"

lemma decrypt_total:
  assumes "hkdf_ok L"
  shows "decrypt_message_from_chat L c key n \<noteq> None"
proof -
  have "(32 :: nat) \<le> 8160" "(12 :: nat) \<le> 8160" by simp_all
  then obtain k k' where "hkdf_expand L key (info ''message'') 32 = Some k" "hkdf_expand L key (info ''nonce'') 12 = Some k'"
    using assms unfolding hkdf_ok_def by metis
  then show ?thesis by (simp add: decrypt_message_from_chat_def)
qed

lemma harmless_read:
  assumes "hkdf_ok L" and "s_reading s" and "harmless L C s now b addr"
  obtains n es where "session_read L C now True (Received b addr) s = Some (s\<lparr>s_last_counter := n\<rparr>, es)"
proof -
  let ?b = "handed (s_transport s) b"
  let ?h = "handle_inbound_frame L C now ?b (s_recv_key s) (s_peer_x s) (s_verifying s) (s_last_counter s) True"
  have same: "s\<lparr>s_last_counter := s_last_counter s\<rparr> = s" "s\<lparr>s_last_counter := n, s_reading := True\<rparr> = s\<lparr>s_last_counter := n\<rparr>" for n
    using assms(2) by (cases s; simp)+
  show ?thesis
  proof (cases "accepts_from (s_transport s) addr")
    case False
    then have "session_read L C now True (Received b addr) s = Some (s\<lparr>s_last_counter := s_last_counter s\<rparr>, [])"
      using assms(2) by (simp add: session_read_def same)
    then show ?thesis by (rule that)
  next
    case True
    then have "\<exists>n e. ?h = Some (True, n, e)"
      using assms(3) by (auto simp: harmless_def handle_inbound_frame_def decrypt_total [OF assms(1)] split: option.split p2p_message.split sum.split)
    then obtain n e where "?h = Some (True, n, e)" by blast
    then have "session_read L C now True (Received b addr) s = Some (s\<lparr>s_last_counter := n\<rparr>, case e of None \<Rightarrow> [] | Some e \<Rightarrow> [e])"
      using assms(2) True by (simp add: session_read_def same)
    then show ?thesis by (rule that)
  qed
qed

lemma harmful_read:
  assumes "s_reading s" and "\<not> harmless L C s now b addr"
  shows "session_read L C now True (Received b addr) s = Some (s\<lparr>s_reading := False\<rparr>, [SessionClosed])"
  using assms by (auto simp: harmless_def session_read_def handle_inbound_frame_def)

text \<open>
  Beats every 15 seconds of which one in each run of \<open>m + 1\<close> arrives, at most \<open>delay\<close> seconds late, leave no
  silence of 45 seconds when \<open>15 * (m + 1) + delay\<close> is at most 45.
\<close>

lemma beats_steady:
  assumes "HEARTBEAT_SECS * (m + 1) + delay \<le> SESSION_IDLE_TIMEOUT_SECS" and "\<forall>t \<in> set ts. start \<le> t"
    and "\<And>k. 1 \<le> k \<Longrightarrow> start + HEARTBEAT_SECS * (k + m) \<le> T \<Longrightarrow>
        \<exists>j \<in> {k..k + m}. \<exists>u \<in> set ts. start + HEARTBEAT_SECS * j \<le> u \<and> u \<le> start + HEARTBEAT_SECS * j + delay"
  shows "steady T start ts"
  unfolding steady_def
proof (intro ballI impI)
  fix x assume x: "x \<in> set (start # ts)" "x + SESSION_IDLE_TIMEOUT_SECS \<le> T"
  then have "start \<le> x" using assms(2) by auto
  define k where "k = (x - start) div HEARTBEAT_SECS + 1"
  have k: "x < start + HEARTBEAT_SECS * k" "start + HEARTBEAT_SECS * k \<le> x + HEARTBEAT_SECS"
    using \<open>start \<le> x\<close> by (simp_all add: k_def HEARTBEAT_SECS_def)
  have "start + HEARTBEAT_SECS * (k + m) \<le> T" using k(2) x(2) assms(1) by (simp add: HEARTBEAT_SECS_def algebra_simps)
  then obtain j u where j: "j \<in> {k..k + m}" "u \<in> set ts" "start + HEARTBEAT_SECS * j \<le> u" "u \<le> start + HEARTBEAT_SECS * j + delay"
    using assms(3) [of k] by (auto simp: k_def)
  have "k \<le> j" "j \<le> k + m" using j(1) by simp_all
  then have "x < u" "u \<le> x + SESSION_IDLE_TIMEOUT_SECS" using k j(3,4) assms(1) by (simp_all add: HEARTBEAT_SECS_def)
  then show "\<exists>u \<in> set ts. x < u \<and> u \<le> x + SESSION_IDLE_TIMEOUT_SECS" using j(2) by blast
qed

text \<open>
  C16: Heartbeats keep a session. While the application has not hung up, the writer puts a frame on the wire every 15
  seconds. Over a network that loses at most \<open>m\<close> heartbeats in a row and delays the others by at most \<open>delay\<close>
  seconds, where \<open>15 * (m + 1) + delay\<close> is at most 45, the other end goes on reading until the end
  of the time considered, whatever datagrams come besides, of whatever origin, repeated or damaged, as long as
  the socket does not fail and there is no fresh goodbye of the peer among them. That exception is exact: such a goodbye, also one
  recorded in an earlier session of the two, ends the session at once.
\<close>

theorem heartbeats_keep_session:
  assumes "libs_ok L C" and "ends_match L tx rx" and "s_writing tx" and "s_reading rx"
    and "\<forall>x \<in> set xs. \<exists>t. snd x = Some t \<and> sendable t" and "HEARTBEAT_SECS * (m + 1) + delay \<le> SESSION_IDLE_TIMEOUT_SECS"
  shows "\<exists>tx' fs. writer_task L C clk (\<lambda>_. True) beat_first T (start + HEARTBEAT_SECS) xs tx = Some (tx', fs) \<and> s_writing tx'
    \<and> (\<forall>k. 1 \<le> k \<longrightarrow> start + HEARTBEAT_SECS * k \<le> T \<longrightarrow> (\<exists>b. (start + HEARTBEAT_SECS * k, b) \<in> set fs))
    \<and> (\<forall>evs. sorted (start # map fst evs)
         \<and> (\<forall>(u, ev) \<in> set evs. \<exists>b addr. ev = Received b addr \<and> harmless L C rx (clk' u) b addr)
         \<and> (\<forall>k. 1 \<le> k \<and> start + HEARTBEAT_SECS * (k + m) \<le> T \<longrightarrow>
              (\<exists>j \<in> {k..k + m}. \<forall>b. (start + HEARTBEAT_SECS * j, b) \<in> set fs \<longrightarrow>
                 (\<exists>u addr. (u, Received b addr) \<in> set evs \<and> start + HEARTBEAT_SECS * j \<le> u \<and> u \<le> start + HEARTBEAT_SECS * j + delay)))
         \<longrightarrow> (\<exists>rx' es. reader_task L C clk' (\<lambda>_. True) T start evs rx = Some (rx', es) \<and> s_reading rx'))
    \<and> (\<forall>(u, b) \<in> set fs. \<forall>now addr. handed (s_transport rx) b = b \<longrightarrow> harmless L C rx now b addr)
    \<and> (\<forall>now b addr. \<not> harmless L C rx now b addr \<longrightarrow>
         session_read L C now True (Received b addr) rx = Some (rx\<lparr>s_reading := False\<rparr>, [SessionClosed]))"
proof -
  have pub: "length (s_my_pub tx) = 32" using assms(2) by (simp add: ends_match_def)
  obtain tx' fs where w: "writer_task L C clk (\<lambda>_. True) beat_first T (start + HEARTBEAT_SECS) xs tx = Some (tx', fs)" "s_writing tx'"
    "\<forall>x \<in> set fs. lively L C tx (snd x)"
    and b: "\<forall>k. start + HEARTBEAT_SECS + HEARTBEAT_SECS * k \<le> T \<longrightarrow> (\<exists>b. (start + HEARTBEAT_SECS + HEARTBEAT_SECS * k, b) \<in> set fs)"
    using writer_beats [OF assms(1) pub assms(3,5)] by blast
  have beat: "\<exists>b. (start + HEARTBEAT_SECS * k, b) \<in> set fs" if "1 \<le> k" "start + HEARTBEAT_SECS * k \<le> T" for k
    using b [THEN spec, of "k - 1"] that by (cases k) (auto simp: add.assoc)
  have "\<exists>rx' es. reader_task L C clk' (\<lambda>_. True) T start evs rx = Some (rx', es) \<and> s_reading rx'"
    if sorted: "sorted (start # map fst evs)" and quiet: "\<forall>(u, ev) \<in> set evs. \<exists>b addr. ev = Received b addr \<and> harmless L C rx (clk' u) b addr"
      and net: "\<forall>k. 1 \<le> k \<and> start + HEARTBEAT_SECS * (k + m) \<le> T \<longrightarrow>
              (\<exists>j \<in> {k..k + m}. \<forall>b. (start + HEARTBEAT_SECS * j, b) \<in> set fs \<longrightarrow>
                 (\<exists>u addr. (u, Received b addr) \<in> set evs \<and> start + HEARTBEAT_SECS * j \<le> u \<and> u \<le> start + HEARTBEAT_SECS * j + delay))" for evs
  proof -
    have "steady T start (map fst evs)"
    proof (rule beats_steady [OF assms(6)])
      show "\<forall>t \<in> set (map fst evs). start \<le> t" using sorted by auto
      fix k assume k: "1 \<le> k" "start + HEARTBEAT_SECS * (k + m) \<le> T"
      then obtain j where j: "j \<in> {k..k + m}" "\<forall>b. (start + HEARTBEAT_SECS * j, b) \<in> set fs \<longrightarrow>
          (\<exists>u addr. (u, Received b addr) \<in> set evs \<and> start + HEARTBEAT_SECS * j \<le> u \<and> u \<le> start + HEARTBEAT_SECS * j + delay)"
        using net by blast
      have "1 \<le> j" "start + HEARTBEAT_SECS * j \<le> T" using k j(1) by (auto simp: HEARTBEAT_SECS_def)
      then obtain b where "(start + HEARTBEAT_SECS * j, b) \<in> set fs" using beat by blast
      then show "\<exists>j \<in> {k..k + m}. \<exists>u \<in> set (map fst evs). start + HEARTBEAT_SECS * j \<le> u \<and> u \<le> start + HEARTBEAT_SECS * j + delay"
        using j by force
    qed
    then have "\<exists>rx' es. reader_task L C clk' (\<lambda>_. True) T start evs rx = Some (rx', es) \<and> s_reading rx' \<and> (\<exists>n. rx' = rx\<lparr>s_last_counter := n\<rparr>) \<and> True"
    proof (intro reader_stays)
      fix u ev s assume e: "(u, ev) \<in> set evs" "s_reading s" and s: "\<exists>n. s = rx\<lparr>s_last_counter := n\<rparr>"
      then obtain b addr where "ev = Received b addr" "harmless L C s (clk' u) b addr"
        using quiet by (force simp: harmless_def)
      then obtain n es where "session_read L C (clk' u) True ev s = Some (s\<lparr>s_last_counter := n\<rparr>, es)"
        using harmless_read [of L s C "clk' u" b addr] e(2) assms(1) by (auto simp: libs_ok_def)
      then show "\<exists>s' es. session_read L C (clk' u) True ev s = Some (s', es) \<and> s_reading s' \<and> (\<exists>n. s' = rx\<lparr>s_last_counter := n\<rparr>) \<and> True"
        using s e(2) by auto
    next
      show "\<exists>n. rx = rx\<lparr>s_last_counter := n\<rparr>" by (rule exI [of _ "s_last_counter rx"]) simp
    qed (use assms(4) sorted in auto)
    then show ?thesis by blast
  qed
  moreover have "\<forall>(u, b) \<in> set fs. \<forall>now addr. handed (s_transport rx) b = b \<longrightarrow> harmless L C rx now b addr"
    using w(3) by (fastforce simp: harmless_def lively_def peer_message_new_def)
  moreover have "\<forall>now b addr. \<not> harmless L C rx now b addr \<longrightarrow>
         session_read L C now True (Received b addr) rx = Some (rx\<lparr>s_reading := False\<rparr>, [SessionClosed])"
    using harmful_read [OF assms(4)] by blast
  ultimately show ?thesis using w(1,2) beat by blast
qed

section \<open>What ends the reader\<close>

lemma session_read_total: "hkdf_ok L \<Longrightarrow> session_read L C now up ev s \<noteq> None"
  by (auto simp: session_read_def handle_inbound_frame_def decrypt_total
      split: reader_event.split option.split p2p_message.split sum.split)

lemma session_read_closed:
  assumes "session_read L C now True ev s = Some (s', es)" and "s_reading s" and "\<not> s_reading s'"
  shows "es \<noteq> [] \<and> last es = SessionClosed"
  using assms by (auto simp: session_read_def split: reader_event.splits if_splits)

lemma reader_stopped [simp]: "\<not> s_reading s \<Longrightarrow> reader_task L C clk up T since evs s = Some (s, [])"
  by (cases evs) (auto simp: Let_def)

text \<open>
  Silence ends a session. When after the start, or after something arrived, nothing more comes
  for 45 seconds, the reader has ended by then, and the last it told the application is that the
  session is closed; this holds whatever came before and comes afterwards.
\<close>

lemma silence_ends_session:
  assumes "hkdf_ok L" and "s_reading s" and "sorted (since # map fst evs)"
    and "t \<in> set (since # map fst evs)" and "t + SESSION_IDLE_TIMEOUT_SECS \<le> T"
    and "\<forall>u \<in> set (map fst evs). \<not> (t < u \<and> u \<le> t + SESSION_IDLE_TIMEOUT_SECS)"
  shows "\<exists>s' es. reader_task L C clk (\<lambda>_. True) T since evs s = Some (s', es) \<and> \<not> s_reading s' \<and> es \<noteq> [] \<and> last es = SessionClosed"
  using assms(2-6)
proof (induction evs arbitrary: since s)
  case Nil
  then show ?case by (simp add: Let_def session_read_def)
next
  case (Cons e evs)
  obtain u ev where e: "e = (u, ev)" by fastforce
  let ?t0 = "since + SESSION_IDLE_TIMEOUT_SECS"
  have t: "since \<le> t" "t = since \<or> u \<le> t" using Cons.prems(2,3) e by auto
  then have "\<not> T < min u ?t0" using Cons.prems(4) by auto
  show ?case
  proof (cases "?t0 < u")
    case True
    then show ?thesis using \<open>\<not> T < min u ?t0\<close> Cons.prems(1) e by (simp add: Let_def session_read_def)
  next
    case False
    obtain s1 es1 where 1: "session_read L C (clk u) True ev s = Some (s1, es1)" using session_read_total [OF assms(1)] by fast
    have r: "reader_task L C clk (\<lambda>_. True) T since (e # evs) s
        = map_option (\<lambda>(s'', es'). (s'', es1 @ es')) (reader_task L C clk (\<lambda>_. True) T u evs s1)"
      using False \<open>\<not> T < min u ?t0\<close> Cons.prems(1) e 1 by (simp add: Let_def)
    show ?thesis
    proof (cases "s_reading s1")
      case True
      have "t \<in> set (u # map fst evs)" using Cons.prems(2,3,5) t False e by auto
      then have "\<exists>s' es. reader_task L C clk (\<lambda>_. True) T u evs s1 = Some (s', es) \<and> \<not> s_reading s' \<and> es \<noteq> [] \<and> last es = SessionClosed"
        using Cons.prems(2-5) e by (intro Cons.IH [OF True]) auto
      then show ?thesis using r by auto
    next
      case False
      then show ?thesis using r session_read_closed [OF 1 Cons.prems(1)] by simp
    qed
  qed
qed

text \<open>
  C35: A silent peer is not noticed while others talk. Every datagram that reaches the shared socket starts
  the wait anew, also one from another address, which is then ignored: as long as there is one every 45
  seconds, a direct session stays open and hands up nothing, though its peer has sent nothing at all.
\<close>

theorem foreign_datagrams_keep_session:
  assumes "s_reading s" and "sorted (since # map fst evs)" and "steady T since (map fst evs)"
    and "\<forall>(u, ev) \<in> set evs. \<exists>b addr. ev = Received b addr \<and> \<not> accepts_from (s_transport s) addr"
  shows "reader_task L C clk up T since evs s = Some (s, [])"
proof -
  have "\<exists>s' es. reader_task L C clk up T since evs s = Some (s', es) \<and> s_reading s' \<and> s' = s \<and> es = []"
  proof (rule reader_stays)
    fix u ev s' assume "(u, ev) \<in> set evs" "s_reading s'" "s' = s"
    then show "\<exists>s'' es. session_read L C (clk u) (up u) ev s' = Some (s'', es) \<and> s_reading s'' \<and> s'' = s \<and> es = []"
      using assms(4) by (fastforce simp: session_read_def)
  qed (use assms in auto)
  then show ?thesis by simp
qed

section \<open>A session of five minutes\<close>

theorem heartbeats_keep_session_witness:
  "\<exists>fs tx' rx' es. writer_task demo_lib demo_codec (\<lambda>_. 100) (\<lambda>_. True) (\<lambda>_. True) 300 15 [(7, Some (lit ''Hi''))] (demo_end 2) = Some (tx', fs)
     \<and> reader_task demo_lib demo_codec (\<lambda>_. 105) (\<lambda>_. True) 300 0
         (sort_key fst (map (\<lambda>(t, b). (t + 5, Received b [])) (filter (\<lambda>x. even (fst x div 15)) fs))) (demo_end 1) = Some (rx', es)
     \<and> s_reading rx'"
proof -
  have m: "ends_match demo_lib (demo_end 2) (demo_end 1)" by (simp add: ends_match_def demo_end_def)
  have e: "s_writing (demo_end 2)" "s_reading (demo_end 1)" "s_transport (demo_end 1) = Relay" by (simp_all add: demo_end_def)
  have xs: "\<forall>x \<in> set [(7 :: nat, Some (lit ''Hi''))]. \<exists>t. snd x = Some t \<and> sendable t" using demo_sendable by simp
  have d: "HEARTBEAT_SECS * (1 + 1) + 5 \<le> SESSION_IDLE_TIMEOUT_SECS" by (simp add: HEARTBEAT_SECS_def SESSION_IDLE_TIMEOUT_SECS_def)
  obtain tx' fs where w: "writer_task demo_lib demo_codec (\<lambda>_. 100) (\<lambda>_. True) (\<lambda>_. True) 300 (0 + HEARTBEAT_SECS) [(7, Some (lit ''Hi''))] (demo_end 2) = Some (tx', fs)"
    and r: "\<And>evs. sorted (0 # map fst evs) \<and> (\<forall>(u, ev) \<in> set evs. \<exists>b addr. ev = Received b addr \<and> harmless demo_lib demo_codec (demo_end 1) 105 b addr)
         \<and> (\<forall>k. 1 \<le> k \<and> 0 + HEARTBEAT_SECS * (k + 1) \<le> 300 \<longrightarrow>
              (\<exists>j \<in> {k..k + 1}. \<forall>b. (0 + HEARTBEAT_SECS * j, b) \<in> set fs \<longrightarrow>
                 (\<exists>u addr. (u, Received b addr) \<in> set evs \<and> 0 + HEARTBEAT_SECS * j \<le> u \<and> u \<le> 0 + HEARTBEAT_SECS * j + 5)))
         \<Longrightarrow> \<exists>rx' es. reader_task demo_lib demo_codec (\<lambda>_. 105) (\<lambda>_. True) 300 0 evs (demo_end 1) = Some (rx', es) \<and> s_reading rx'"
    and own: "\<forall>(u, b) \<in> set fs. \<forall>now addr. handed (s_transport (demo_end 1)) b = b \<longrightarrow> harmless demo_lib demo_codec (demo_end 1) now b addr"
    using heartbeats_keep_session [OF demo_libs m e(1,2) xs d, of "\<lambda>_. 100" "\<lambda>_. True" 300 0 "\<lambda>_. 105"] by blast
  let ?evs = "sort_key fst (map (\<lambda>(t, b). (t + 5, Received b [])) (filter (\<lambda>x. even (fst x div 15)) fs))"
  have "\<forall>(u, ev) \<in> set ?evs. \<exists>b addr. ev = Received b addr \<and> harmless demo_lib demo_codec (demo_end 1) 105 b addr"
    using own unfolding e(3) handed.simps by fastforce
  moreover have "\<exists>j \<in> {k..k + 1}. \<forall>b. (0 + HEARTBEAT_SECS * j, b) \<in> set fs \<longrightarrow>
      (\<exists>u addr. (u, Received b addr) \<in> set ?evs \<and> 0 + HEARTBEAT_SECS * j \<le> u \<and> u \<le> 0 + HEARTBEAT_SECS * j + 5)" for k
  proof (rule bexI [of _ "if even k then k else k + 1"])
    let ?j = "if even k then k else k + 1"
    show "\<forall>b. (0 + HEARTBEAT_SECS * ?j, b) \<in> set fs \<longrightarrow>
      (\<exists>u addr. (u, Received b addr) \<in> set ?evs \<and> 0 + HEARTBEAT_SECS * ?j \<le> u \<and> u \<le> 0 + HEARTBEAT_SECS * ?j + 5)"
    proof (intro allI impI)
      fix b assume "(0 + HEARTBEAT_SECS * ?j, b) \<in> set fs"
      then have "(15 * ?j, b) \<in> set (filter (\<lambda>x. even (fst x div 15)) fs)" by (simp add: HEARTBEAT_SECS_def)
      from imageI [OF this, of "\<lambda>(t, b). (t + 5, Received b [])"]
      have "(HEARTBEAT_SECS * ?j + 5, Received b []) \<in> set ?evs" by (simp only: HEARTBEAT_SECS_def prod.case set_sort set_map)
      then show "\<exists>u addr. (u, Received b addr) \<in> set ?evs \<and> 0 + HEARTBEAT_SECS * ?j \<le> u \<and> u \<le> 0 + HEARTBEAT_SECS * ?j + 5"
        by (intro exI [of _ "HEARTBEAT_SECS * ?j + 5"] exI [of _ "[]"]) simp
    qed
  qed auto
  ultimately have "\<exists>rx' es. reader_task demo_lib demo_codec (\<lambda>_. 105) (\<lambda>_. True) 300 0 ?evs (demo_end 1) = Some (rx', es) \<and> s_reading rx'"
    by (intro r) simp
  with w show ?thesis by (simp add: HEARTBEAT_SECS_def)
qed

theorem foreign_datagrams_keep_session_witness:
  "reader_task demo_lib demo_codec (\<lambda>_. 105) (\<lambda>_. True) 3600 0 (map (\<lambda>i. (40 * (i + 1), Received [1] (lit ''other''))) [0..<90]) ((demo_end 1)\<lparr>s_transport := Direct (lit ''peer'')\<rparr>)
     = Some ((demo_end 1)\<lparr>s_transport := Direct (lit ''peer'')\<rparr>, [])"
proof (rule foreign_datagrams_keep_session)
  let ?ts = "map fst (map (\<lambda>i. (40 * (i + 1), Received [1] (lit ''other''))) [0..<90])"
  have ts: "?ts = map (\<lambda>i. 40 * (i + 1)) [0..<90]" by simp
  show "sorted (0 # ?ts)" unfolding ts by (simp add: sorted_map mono_def)
  show "steady 3600 0 ?ts" unfolding ts steady_def
  proof (intro ballI impI)
    fix x assume x: "x \<in> set (0 # map (\<lambda>i. 40 * (i + 1)) [0..<90])" "x + SESSION_IDLE_TIMEOUT_SECS \<le> 3600"
    obtain k where k: "x = 40 * k"
    proof -
      have "x = 40 * 0 \<or> (\<exists>i. x = 40 * (i + 1))" using x(1) by auto
      then show thesis using that by blast
    qed
    then have "k < 90" using x(2) by (simp add: SESSION_IDLE_TIMEOUT_SECS_def)
    then show "\<exists>u \<in> set (map (\<lambda>i. 40 * (i + 1)) [0..<90]). x < u \<and> u \<le> x + SESSION_IDLE_TIMEOUT_SECS"
      using k by (intro bexI [of _ "40 * (k + 1)"]) (auto simp: SESSION_IDLE_TIMEOUT_SECS_def)
  qed
qed (auto simp: demo_end_def lit_def)

end
