(* ===== verification/Client_Traffic.thy ===== *)
theory Client_Traffic
  imports Client_Commands
begin

text \<open>
  What the core tells the server (\<^verbatim>\<open>crates/client/src/lib.rs\<close>, everything that goes into \<^verbatim>\<open>server_tx\<close> from a
  turn of the orchestrator): messages of the shape the protocol fixes, each about a contact.
\<close>

section \<open>Messages about contacts\<close>

text \<open>A message whose byte arrays have the length their Rust types fix.\<close>

fun typed_message :: "client_message \<Rightarrow> bool" where
  "typed_message (Auth pub verif signature) = (length pub = 32 \<and> length verif = 32)"
| "typed_message (Announce token address) = (length token = 32)"
| "typed_message (Unannounce token) = (length token = 32)"
| "typed_message (SendBlob recipient blob) = (length recipient = 32)"
| "typed_message (Purge recipient) = (length recipient = 32)"
| "typed_message (AckBlob blob_id) = True"
| "typed_message (LookupPeer peer) = (length peer = 32)"
| "typed_message (RequestHolePunch token) = (length token = 32)"
| "typed_message (RequestDenied token) = (length token = 32)"
| "typed_message (RequestAccepted token) = (length token = 32)"
| "typed_message (RelayData recipient payload) = (length recipient = 32)"

definition hmac_ok :: "'d crypto_lib \<Rightarrow> bool" where
  "hmac_ok L \<longleftrightarrow> (\<forall>k b. length (hmac_sha256 L k b) = 32)"

text \<open>A contact of the user: its keys are on the disk.\<close>

definition known :: "'d crypto_lib \<Rightarrow> 'd disk \<Rightarrow> peer_public \<Rightarrow> bool" where
  "known L d peer \<longleftrightarrow> (\<exists>h. fst (load_peer_data L h d) = Inr peer) \<or> (\<exists>ps. fst (load_peers L d) = Inr ps \<and> peer \<in> set ps)"

text \<open>
  What a blob for \<open>peer\<close> holds on the input \<open>i\<close>: a signed purge when the user purged that contact, or the text
  the user typed for it, encrypted under the storage key the two share and signed.
\<close>

definition own_hash :: "'d crypto_lib \<Rightarrow> keys \<Rightarrow> bytes" where
  "own_hash L me = identity_hash L (x25519_pub me) (ed_public L (ed25519_signing me))"

fun carries :: "'d crypto_lib \<Rightarrow> keys \<Rightarrow> env \<Rightarrow> 'd disk \<Rightarrow> core_input \<Rightarrow> peer_public \<Rightarrow> blob_payload \<Rightarrow> bool" where
  "carries L me env d i peer (PurgeBlob h signature ts) \<longleftrightarrow>
     h = own_hash L me \<and> signature = sign_challenge L (ed25519_signing me) (info ''purge'' @ to_le_bytes ts) \<and> ts = en_now env 0
     \<and> (\<exists>p. i = FromUser (Some (CPurge p)) \<and> fst (load_peer_data L p d) = Inr peer)"
| "carries L me env d i peer (OfflineMessage h ts cipher signature) \<longleftrightarrow>
     h = own_hash L me \<and> signature = sign_challenge L (ed25519_signing me) (info ''offline'' @ cipher @ to_le_bytes ts) \<and> ts = en_now env 1
     \<and> (\<exists>p t key. i = FromUser (Some (CSend p t)) \<and> fst (load_peer_data L p d) = Inr peer
          \<and> load_storage_key L (pk_public peer) (x25519_priv me) = Inr key
          \<and> encrypt_message_stored L (from_parts t You ts) key (en_rand env 0) = Inr cipher)"

text \<open>
  What may be said about a contact on the input \<open>i\<close>, the client's own address being \<open>address\<close>: the token only the
  two can compute, with that address when the user asks to be announced, or a blob sealed to the
  contact's key under fresh randomness.
\<close>

fun about_contact ::
  "'d crypto_lib \<Rightarrow> server_lib \<Rightarrow> keys \<Rightarrow> env \<Rightarrow> 'd disk \<Rightarrow> rstr option \<Rightarrow> core_input \<Rightarrow> peer_public \<Rightarrow> client_message \<Rightarrow> bool" where
  "about_contact L V me env d address i peer (Announce token a) \<longleftrightarrow>
     i = FromUser (Some CAnnounceNow) \<and> address = Some a \<and> presence_token L (x25519_priv me) (pk_public peer) (en_now env 0) = Inr token"
| "about_contact L V me env d address i peer (Unannounce token) \<longleftrightarrow>
     i = FromUser (Some CShutdown) \<and> presence_token L (x25519_priv me) (pk_public peer) (en_now env 0) = Inr token"
| "about_contact L V me env d address i peer (RequestHolePunch token) \<longleftrightarrow>
     i = RetryTick \<and> presence_token L (x25519_priv me) (pk_public peer) (en_now env 0) = Inr token"
| "about_contact L V me env d address i peer (SendBlob recipient blob) \<longleftrightarrow>
     recipient = generate_peer_hash L peer
     \<and> (\<exists>p x j k. carries L me env d i peer p \<and> blob_to_vec V p = Inr x \<and> encrypt_blob L (pk_public peer) x (en_rand env j) (en_rand env k) = Inr blob)"
| "about_contact L V me env d address i peer _ \<longleftrightarrow> False"

lemma about_contact_typed:
  assumes "hmac_ok L" and "sha_ok L" and "about_contact L V me env d address i peer m"
  shows "typed_message m"
proof -
  have "length token = 32" if "presence_token L priv pub ts = Inr token" for priv pub ts token
    using that assms(1) by (auto simp: hmac_ok_def presence_token_def and_then_def ok_or_def split: option.splits)
  then show ?thesis
    using assms(2,3) by (cases m) (auto simp: sha_ok_def generate_peer_hash_def identity_hash_def)
qed

section \<open>What each handler sends\<close>

definition said :: "'d crypto_lib \<Rightarrow> server_lib \<Rightarrow> keys \<Rightarrow> env \<Rightarrow> 'd disk \<Rightarrow> rstr option \<Rightarrow> core_input \<Rightarrow> client_to_server \<Rightarrow> bool" where
  "said L V me env d address i m \<longleftrightarrow>
     (\<exists>peer. known L d peer \<and> about_contact L V me env d address i peer (cts_payload m)) \<and> cts_timestamp m \<in> range (en_now env)"

definition tells :: "(client_to_server \<Rightarrow> bool) \<Rightarrow> client_to_server list \<Rightarrow> client_to_server list \<Rightarrow> bool" where
  "tells good tx tx' \<longleftrightarrow> (\<exists>new. tx' = tx @ new \<and> (\<forall>m \<in> set new. good m))"

lemma tells_refl [simp]: "tells good tx tx"
  by (simp add: tells_def)

lemma tells_trans: "tells good tx tx' \<Longrightarrow> tells good tx' tx'' \<Longrightarrow> tells good tx tx''"
  unfolding tells_def by (metis Un_iff append.assoc set_append)

lemma tells_send: "good m \<Longrightarrow> tells good (cl_server_tx s) (cl_server_tx (server_send up m s))"
  by (simp add: tells_def server_send_def)

lemma said_new:
  "known L d peer \<Longrightarrow> about_contact L V me env d address i peer payload \<Longrightarrow> said L V me env d address i (client_to_server_new (en_now env k) payload None)"
  by (auto simp: said_def client_to_server_new_def)

lemma tx_on_cl [simp]: "cl_server_tx (snd (on_cl_net m s)) = cl_server_tx s" "cl_server_tx (snd (on_cl_disk m' s)) = cl_server_tx s"
  by (simp_all add: on_cl_disk_def on_cl_net_def split: prod.split)

lemma tx_record_sent [simp]: "cl_server_tx (record_sent L me env peer p t s) = cl_server_tx s"
  by (simp add: record_sent_def case_prod_beta split: sum.split)

lemma announce_now_tells:
  "\<forall>p \<in> set ps. known L d p \<Longrightarrow>
   tells (said L V me env d (Some address) (FromUser (Some CAnnounceNow))) (cl_server_tx s)
     (cl_server_tx (announce_now L env (x25519_priv me) (en_now env 0) address i ps s))"
proof (induction ps arbitrary: i s)
  case (Cons p ps)
  let ?s = "case generate_announce_message L (x25519_priv me) (pk_public p) (en_now env 0) address of
      Inr msg \<Rightarrow> server_send (en_up env (generate_peer_hash L p)) (client_to_server_new (en_now env i) msg None) s | Inl _ \<Rightarrow> s"
  have "tells (said L V me env d (Some address) (FromUser (Some CAnnounceNow))) (cl_server_tx s) (cl_server_tx ?s)"
    using Cons.prems
    by (auto simp: generate_announce_message_def and_then_def split: sum.split intro!: tells_send said_new [of L d p])
  then show ?case using Cons.IH [of ?s "i + 1"] Cons.prems by (auto intro: tells_trans)
qed simp

lemma unannounce_all_tells:
  "\<forall>p \<in> set ps. known L d p \<Longrightarrow>
   tells (said L V me env d address (FromUser (Some CShutdown))) (cl_server_tx s)
     (cl_server_tx (unannounce_all L env (x25519_priv me) (en_now env 0) i ps s))"
proof (induction ps arbitrary: i s)
  case (Cons p ps)
  let ?s = "case generate_unannounce_message L (x25519_priv me) (pk_public p) (en_now env 0) of
      Inr msg \<Rightarrow> server_send (en_up env (generate_peer_hash L p)) (client_to_server_new (en_now env i) msg None) s | Inl _ \<Rightarrow> s"
  have "tells (said L V me env d address (FromUser (Some CShutdown))) (cl_server_tx s) (cl_server_tx ?s)"
    using Cons.prems
    by (auto simp: generate_unannounce_message_def and_then_def split: sum.split intro!: tells_send said_new [of L d p])
  then show ?case using Cons.IH [of ?s "i + 1"] Cons.prems by (auto intro: tells_trans)
qed simp

text \<open>The two generators of blobs.\<close>

lemma generated_blob:
  assumes "carries L me env d i peer p" and "fst (load_peer_data L h d) = Inr peer" and "blob_to_vec V p = Inr x"
    and "generate_blob L peer x (en_rand env j) (en_rand env k) = Inr msg"
  shows "said L V me env d address i (client_to_server_new (en_now env n) msg None)"
proof -
  from assms(4) obtain b where "encrypt_blob L (pk_public peer) x (en_rand env j) (en_rand env k) = Inr b" "msg = SendBlob (generate_peer_hash L peer) b"
    by (auto simp: generate_blob_def and_then_def split: sum.splits)
  with assms(1,3) have "about_contact L V me env d address i peer msg" by (simp only: about_contact.simps) blast
  moreover have "known L d peer" using assms(2) by (auto simp: known_def)
  ultimately show ?thesis by (rule said_new [rotated])
qed

lemma purge_said:
  assumes "generate_purge_message L V (en_now env 0) (en_now env 1) peer (x25519_pub me) (ed25519_signing me) (en_rand env 0) (en_rand env 1) = Inr m"
    and "fst (load_peer_data L h d) = Inr peer"
  shows "said L V me env d address (FromUser (Some (CPurge h))) m"
proof -
  let ?p = "PurgeBlob (own_hash L me) (sign_challenge L (ed25519_signing me) (info ''purge'' @ to_le_bytes (en_now env 0))) (en_now env 0)"
  obtain x msg where "blob_to_vec V ?p = Inr x" "generate_blob L peer x (en_rand env 0) (en_rand env 1) = Inr msg"
    "m = client_to_server_new (en_now env 1) msg None"
    using assms(1) by (auto simp: generate_purge_message_def Let_def and_then_def map_err_def own_hash_def split: sum.splits)
  moreover have "carries L me env d (FromUser (Some (CPurge h))) peer ?p" using assms(2) by simp
  ultimately show ?thesis using generated_blob [OF _ assms(2)] by blast
qed

lemma offline_said:
  assumes "generate_offline_message L V (en_now env 1) (en_now env 2) peer (x25519_pub me) (x25519_priv me) t (ed25519_signing me)
             (en_rand env 0) (en_rand env 1) (en_rand env 2) = Inr m"
    and "fst (load_peer_data L h d) = Inr peer"
  shows "said L V me env d address (FromUser (Some (CSend h t))) m"
proof -
  let ?p = "\<lambda>c. OfflineMessage (own_hash L me) (en_now env 1) c
              (sign_challenge L (ed25519_signing me) (info ''offline'' @ c @ to_le_bytes (en_now env 1)))"
  obtain key c x msg where k: "load_storage_key L (pk_public peer) (x25519_priv me) = Inr key"
      "encrypt_message_stored L (from_parts t You (en_now env 1)) key (en_rand env 0) = Inr c" and
    "blob_to_vec V (?p c) = Inr x" "generate_blob L peer x (en_rand env 1) (en_rand env 2) = Inr msg"
    "m = client_to_server_new (en_now env 2) msg None"
    using assms(1) by (auto simp: generate_offline_message_def Let_def and_then_def map_err_def own_hash_def split: sum.splits)
  moreover have "carries L me env d (FromUser (Some (CSend h t))) peer (?p c)" using assms(2) k by simp
  ultimately show ?thesis using generated_blob [OF _ assms(2)] by blast
qed

lemma retries_tell:
  "tells (said L V me env d address RetryTick) tx (tx @ fst (snd (drive_retries L (en_now env 0) (x25519_priv me) up live flying now d is)))"
proof -
  have one: "said L V me env d address RetryTick m"
    if "m \<in> set (fst (snd (send_punch_request L (en_now env 0) (x25519_priv me) u p d)))" for m p u
  proof -
    from that obtain peer token where "fst (load_peer_data L p d) = Inr peer"
      "presence_token L (x25519_priv me) (pk_public peer) (en_now env 0) = Inr token"
      and m: "m = client_to_server_new (en_now env 0) (RequestHolePunch token) None"
      by (auto simp: send_punch_request_def generate_p2p_request_def and_then_def map_err_def split: sum.splits if_splits)
    then have "known L d peer" "about_contact L V me env d address RetryTick peer (RequestHolePunch token)" by (auto simp: known_def)
    then show ?thesis unfolding m by (rule said_new)
  qed
  have "\<forall>m \<in> set (fst (snd (drive_retries L (en_now env 0) (x25519_priv me) up live flying now d is))). said L V me env d address RetryTick m"
  proof (induction "is")
    case (Cons x xs)
    obtain p i where x: "x = (p, i)" by fastforce
    show ?case using Cons.IH one unfolding x by (auto simp: Let_def case_prod_beta split: if_splits)
  qed simp
  then show ?thesis by (auto simp: tells_def)
qed

text \<open>The address the client keeps as its own, as \<^verbatim>\<open>get_or_set_my_address\<close> reads it.\<close>

definition own_address :: "'d client \<Rightarrow> rstr option" where
  "own_address s = fst (get_or_set_my_address None (co_net (cl_core s)))"

lemma command_tells:
  "tells (said L V me env (cl_disk s) (own_address s) (FromUser (Some cmd))) (cl_server_tx s) (cl_server_tx (handle_command L V iter me env cmd s))"
proof (cases cmd)
  case (CSend peer t)
  then show ?thesis
    by (auto simp: handle_command_def command_send_def intro!: tells_send offline_said split: sum.split option.split)
next
  case (CConnect peer)
  then show ?thesis by (auto simp: handle_command_def command_connect_def case_prod_beta split: sum.split)
next
  case (CPurge peer)
  let ?s = "remove_session peer (s\<lparr>cl_intents := intents_remove peer (cl_intents s)\<rparr>)"
  have "tells (said L V me env (cl_disk s) (own_address s) (FromUser (Some cmd))) (cl_server_tx s) (cl_server_tx (server_send up m ?s))"
    if "said L V me env (cl_disk s) (own_address s) (FromUser (Some cmd)) m" for up m
    using that tells_send [of "said L V me env (cl_disk s) (own_address s) (FromUser (Some cmd))" m ?s up] by simp
  then show ?thesis using CPurge
    by (auto simp: handle_command_def command_purge_def Let_def case_prod_beta cl_disk_def intro: purge_said [unfolded One_nat_def] split: sum.split)
next
  case (CRemovePeer peer)
  then show ?thesis by (auto simp: handle_command_def command_remove_def Let_def case_prod_beta split: sum.split)
next
  case CAnnounceNow
  obtain a s' where a: "on_cl_net (get_or_set_my_address None) s = (a, s')" by fastforce
  have d: "cl_disk s' = cl_disk s" "cl_server_tx s' = cl_server_tx s" "own_address s = a"
    using a by (auto simp: on_cl_net_def own_address_def get_or_set_my_address_def cl_disk_def split: prod.splits if_splits option.splits)
  show ?thesis
  proof (cases a)
    case None
    then show ?thesis using a d CAnnounceNow by (simp add: handle_command_def command_announce_def)
  next
    case (Some addr)
    have "\<forall>p \<in> set (unwrap_or [] (fst (load_peers L (cl_disk s)))). known L (cl_disk s) p"
      by (cases "fst (load_peers L (cl_disk s))") (auto simp: known_def)
    from announce_now_tells [OF this, of V me env addr s'] show ?thesis
      using a d CAnnounceNow Some by (simp add: handle_command_def command_announce_def)
  qed
qed (simp_all add: handle_command_def)

lemma shutdown_tells:
  "tells (said L V me env (cl_disk s) (own_address s) (FromUser (Some CShutdown))) (cl_server_tx s) (cl_server_tx (shutdown_client L me env s))"
  by (auto simp: shutdown_client_def Let_def known_def intro!: unannounce_all_tells split: sum.split)

text \<open>
  C14: The server is told nothing but what the protocol is for. Every message a turn of the core hands to the
  server connection has the right lengths, carries a reading of the clock and is about a contact whose keys are on the disk. It is the presence token
  shared with that contact, with the address the client keeps as its own when the user asked to be announced, without it in a withdrawal at shutdown
  or in a punch request of the retry tick; or it is a blob addressed by the contact's hash and sealed to its key under random bytes drawn
  for it. The blob holds a purge the user asked for or the text he typed for this contact, encrypted under the storage key of
  the two, in the user's name and signed by him. So a typed text leaves only inside these two encryptions, and the private keys enter
  only the presence token, the storage key and the signatures.
\<close>

theorem server_told_about_contacts:
  assumes "hmac_ok L" and "sha_ok L" and "relay_turn L V iter me env i r = (t, r')"
  shows "\<exists>new. cl_server_tx (ru_client r') = cl_server_tx (ru_client r) @ new
    \<and> (\<forall>m \<in> set new. typed_message (cts_payload m) \<and> cts_timestamp m \<in> range (en_now env)
         \<and> (\<exists>peer. known L (cl_disk (ru_client r)) peer
              \<and> about_contact L V me env (cl_disk (ru_client r)) (own_address (ru_client r)) i peer (cts_payload m)))"
proof -
  let ?ok = "said L V me env (cl_disk (ru_client r)) (own_address (ru_client r)) i"
  have ev: "cl_server_tx (handle_server_event L env e s) = cl_server_tx s" for e and s :: "'a client"
    by (auto simp: handle_server_event_def punch_peer_def case_prod_beta split: server_event.split option.split sum.split)
  have "tells (said L V me env (cl_disk s) (own_address s) RetryTick) (cl_server_tx s) (cl_server_tx (retry_tick L me env s))" for s
    using retries_tell by (auto simp: retry_tick_def case_prod_beta)
  then have "tells ?ok (cl_server_tx (ru_client r)) (cl_server_tx (ru_client r'))"
    using assms(3) command_tells shutdown_tells
    by (auto simp: relay_turn_def ev split: core_input.splits option.splits command.splits if_splits)
  then obtain new where new: "cl_server_tx (ru_client r') = cl_server_tx (ru_client r) @ new" "\<forall>m \<in> set new. ?ok m"
    by (auto simp: tells_def)
  then show ?thesis by (intro exI [of _ new]) (auto simp: said_def dest: about_contact_typed [OF assms(1,2)])
qed

lemma demo_hmac: "hmac_ok demo_lib"
  by (simp add: hmac_ok_def demo_lib_def)


theorem server_told_about_contacts_witness:
  "\<exists>t r' m peer. relay_turn demo_lib demo_server rev demo_me demo_env (FromUser (Some (CSend (key_of 1) (lit ''Hi'')))) (demo_runner (demo_box 1 1)) = (t, r')
     \<and> cl_server_tx (ru_client r') = [m] \<and> typed_message (cts_payload m) \<and> about_contact demo_lib demo_server demo_me demo_env (cl_disk (ru_client (demo_runner (demo_box 1 1))))
          (own_address (ru_client (demo_runner (demo_box 1 1))))
          (FromUser (Some (CSend (key_of 1) (lit ''Hi'')))) peer (cts_payload m)"
proof -
  let ?c = "demo_box_chat 2 1 1" and ?s = "ru_client (demo_runner (demo_box 1 1))"
  have r: "inbox_ready demo_lib (x25519_priv demo_me) ?c (co_net (cl_core ?s)) (from_parts (lit ''Hi'') You (en_now demo_env 0), en_rand demo_env 3)"
    using demo_box_ready [of 2 1 1 You 100 4] by (simp add: demo_runner_def demo_client_def core0_def demo_env_def demo_me_def)
  have s: "co_sessions (cl_core ?s) (key_of 1) = None" "en_up demo_env (key_of 1)" "cl_server_tx ?s = []"
    by (simp_all add: demo_runner_def demo_client_def core0_def demo_env_def)
  have p: "ch_peer ?c = \<lparr>pk_public = x25519_public demo_lib (key_of 1), pk_verifying = ed_public demo_lib (key_of 1)\<rparr>"
    by (simp add: demo_box_chat_def demo_contact_def demo_lib_def)
  have h: "key_of 1 = generate_peer_hash demo_lib (ch_peer ?c)" unfolding p by (simp add: generate_peer_hash_def demo_hash)
  obtain m where m: "generate_offline_message demo_lib demo_server (en_now demo_env 1) (en_now demo_env 2) (ch_peer ?c) (x25519_pub demo_me) (x25519_priv demo_me)
      (lit ''Hi'') (ed25519_signing demo_me) (en_rand demo_env 0) (en_rand demo_env 1) (en_rand demo_env 2) = Inr m"
    unfolding p using demo_offline_made by blast
  obtain d where "handle_command demo_lib demo_server rev demo_me demo_env (CSend (key_of 1) (lit ''Hi'')) ?s
      = app_send (AMessageArrived (key_of 1) True) (set_disk d (server_send True m ?s))"
    by (rule send_offline [OF r h s(1,2) m])
  then have tx: "cl_server_tx (handle_command demo_lib demo_server rev demo_me demo_env (CSend (key_of 1) (lit ''Hi'')) ?s) = [m]"
    using s(3) by (simp add: server_send_def)
  obtain t r' where t: "relay_turn demo_lib demo_server rev demo_me demo_env (FromUser (Some (CSend (key_of 1) (lit ''Hi'')))) (demo_runner (demo_box 1 1)) = (t, r')"
    by fastforce
  then have "cl_server_tx (ru_client r') = [m]" using tx by (auto simp: relay_turn_def)
  then show ?thesis using server_told_about_contacts [OF demo_hmac demo_sha t] s(3) t by auto
qed

end
