(* ===== verification/Unit_Tests.thy ===== *)
theory Unit_Tests
  imports Client_Config
begin

text \<open>
  The unit tests of the repository on the model: each \<^verbatim>\<open>#[test]\<close> of \<^verbatim>\<open>crates/crypto\<close>, \<^verbatim>\<open>crates/p2p\<close> and
  \<^verbatim>\<open>crates/client\<close> is a definition that does what the test does and says whether its assertions hold, with the random
  bytes, clocks and texts of the test as arguments. What the tests check at random keys and on one text is
  proved here for all of them.
\<close>

section \<open>Crypto\<close>

definition test_encryption_chat :: "'d crypto_lib \<Rightarrow> bytes \<Rightarrow> rstr \<Rightarrow> bool" where
  "test_encryption_chat L secret t =
     (case generate_x25519 L secret of (private, public) \<Rightarrow>
      (case derive_session_key L private public of
         Inl _ \<Rightarrow> False
       | Inr sessionkey \<Rightarrow>
           (case encrypt_message_for_chat L t sessionkey 0 of
              None \<Rightarrow> False
            | Some encrypted_data \<Rightarrow> decrypt_message_from_chat L encrypted_data sessionkey 0 = Some (Inr t))))"

definition test_encryption_storage :: "'d crypto_lib \<Rightarrow> bytes \<Rightarrow> i64 \<Rightarrow> bytes \<Rightarrow> rstr \<Rightarrow> bool" where
  "test_encryption_storage L secret now nonce t =
     (case generate_x25519 L secret of (private, public) \<Rightarrow>
      (case load_storage_key L public private of
         Inl _ \<Rightarrow> False
       | Inr storagekey \<Rightarrow>
           (let msg = new_message now t You in
            case encrypt_message_stored L msg storagekey nonce of
              Inl _ \<Rightarrow> False
            | Inr encrypted_data \<Rightarrow>
                (case decrypt_message_stored L encrypted_data storagekey of
                   Inl _ \<Rightarrow> False
                 | Inr decrypted_data \<Rightarrow> msg_from_slice L decrypted_data = Some msg))))"

definition blob_envelope_roundtrip :: "'d crypto_lib \<Rightarrow> bytes \<Rightarrow> bytes \<Rightarrow> bytes \<Rightarrow> bytes \<Rightarrow> bool" where
  "blob_envelope_roundtrip L secret eph nonce payload =
     (case generate_x25519 L secret of (recipient_priv, recipient_pub) \<Rightarrow>
      (case encrypt_blob L recipient_pub payload eph nonce of
         Inl _ \<Rightarrow> False
       | Inr envelope \<Rightarrow> decrypt_blob L envelope recipient_priv = Inr payload))"

definition blob_envelope_rejects_wrong_key :: "'d crypto_lib \<Rightarrow> bytes \<Rightarrow> bytes \<Rightarrow> bytes \<Rightarrow> bytes \<Rightarrow> bytes \<Rightarrow> bool" where
  "blob_envelope_rejects_wrong_key L secret other eph nonce payload =
     (case (generate_x25519 L secret, generate_x25519 L other) of ((_, recipient_pub), (other_priv, _)) \<Rightarrow>
      (case encrypt_blob L recipient_pub payload eph nonce of
         Inl _ \<Rightarrow> False
       | Inr envelope \<Rightarrow> \<not> is_ok (decrypt_blob L envelope other_priv)))"

lemma test_encryption_chat_passes:
  assumes "hkdf_ok L" and "aead_ok L" and "sendable t"
  shows "test_encryption_chat L secret t"
proof -
  obtain k where "hkdf_expand L (diffie_hellman L secret (x25519_public L secret)) (info ''session'') 32 = Some k"
    using assms(1) by (rule hkdf_okE [where n = 32]) simp_all
  then show ?thesis
    using chat_roundtrip [OF assms(1,2), of t k 0] assms(3)
    by (auto simp: test_encryption_chat_def generate_x25519_def derive_session_key_def sendable_def)
qed

lemma test_encryption_storage_passes:
  assumes "hkdf_ok L" and "aead_ok L" and "msg_codec_ok L" and "length nonce = 12"
    and "msg_to_vec L (new_message now t You) = Some b" and "length b \<le> 274877906880"
  shows "test_encryption_storage L secret now nonce t"
proof -
  obtain k where k: "hkdf_expand L (diffie_hellman L secret (x25519_public L secret)) (info ''storage'') 32 = Some k" "length k = 32"
    using assms(1) by (rule hkdf_okE [where n = 32]) simp_all
  obtain c where c: "aead_encrypt L k nonce b = Some c" using assms(2) k(2) assms(4,6) by (rule aead_okE)
  then have "encrypt_message_stored L (new_message now t You) k nonce = Inr (nonce @ c)"
    using assms(5) by (simp add: encrypt_message_stored_def)
  from this stored_decrypts [OF assms(2,3) k(2) assms(4) this] show ?thesis
    using k(1) by (auto simp: test_encryption_storage_def generate_x25519_def load_storage_key_def Let_def)
qed

lemma blob_envelope_roundtrip_passes:
  assumes "hkdf_ok L" and "aead_ok L" and "dh_ok L" and "length eph = 32" and "length secret = 32"
    and "length nonce = 12" and "length payload \<le> 274877906880"
  shows "blob_envelope_roundtrip L secret eph nonce payload"
  using blob_roundtrip [OF assms] by (auto simp: blob_envelope_roundtrip_def generate_x25519_def)

text \<open>
  That another key does not open an envelope is a matter of the cipher: it holds whenever the cipher rejects the
  ciphertext under the key the other side derives.
\<close>

lemma blob_envelope_rejects_wrong_key_iff:
  assumes "dh_ok L" and "length eph = 32" and "length nonce = 12"
    and "hkdf_expand L (diffie_hellman L eph (x25519_public L secret)) (info ''blob'') 32 = Some k" and "aead_encrypt L k nonce payload = Some c"
    and "hkdf_expand L (diffie_hellman L other (x25519_public L eph)) (info ''blob'') 32 = Some k'"
  shows "blob_envelope_rejects_wrong_key L secret other eph nonce payload \<longleftrightarrow> aead_decrypt L k' nonce c = None"
proof -
  have "length (x25519_public L eph) = 32" using assms(1,2) unfolding dh_ok_def by blast
  then show ?thesis
    using assms(3-6)
    by (simp add: blob_envelope_rejects_wrong_key_def generate_x25519_def encrypt_blob_def decrypt_blob_def layout_simps Let_def is_ok_def ok_or_def
        split: option.split)
qed

section \<open>Peer to peer\<close>

record ident =
  id_x_priv :: bytes
  id_x_pub :: bytes
  id_signing :: bytes
  id_peerpub :: peer_public

definition ident_of :: "'d crypto_lib \<Rightarrow> bytes \<Rightarrow> bytes \<Rightarrow> ident" where
  "ident_of L secret signing =
     (case generate_x25519 L secret of (x_priv, x_pub) \<Rightarrow>
      \<lparr>id_x_priv = x_priv, id_x_pub = x_pub, id_signing = signing,
       id_peerpub = \<lparr>pk_public = x_pub, pk_verifying = ed_public L signing\<rparr>\<rparr>)"

text \<open>
  The handshakes of the tests: both sides run at the time \<open>now\<close>, and what each of them sends before it waits arrives at
  the other.
\<close>

definition crossed ::
  "(i64 \<Rightarrow> bool \<Rightarrow> (i64 \<times> bool \<times> net_event) list \<Rightarrow> bytes list \<times> (p2p_error + bytes) option) \<Rightarrow>
   (i64 \<Rightarrow> bool \<Rightarrow> (i64 \<times> bool \<times> net_event) list \<Rightarrow> bytes list \<times> (p2p_error + bytes) option) \<Rightarrow>
   i64 \<Rightarrow> socket_addr \<Rightarrow> socket_addr \<Rightarrow> (p2p_error + bytes) option \<times> (p2p_error + bytes) option" where
  "crossed run_a run_b now addr_a addr_b =
     (snd (run_a now True (map (\<lambda>f. (now, True, Recv f addr_b)) (fst (run_b now True [])))),
      snd (run_b now True (map (\<lambda>f. (now, True, Recv f addr_a)) (fst (run_a now True [])))))"

text \<open>A text handed to one end, the frames brought to the other end, and the text handed up there.\<close>

definition delivered :: "'d crypto_lib \<Rightarrow> p2p_codec \<Rightarrow> i64 \<Rightarrow> socket_addr \<Rightarrow> session \<Rightarrow> session \<Rightarrow> rstr \<Rightarrow> bool" where
  "delivered L C now addr tx rx t =
     (case session_write L C now True (Outgoing (Some t)) tx of
        None \<Rightarrow> False
      | Some (_, fs) \<Rightarrow>
          (case session_reads L C (map (\<lambda>f. (now, True, Received f addr)) fs) rx of
             None \<Rightarrow> False
           | Some (_, es) \<Rightarrow> (case es of [SessionMessage t' _] \<Rightarrow> t' = t | _ \<Rightarrow> False)))"

definition handshake_and_session_roundtrip ::
  "'d crypto_lib \<Rightarrow> p2p_codec \<Rightarrow> (nat \<Rightarrow> bytes) \<Rightarrow> i64 \<Rightarrow> socket_addr \<Rightarrow> socket_addr \<Rightarrow> rstr \<Rightarrow> rstr \<Rightarrow> bool" where
  "handshake_and_session_roundtrip L C r now addr_a addr_b from_a from_b =
     (let a = ident_of L (r 0) (r 1); b = ident_of L (r 2) (r 3);
          (a_eph_priv, a_eph_pub) = generate_x25519 L (r 4);
          (b_eph_priv, b_eph_pub) = generate_x25519 L (r 5)
      in case crossed (initial_handshake L C (id_x_pub a) a_eph_priv a_eph_pub (id_peerpub b) (id_signing a))
                (initial_handshake L C (id_x_pub b) b_eph_priv b_eph_pub (id_peerpub a) (id_signing b)) now addr_a addr_b of
           (Some (Inr key_a), Some (Inr key_b)) \<Rightarrow>
             key_a = key_b \<and>
             (let a_first = am_i_first (id_x_pub a) (id_x_pub b) in
              case (start_session L (Direct addr_b) key_a (id_x_pub a) (id_signing a) (id_peerpub b) a_first,
                    start_session L (Direct addr_a) key_b (id_x_pub b) (id_signing b) (id_peerpub a) (\<not> a_first)) of
                (Some sess_a, Some sess_b) \<Rightarrow> delivered L C now addr_a sess_a sess_b from_a \<and> delivered L C now addr_b sess_b sess_a from_b
              | _ \<Rightarrow> False)
         | _ \<Rightarrow> False)"

definition am_i_first_is_deterministic_and_asymmetric :: bool where
  "am_i_first_is_deterministic_and_asymmetric =
     (let hi = replicate 32 9; lo = replicate 32 1 in am_i_first hi lo \<and> \<not> am_i_first lo hi)"

definition relay_session_roundtrip :: "'d crypto_lib \<Rightarrow> p2p_codec \<Rightarrow> (nat \<Rightarrow> bytes) \<Rightarrow> i64 \<Rightarrow> rstr \<Rightarrow> bool" where
  "relay_session_roundtrip L C r now t =
     (let a = ident_of L (r 0) (r 1); b = ident_of L (r 2) (r 3) in
      case (relay_session_key L (pk_public (id_peerpub b)) (id_x_priv a), relay_session_key L (pk_public (id_peerpub a)) (id_x_priv b)) of
        (Some key_a, Some key_b) \<Rightarrow>
          key_a = key_b \<and>
          (let a_first = am_i_first (id_x_pub a) (id_x_pub b) in
           case (start_session L Relay key_a (id_x_pub a) (id_signing a) (id_peerpub b) a_first,
                 start_session L Relay key_b (id_x_pub b) (id_signing b) (id_peerpub a) (\<not> a_first)) of
             (Some sess_a, Some sess_b) \<Rightarrow> delivered L C now [] sess_a sess_b t
           | _ \<Rightarrow> False)
      | _ \<Rightarrow> False)"

text \<open>\<open>reply\<close> is the datagram the stand-in for the STUN server makes of the address.\<close>

definition stun_discover_returns_observed :: "'d crypto_lib \<Rightarrow> p2p_codec \<Rightarrow> (nat \<Rightarrow> bytes) \<Rightarrow> i64 \<Rightarrow> bytes \<Rightarrow> rstr \<Rightarrow> bool" where
  "stun_discover_returns_observed L C r now reply observed =
     (let i = ident_of L (r 0) (r 1) in
      stun_discover L C now (id_x_pub i) (id_signing i) [(True, Some reply)] = Some observed)"

text \<open>One run of the relay handshake over crossed channels; the key both sides derived.\<close>

definition one_run :: "'d crypto_lib \<Rightarrow> p2p_codec \<Rightarrow> (nat \<Rightarrow> bytes) \<Rightarrow> i64 \<Rightarrow> bytes option" where
  "one_run L C r now =
     (let a = ident_of L (r 0) (r 1); b = ident_of L (r 2) (r 3);
          (a_eph_priv, a_eph_pub) = generate_x25519 L (r 4);
          (b_eph_priv, b_eph_pub) = generate_x25519 L (r 5)
      in case crossed (relay_handshake L C (id_x_pub a) a_eph_priv a_eph_pub (id_peerpub b) (id_signing a))
                (relay_handshake L C (id_x_pub b) b_eph_priv b_eph_pub (id_peerpub a) (id_signing b)) now [] [] of
           (Some (Inr ka), Some (Inr kb)) \<Rightarrow> if ka = kb then Some ka else None
         | _ \<Rightarrow> None)"

definition relay_handshake_derives_fresh_matching_keys :: "'d crypto_lib \<Rightarrow> p2p_codec \<Rightarrow> (nat \<Rightarrow> bytes) \<Rightarrow> (nat \<Rightarrow> bytes) \<Rightarrow> i64 \<Rightarrow> bool" where
  "relay_handshake_derives_fresh_matching_keys L C r r' now =
     (case (one_run L C r now, one_run L C r' now) of (Some k1, Some k2) \<Rightarrow> k1 \<noteq> k2 | _ \<Rightarrow> False)"

definition frame_freshness_window :: bool where
  "frame_freshness_window =
     (let now = 1000000; m = word_of_int MAX_FRAME_AGE_SECS in
      frame_is_fresh now now \<and> frame_is_fresh (now - m) now \<and> frame_is_fresh (now + m) now
      \<and> \<not> frame_is_fresh (now - m - 1) now \<and> \<not> frame_is_fresh (now + m + 1) now)"

subsection \<open>They pass\<close>

text \<open>
  MessagePack on frames: a byte of an array takes at most two bytes, the rest of a frame fewer than 64.
\<close>

definition codec_compact :: "p2p_codec \<Rightarrow> bool" where
  "codec_compact C \<longleftrightarrow> (\<forall>m b. wf_frame m \<and> length (pm_signature m) = 64 \<and> pm_to_vec C m = Some b \<longrightarrow>
     length b \<le> 2 * (length (payload_bytes (pm_payload m)) + 96) + 64)"

lemma new_frame_length:
  assumes "codec_compact C" and "ed_ok L" and "length me = 32" and "length signing = 32" and "wf_payload p"
    and "pm_to_vec C (peer_message_new L now p me signing) = Some b"
  shows "length b \<le> 2 * length (payload_bytes p) + 256"
proof -
  let ?m = "peer_message_new L now p me signing"
  have "wf_frame ?m" "length (pm_signature ?m) = 64"
    using assms(3,5) ed_okD [OF assms(2,4)] by (simp_all add: wf_frame_def peer_message_new_def sign_challenge_def)
  then have "length b \<le> 2 * (length (payload_bytes (pm_payload ?m)) + 96) + 64" using assms(1,6) unfolding codec_compact_def by blast
  then show ?thesis by (simp add: peer_message_new_def)
qed

lemma delivered_text:
  assumes "libs_ok L C" and "ends_match L tx rx" and "s_writing tx" and "s_counter tx = 0" and "s_reading rx" and "s_last_counter rx = -1"
    and "sendable t" and "accepts_from (s_transport rx) addr" and "s_transport rx = Relay \<or> codec_compact C \<and> length (as_bytes t) \<le> 872"
  shows "delivered L C now addr tx rx t"
proof -
  have m: "s_send_key tx = s_recv_key rx" "length (s_my_pub tx) = 32" "length (s_signing tx) = 32"
    "s_peer_x rx = s_my_pub tx" "s_verifying rx = ed_public L (s_signing tx)"
    using assms(2) by (simp_all add: ends_match_def)
  have ok: "hkdf_ok L" "aead_ok L" "ed_ok L" using assms(1) by (simp_all add: libs_ok_def)
  obtain b where b: "session_write L C now True (Outgoing (Some t)) tx = Some (tx\<lparr>s_counter := 0 + 1\<rparr>, [b])"
    "text_frame L C now (s_send_key tx) (s_my_pub tx) (s_signing tx) (0 + 1) t b"
    using write_text [OF assms(1) m(2) assms(3,7), of now] assms(4) by auto
  have "handed (s_transport rx) b = b"
  proof (cases "s_transport rx")
    case (Direct remote)
    from b(1) obtain p where p: "pm_to_vec C (peer_message_new L now p (s_my_pub tx) (s_signing tx)) = Some b" "wf_payload p"
      "length (payload_bytes p) \<le> 24 + length (as_bytes t)"
    proof (cases rule: session_write_SomeE)
      case (wrote go ctr')
      then obtain p where p: "pm_to_vec C (peer_message_new L now p (s_my_pub tx) (s_signing tx)) = Some b"
        "plain p \<or> (\<exists>c. p = ChatMessage ctr' c \<and> encrypt_message_for_chat L t (s_send_key tx) ctr' = Some c)"
        by (auto simp: wrote_def)
      have "length c = length (as_bytes t) + 16" if "encrypt_message_for_chat L t (s_send_key tx) ctr' = Some c" for c
        using encrypt_then_decrypt [OF ok(1,2) _ _ that] assms(7) by (simp add: sendable_def)
      then have "wf_payload p" "length (payload_bytes p) \<le> 24 + length (as_bytes t)"
        using p(2) by (auto simp: plain_def lit_def as_bytes_def utf8_char_def)
      with p(1) show ?thesis by (rule that)
    qed simp
    have "codec_compact C" "length (as_bytes t) \<le> 872" using assms(9) Direct by auto
    then show ?thesis using new_frame_length [OF _ ok(3) m(2,3) p(2,1)] p(3) Direct by simp
  qed simp
  moreover have "frame_is_fresh now now" by (simp add: frame_is_fresh_diff)
  ultimately have "session_read L C now True (Received b addr) rx = Some (rx\<lparr>s_last_counter := 0 + 1\<rparr>, [SessionMessage t now])"
    using b(2) m assms(5,6,8) by (intro read_text [OF assms(1) m(3)]) simp_all
  then show ?thesis using b(1) by (simp add: delivered_def)
qed

lemma started_sessions:
  assumes "hkdf_ok L" and "length pa = 32" and "length pb = 32" and "pa \<noteq> pb" and "length ka = 32" and "length kb = 32"
  obtains sa sb where "start_session L ta key pa ka (peer_of L pb kb) (am_i_first pa pb) = Some sa"
    and "start_session L tb key pb kb (peer_of L pa ka) (\<not> am_i_first pa pb) = Some sb"
    and "ends_match L sa sb" and "ends_match L sb sa" and "s_transport sa = ta" and "s_transport sb = tb"
    and "s_counter sa = 0" and "s_counter sb = 0" and "s_last_counter sa = -1" and "s_last_counter sb = -1"
    and "s_writing sa" and "s_writing sb" and "s_reading sa" and "s_reading sb"
proof -
  have f: "am_i_first pb pa = (\<not> am_i_first pa pb)" using assms(4) by (auto simp: am_i_first_def)
  obtain sa sb where s: "start_session L ta key pa ka (peer_of L pb kb) (am_i_first pa pb) = Some sa"
    "start_session L tb key pb kb (peer_of L pa ka) (am_i_first pb pa) = Some sb" "ends_match L sa sb" "ends_match L sb sa"
    using start_session_ends_match [OF assms, of ta key tb] by blast
  have d: "s_transport x = tr \<and> s_counter x = 0 \<and> s_last_counter x = -1 \<and> s_writing x \<and> s_reading x"
    if "start_session L tr key p k q b = Some x" for tr p k q b x
    using that by (auto simp: start_session_def split: prod.splits option.splits)
  show ?thesis using d [OF s(1)] d [OF s(2)] s f by (intro that [of sa sb]) simp_all
qed

lemma ident_of_simps:
  "id_x_priv (ident_of L s k) = s" "id_x_pub (ident_of L s k) = x25519_public L s" "id_signing (ident_of L s k) = k"
  "id_peerpub (ident_of L s k) = peer_of L (x25519_public L s) k"
  by (simp_all add: ident_of_def generate_x25519_def)

text \<open>Crossed handshakes agree, over either transport.\<close>

lemma crossed_agree:
  assumes "libs_ok L C" and "dh_ok L" and "length pa = 32" and "length pb = 32" and "length ka = 32" and "length kb = 32"
    and "length ea = 32" and "length eb = 32"
  obtains key where "length key = 32" and "derive_session_key L ea (x25519_public L eb) = Inr key"
    and "crossed (relay_handshake L C pa ea (x25519_public L ea) (peer_of L pb kb) ka)
        (relay_handshake L C pb eb (x25519_public L eb) (peer_of L pa ka) kb) now addr_a addr_b = (Some (Inr key), Some (Inr key))"
    and "codec_compact C \<Longrightarrow> crossed (initial_handshake L C pa ea (x25519_public L ea) (peer_of L pb kb) ka)
        (initial_handshake L C pb eb (x25519_public L eb) (peer_of L pa ka) kb) now addr_a addr_b = (Some (Inr key), Some (Inr key))"
proof -
  have ok: "hkdf_ok L" "ed_ok L" "frame_codec_ok C" using assms(1) by (simp_all add: libs_ok_def)
  obtain key where key: "length key = 32" "derive_session_key L ea (x25519_public L eb) = Inr key" "derive_session_key L eb (x25519_public L ea) = Inr key"
    and l: "length (x25519_public L ea) = 32" "length (x25519_public L eb) = 32"
    using ok(1) assms(2,7,8) by (rule agreed_key)
  have fresh: "frame_is_fresh now now" by (simp add: frame_is_fresh_diff)
  note acc = accept_init_frame [OF ok(3,2) _ _ _ fresh]
  have relay: "crossed (relay_handshake L C pa ea (x25519_public L ea) (peer_of L pb kb) ka)
        (relay_handshake L C pb eb (x25519_public L eb) (peer_of L pa ka) kb) now addr_a addr_b = (Some (Inr key), Some (Inr key))"
    using assms(3-6) l by (simp add: crossed_def relay_handshake_def Let_def sends_init_frame [OF ok(3)] acc key map_err_def)
  have "crossed (initial_handshake L C pa ea (x25519_public L ea) (peer_of L pb kb) ka)
        (initial_handshake L C pb eb (x25519_public L eb) (peer_of L pa ka) kb) now addr_a addr_b = (Some (Inr key), Some (Inr key))"
    if "codec_compact C"
  proof -
    have "take 1024 (init_frame L C p e k now) = init_frame L C p e k now" if "length p = 32" "length e = 32" "length k = 32" for p e k
      using new_frame_length [OF \<open>codec_compact C\<close> ok(2) that(1,3), of "Init e" now] init_frame_decodes [OF ok(3) that(1,2), of L now k] that(2) by simp
    then show ?thesis
      using assms(3-6) l by (simp add: crossed_def initial_handshake_def Let_def sends_init_frame [OF ok(3)] acc key map_err_def)
  qed
  with key(1,2) relay show ?thesis by (rule that)
qed

text \<open>
  C12: Two strangers to the network who know each other's keys can talk. Whatever identities, ephemeral keys, clocks, addresses
  and texts the test of the direct path draws: both handshakes derive the same session key, the
  sessions started from it match, and a text of up to 872 bytes written at either end is handed up at
  the other as it was written.
\<close>

theorem direct_peers_talk:
  assumes "libs_ok L C" and "dh_ok L" and "codec_compact C" and "\<forall>i. length (r i) = 32" and "x25519_public L (r 0) \<noteq> x25519_public L (r 2)"
    and "sendable from_a" and "sendable from_b" and "length (as_bytes from_a) \<le> 872" and "length (as_bytes from_b) \<le> 872"
  shows "handshake_and_session_roundtrip L C r now addr_a addr_b from_a from_b"
proof -
  let ?pa = "x25519_public L (r 0)" and ?pb = "x25519_public L (r 2)"
  have pub: "length (x25519_public L (r i)) = 32" for i using assms(2,4) unfolding dh_ok_def by blast
  have r: "length (r i) = 32" for i using assms(4) by blast
  have ok: "hkdf_ok L" using assms(1) by (simp add: libs_ok_def)
  obtain key where key: "crossed (initial_handshake L C ?pa (r 4) (x25519_public L (r 4)) (peer_of L ?pb (r 3)) (r 1))
      (initial_handshake L C ?pb (r 5) (x25519_public L (r 5)) (peer_of L ?pa (r 1)) (r 3)) now addr_a addr_b = (Some (Inr key), Some (Inr key))"
    by (rule crossed_agree [OF assms(1,2) pub [of 0] pub [of 2] r [of 1] r [of 3] r [of 4] r [of 5], of now addr_a addr_b]) (use assms(3) in blast)
  obtain sa sb where s: "start_session L (Direct addr_b) key ?pa (r 1) (peer_of L ?pb (r 3)) (am_i_first ?pa ?pb) = Some sa"
    "start_session L (Direct addr_a) key ?pb (r 3) (peer_of L ?pa (r 1)) (\<not> am_i_first ?pa ?pb) = Some sb"
    and e: "ends_match L sa sb" "ends_match L sb sa" "s_transport sa = Direct addr_b" "s_transport sb = Direct addr_a"
    "s_counter sa = 0" "s_counter sb = 0" "s_last_counter sa = -1" "s_last_counter sb = -1" "s_writing sa" "s_writing sb" "s_reading sa" "s_reading sb"
    by (rule started_sessions [OF ok pub pub assms(5) r r])
  have "delivered L C now addr_a sa sb from_a" "delivered L C now addr_b sb sa from_b"
    using e assms(3,6-9) by (auto intro!: delivered_text [OF assms(1)])
  then show ?thesis
    using key s by (simp add: handshake_and_session_roundtrip_def Let_def ident_of_simps generate_x25519_def)
qed

lemma relay_session_roundtrip_passes:
  assumes "libs_ok L C" and "dh_ok L" and "\<forall>i. length (r i) = 32" and "x25519_public L (r 0) \<noteq> x25519_public L (r 2)" and "sendable t"
  shows "relay_session_roundtrip L C r now t"
proof -
  let ?pa = "x25519_public L (r 0)" and ?pb = "x25519_public L (r 2)"
  have pub: "length (x25519_public L (r i)) = 32" for i using assms(2,3) unfolding dh_ok_def by blast
  have r: "length (r i) = 32" for i using assms(3) by blast
  have ok: "hkdf_ok L" using assms(1) by (simp add: libs_ok_def)
  obtain key where key: "relay_session_key L ?pb (r 0) = Some key"
    using ok unfolding relay_session_key_def by (rule hkdf_okE [where n = 32]) simp_all
  then have key': "relay_session_key L ?pa (r 2) = Some key" using shared_keys_agree [OF assms(2) r r, of 0 2] by metis
  obtain sa sb where s: "start_session L Relay key ?pa (r 1) (peer_of L ?pb (r 3)) (am_i_first ?pa ?pb) = Some sa"
    "start_session L Relay key ?pb (r 3) (peer_of L ?pa (r 1)) (\<not> am_i_first ?pa ?pb) = Some sb"
    and e: "ends_match L sa sb" "s_transport sb = Relay" "s_counter sa = 0" "s_last_counter sb = -1" "s_writing sa" "s_reading sb"
    by (rule started_sessions [OF ok pub pub assms(4) r r])
  have "delivered L C now [] sa sb t" using e assms(5) by (auto intro!: delivered_text [OF assms(1)])
  then show ?thesis using key key' s by (simp add: relay_session_roundtrip_def Let_def ident_of_simps)
qed

lemma stun_discover_returns_observed_passes:
  assumes "stun_ping_to_vec C (stun_ping_new L now (x25519_public L (r 0)) (r 1)) \<noteq> None" and "length reply \<le> 512"
    and "stun_reply_from_slice C reply = Some observed"
  shows "stun_discover_returns_observed L C r now reply observed"
  using assms by (auto simp: stun_discover_returns_observed_def ident_of_simps stun_discover_def numeral_3_eq_3)

text \<open>Both runs agree on a key; the keys differ when the two derivations do.\<close>

lemma relay_handshake_derives_fresh_matching_keys_passes:
  assumes "libs_ok L C" and "dh_ok L" and "\<forall>i. length (r i) = 32" and "\<forall>i. length (r' i) = 32"
    and "derive_session_key L (r 4) (x25519_public L (r 5)) \<noteq> derive_session_key L (r' 4) (x25519_public L (r' 5))"
  shows "relay_handshake_derives_fresh_matching_keys L C r r' now"
proof -
  have run: "\<exists>k. derive_session_key L (q 4) (x25519_public L (q 5)) = Inr k \<and> one_run L C q now = Some k" if q: "\<forall>i. length (q i) = 32" for q
  proof -
    have pub: "length (x25519_public L (q i)) = 32" for i using assms(2) q unfolding dh_ok_def by blast
    have l: "length (q i) = 32" for i using q by blast
    obtain k where k: "derive_session_key L (q 4) (x25519_public L (q 5)) = Inr k"
      "crossed (relay_handshake L C (x25519_public L (q 0)) (q 4) (x25519_public L (q 4)) (peer_of L (x25519_public L (q 2)) (q 3)) (q 1))
        (relay_handshake L C (x25519_public L (q 2)) (q 5) (x25519_public L (q 5)) (peer_of L (x25519_public L (q 0)) (q 1)) (q 3)) now [] []
       = (Some (Inr k), Some (Inr k))"
      by (rule crossed_agree [OF assms(1,2) pub [of 0] pub [of 2] l [of 1] l [of 3] l [of 4] l [of 5], of now "[]" "[]"]) blast
    then show ?thesis by (simp add: one_run_def Let_def ident_of_simps generate_x25519_def)
  qed
  show ?thesis using run [OF assms(3)] run [OF assms(4)] assms(5) by (auto simp: relay_handshake_derives_fresh_matching_keys_def)
qed

lemma p2p_tests_pass: "am_i_first_is_deterministic_and_asymmetric" "frame_freshness_window"
  by code_simp+

lemma demo_compact: "codec_compact demo_codec"
proof -
  have esc: "length (demo_esc b) = 2 * length b + 1" for b by (induction b) simp_all
  have pay: "length (demo_pay_enc p) \<le> length (payload_bytes p) + 1" for p by (cases p) simp_all
  have "length (demo_pm_enc m) \<le> 2 * (length (payload_bytes (pm_payload m)) + 96) + 64" if "wf_frame m" "length (pm_signature m) = 64" for m
    using pay [of "pm_payload m"] that by (simp add: demo_pm_enc_def esc wf_frame_def)
  then show ?thesis by (simp add: codec_compact_def demo_codec_def)
qed

theorem direct_peers_talk_witness:
  "handshake_and_session_roundtrip demo_lib demo_codec key_of 100 (lit ''a:1'') (lit ''b:2'') (lit ''Hi'') (lit ''Hi'')"
proof (rule direct_peers_talk [OF demo_libs demo_dh demo_compact])
  have "key_of 0 \<noteq> key_of 2" by code_simp
  then show "x25519_public demo_lib (key_of 0) \<noteq> x25519_public demo_lib (key_of 2)" by simp
qed (use demo_sendable in \<open>simp_all add: as_bytes_def lit_def utf8_char_def\<close>)

section \<open>Client\<close>

definition test_contact :: "byte \<Rightarrow> rstr \<Rightarrow> rstr option \<Rightarrow> contact" where
  "test_contact i fp al = \<lparr>ct_id = replicate 32 i, ct_fingerprint = fp, ct_online = False, ct_address = None, ct_alias = al\<rparr>"

text \<open>\<^verbatim>\<open>HashSet::insert\<close>: whether the element is new, and the set with it; dropping the guard takes it out.\<close>

definition reserve :: "bytes \<Rightarrow> bytes set \<Rightarrow> bool \<times> bytes set" where
  "reserve peer s = (peer \<notin> s, insert peer s)"

definition drop_guard :: "bytes \<Rightarrow> bytes set \<Rightarrow> bytes set" where
  "drop_guard peer s = s - {peer}"

definition connecting_reservation_dedupes_and_clears_on_drop :: bool where
  "connecting_reservation_dedupes_and_clears_on_drop =
     (let peer = replicate 32 7; (first, s1) = reserve peer {}; (second, s2) = reserve peer s1
      in first \<and> \<not> second \<and> peer \<in> s2 \<and> peer \<notin> drop_guard peer s2)"

definition resolve_by_exact_alias :: bool where
  "resolve_by_exact_alias =
     (let cs = [test_contact 1 (lit ''aaaa'') (Some (lit ''alice'')), test_contact 2 (lit ''bbbb'') (Some (lit ''bob''))]
      in resolve_query cs (lit ''bob'') = Some (replicate 32 2))"

definition resolve_by_alias_prefix :: bool where
  "resolve_by_alias_prefix =
     (let cs = [test_contact 1 (lit ''aaaa'') (Some (lit ''alice''))] in resolve_query cs (lit ''al'') = Some (replicate 32 1))"

definition resolve_by_fingerprint_prefix :: bool where
  "resolve_by_fingerprint_prefix =
     (let cs = [test_contact 7 (lit ''deadbeef'') None] in resolve_query cs (lit ''dead'') = Some (replicate 32 7))"

definition resolve_prefers_exact_alias_over_fingerprint :: bool where
  "resolve_prefers_exact_alias_over_fingerprint =
     (let cs = [test_contact 1 (lit ''cafe1234'') None, test_contact 2 (lit ''ffff'') (Some (lit ''cafe''))]
      in resolve_query cs (lit ''cafe'') = Some (replicate 32 2))"

definition resolve_empty_or_unknown_is_none :: bool where
  "resolve_empty_or_unknown_is_none =
     (let cs = [test_contact 1 (lit ''aaaa'') (Some (lit ''alice''))] in resolve_query cs [] = None \<and> resolve_query cs (lit ''zzz'') = None)"

definition stun_default_swaps_relay_prefix :: bool where
  "stun_default_swaps_relay_prefix \<longleftrightarrow>
     default_stun_addr (lit ''relay.dhmztr.com'') = lit ''stun.dhmztr.com:3478''
     \<and> default_stun_addr (lit ''relay.dhmztr.com:3000'') = lit ''stun.dhmztr.com:3478''
     \<and> default_stun_addr (lit ''localhost:3000'') = lit ''localhost:3478''
     \<and> default_stun_addr (lit ''example.com'') = lit ''example.com:3478''"

text \<open>The intents of the tests; \<open>now\<close> is read when the intent is made, the decision is taken at \<open>later\<close>.\<close>

definition test_intent :: "instant \<Rightarrow> 32 word \<Rightarrow> u64 \<Rightarrow> bool \<Rightarrow> u64 option \<Rightarrow> connect_intent" where
  "test_intent now attempts backoff on due_in =
     \<lparr>ci_attempts = attempts, ci_backoff_secs = backoff,
      ci_due_at = (case due_in of Some s \<Rightarrow> now + secs s | None \<Rightarrow> now), ci_online = on\<rparr>"

definition retry_first_attempt_fires_when_due_and_online :: "instant \<Rightarrow> instant \<Rightarrow> bool" where
  "retry_first_attempt_fires_when_due_and_online now later = (next_retry_action (test_intent now 0 1 True None) False later = Punch)"

definition retry_waits_when_offline :: "instant \<Rightarrow> instant \<Rightarrow> bool" where
  "retry_waits_when_offline now later = (next_retry_action (test_intent now 0 1 False None) False later = Wait)"

definition retry_waits_when_not_yet_due :: "instant \<Rightarrow> instant \<Rightarrow> bool" where
  "retry_waits_when_not_yet_due now later = (next_retry_action (test_intent now 1 2 True (Some 10)) False later = Wait)"

definition retry_done_when_session_live :: "instant \<Rightarrow> instant \<Rightarrow> bool" where
  "retry_done_when_session_live now later = (next_retry_action (test_intent now 3 8 True None) True later = Done)"

definition retry_gives_up_at_max_attempts :: "instant \<Rightarrow> instant \<Rightarrow> bool" where
  "retry_gives_up_at_max_attempts now later = (next_retry_action (test_intent now MAX_CONNECT_ATTEMPTS 30 True None) False later = GiveUp)"

definition retry_parked_past_max_waits :: "instant \<Rightarrow> instant \<Rightarrow> bool" where
  "retry_parked_past_max_waits now later = (next_retry_action (test_intent now (MAX_CONNECT_ATTEMPTS + 1) 30 True None) False later = Wait)"

definition backoff_doubles_and_caps :: bool where
  "backoff_doubles_and_caps \<longleftrightarrow> bump_backoff 1 = 2 \<and> bump_backoff 2 = 4 \<and> bump_backoff 16 = min 32 RETRY_BACKOFF_CAP_SECS
     \<and> bump_backoff RETRY_BACKOFF_CAP_SECS = RETRY_BACKOFF_CAP_SECS"

definition rearm_resets_ladder :: "instant \<Rightarrow> instant \<Rightarrow> instant \<Rightarrow> bool" where
  "rearm_resets_ladder now rearmed later =
     (let i = rearm rearmed (test_intent now (MAX_CONNECT_ATTEMPTS + 1) 30 True (Some 100))
      in ci_attempts i = 0 \<and> ci_backoff_secs i = 1 \<and> next_retry_action i False later = Punch)"

lemma resolve_tests_pass:
  "resolve_by_exact_alias" "resolve_by_alias_prefix" "resolve_by_fingerprint_prefix" "resolve_prefers_exact_alias_over_fingerprint"
  "resolve_empty_or_unknown_is_none"
  by (simp_all add: resolve_by_exact_alias_def resolve_by_alias_prefix_def resolve_by_fingerprint_prefix_def
      resolve_prefers_exact_alias_over_fingerprint_def resolve_empty_or_unknown_is_none_def test_contact_def resolve_query_def trim_def
      is_white_def lit_def Let_def)

lemma stun_default_test_passes: "stun_default_swaps_relay_prefix"
  by (simp add: stun_default_swaps_relay_prefix_def default_stun_addr_def rsplit_once_def strip_prefix_def lit_def)

lemma reservation_test_passes: "connecting_reservation_dedupes_and_clears_on_drop"
  by (simp add: connecting_reservation_dedupes_and_clears_on_drop_def reserve_def drop_guard_def)

text \<open>
  The unit tests of the retry logic pass at whatever instants they run: time only has to go
  forward between the readings of the clock, and the test of an intent that is not due has to be
  over within its ten seconds.
\<close>

lemma retry_tests_pass:
  assumes "now \<le> later" and "rearmed \<le> later'" and "soon < now + 10 * 1000000000"
  shows "retry_first_attempt_fires_when_due_and_online now later \<and> retry_waits_when_offline now later \<and> retry_waits_when_not_yet_due now soon
    \<and> retry_done_when_session_live now later \<and> retry_gives_up_at_max_attempts now later \<and> retry_parked_past_max_waits now later
    \<and> backoff_doubles_and_caps \<and> rearm_resets_ladder now rearmed later'"
proof -
  have "backoff_doubles_and_caps" by code_simp
  moreover have "(0 :: 32 word) < MAX_CONNECT_ATTEMPTS" "\<not> MAX_CONNECT_ATTEMPTS < (0 :: 32 word)" "(1 :: 32 word) < MAX_CONNECT_ATTEMPTS"
    "(0 :: 32 word) \<noteq> MAX_CONNECT_ATTEMPTS" "MAX_CONNECT_ATTEMPTS < MAX_CONNECT_ATTEMPTS + 1" "\<not> MAX_CONNECT_ATTEMPTS < (1 :: 32 word)"
    "(1 :: 32 word) \<noteq> MAX_CONNECT_ATTEMPTS"
    by code_simp+
  moreover have "secs 10 = 10 * 1000000000" by (simp add: secs_def)
  ultimately show ?thesis
    using assms
    by (simp add: retry_first_attempt_fires_when_due_and_online_def retry_waits_when_offline_def retry_waits_when_not_yet_due_def
        retry_done_when_session_live_def retry_gives_up_at_max_attempts_def retry_parked_past_max_waits_def rearm_resets_ladder_def
        test_intent_def next_retry_action_def rearm_def Let_def)
qed

end
