(* ===== verification/Server_Link.thy ===== *)
theory Server_Link
  imports Server_Loops
begin

text \<open>
  Opening the connection to the relay and keeping the presence there fresh
  (\<^verbatim>\<open>crates/serverclient/src/lib.rs\<close>): the process-wide TLS provider, the limits given to the web socket
  library, and the presence loop driven by its interval. The library that opens a socket is a parameter.
\<close>

section \<open>Connecting\<close>

text \<open>
  The \<^verbatim>\<open>Once\<close> of \<open>ensure_crypto_provider\<close> and the default provider of rustls. \<open>install\<close> is what
  \<^verbatim>\<open>install_default\<close> makes of that default; whether it reports an error is ignored by the code.
\<close>

record 'p statics =
  st_once :: bool
  st_provider :: "'p option"

definition ensure_crypto_provider :: "('p option \<Rightarrow> 'p option) \<Rightarrow> 'p statics \<Rightarrow> 'p statics" where
  "ensure_crypto_provider install s =
     (if st_once s then s else s\<lparr>st_once := True, st_provider := install (st_provider s)\<rparr>)"

text \<open>
  \<open>connect_async\<close> is the library's function: the default provider, the URL, the largest message and the
  largest frame; \<open>None\<close> is a panic.
\<close>

type_synonym 'p connect_async = "'p option \<Rightarrow> rstr \<Rightarrow> nat \<Rightarrow> nat \<Rightarrow> (rstr + conn) option"

definition connect_to_server ::
  "('p option \<Rightarrow> 'p option) \<Rightarrow> 'p connect_async \<Rightarrow> bool \<Rightarrow> rstr \<Rightarrow> 'p statics \<Rightarrow> (client_errors + conn) option \<times> 'p statics" where
  "connect_to_server install connect_async insecure server_address s =
     (let s' = ensure_crypto_provider install s; url = server_url insecure server_address in
      (map_option (map_err ConnectionFailed) (connect_async (st_provider s') url (256 * 1024) (256 * 1024)), s'))"

text \<open>
  What the code relies on: after an installation there is a default provider; with one the library does not panic; and
  it hands out no message larger than the limit it was given.
\<close>

definition event_bounded :: "nat \<Rightarrow> ws_event \<Rightarrow> bool" where
  "event_bounded n e = (case e of WsBinary b \<Rightarrow> length b \<le> n | _ \<Rightarrow> True)"

definition connect_ok :: "('p option \<Rightarrow> 'p option) \<Rightarrow> 'p connect_async \<Rightarrow> bool" where
  "connect_ok install f \<longleftrightarrow> (\<forall>p. install p \<noteq> None) \<and> (\<forall>p url m k. f (Some p) url m k \<noteq> None)
     \<and> (\<forall>p url m k c. f p url m k = Some (Inr c) \<longrightarrow> list_all (event_bounded m) (conn_in c))"

definition statics_ok :: "'p statics \<Rightarrow> bool" where
  "statics_ok s \<longleftrightarrow> (st_once s \<longrightarrow> st_provider s \<noteq> None)"

lemma ensure_crypto_provider_ok:
  assumes "connect_ok install f" and "statics_ok s"
  shows "statics_ok (ensure_crypto_provider install s)" and "st_provider (ensure_crypto_provider install s) \<noteq> None"
    and "ensure_crypto_provider install (ensure_crypto_provider install s) = ensure_crypto_provider install s"
  using assms by (auto simp: statics_ok_def ensure_crypto_provider_def connect_ok_def)

text \<open>
  No connection panics for want of a TLS provider, the first of a process included; a failure is reported as
  \<open>ConnectionFailed\<close>, and a connection yields no message of more than 256 kilobytes.
\<close>

theorem connect_to_server_outcome:
  assumes "connect_ok install f" and "statics_ok s"
  obtains e s' where "connect_to_server install f insecure addr s = (Some (Inl (ConnectionFailed e)), s')" and "statics_ok s'"
  | c s' where "connect_to_server install f insecure addr s = (Some (Inr c), s')" and "statics_ok s'"
      and "list_all (event_bounded 262144) (conn_in c)"
proof -
  let ?s = "ensure_crypto_provider install s"
  obtain p where p: "st_provider ?s = Some p" using ensure_crypto_provider_ok(2) [OF assms] by blast
  then obtain r where r: "f (Some p) (server_url insecure addr) 262144 262144 = Some r"
    using assms(1) unfolding connect_ok_def by blast
  have "list_all (event_bounded 262144) (conn_in c)" if "r = Inr c" for c using assms(1) r that unfolding connect_ok_def by blast
  with that p r ensure_crypto_provider_ok(1) [OF assms] show ?thesis
    by (cases r) (auto simp: connect_to_server_def map_err_def)
qed

text \<open>A library that needs a provider, and hands out the messages of the other side that respect its limit.\<close>

lemma connect_ok_demo:
  "connect_ok (\<lambda>cur. Some (case cur of None \<Rightarrow> lit ''ring'' | Some p \<Rightarrow> p))
     (\<lambda>cur url m k. map_option (\<lambda>_. Inr \<lparr>conn_in = filter (event_bounded m) ws, conn_faults = [], conn_out = []\<rparr>) cur)"
  by (simp add: connect_ok_def list_all_iff)

text \<open>\<open>run_client\<close> goes on from the outcome of \<open>connect_to_server\<close>.\<close>

lemma run_client_connects:
  assumes "connect_to_server install f insecure addr st = (Some r, st')"
  shows "run_client L V (\<lambda>url. the (f (st_provider st') url 262144 262144)) insecure now clk rng public signing privkey addr port over s
    = (case r of Inl e \<Rightarrow> (Inl e, s)
       | Inr c \<Rightarrow> (case server_initial_handshake L V now clk rng public signing privkey port over (s, c) of
            (Inl e, (s', _)) \<Rightarrow> (Inl e, s') | (Inr _, (s', c')) \<Rightarrow> (Inr c', s')))"
proof -
  obtain q where q: "f (st_provider st') (server_url insecure addr) 262144 262144 = Some q" "r = map_err ConnectionFailed q"
    using assms by (auto simp: connect_to_server_def Let_def)
  then show ?thesis by (cases q) (simp_all add: run_client_def map_err_def)
qed

section \<open>Presence\<close>

text \<open>
  The presence loop: per tick the clock, its readings for the messages, which sends find the channel open, and the process-wide state
  at that time, which other tasks change. A closed channel ends it.
\<close>

fun presence_refresh_loop :: "'d crypto_lib \<Rightarrow> bytes \<Rightarrow> (i64 \<times> (nat \<Rightarrow> i64) \<times> bool list \<times> 'd net) list \<Rightarrow> client_to_server list" where
  "presence_refresh_loop L privkey [] = []"
| "presence_refresh_loop L privkey ((timestamp, clk, ups, s) # ticks) =
     (case presence_refresh_tick L timestamp clk privkey ups s of
        (out, True) \<Rightarrow> out @ presence_refresh_loop L privkey ticks
      | (out, False) \<Rightarrow> out)"

text \<open>
  The seconds at which \<^verbatim>\<open>interval(15 s)\<close> started at \<open>t0\<close> wakes the loop: at once, then every 15 seconds, each time \<open>late i\<close>
  seconds after it was due.
\<close>

definition tick_at :: "nat \<Rightarrow> (nat \<Rightarrow> nat) \<Rightarrow> nat \<Rightarrow> nat" where
  "tick_at t0 late i = t0 + 15 * i + late i"

lemma tick_slot:
  assumes "t0 mod 15 + late i < 15"
  shows "tick_at t0 late i div 15 = t0 div 15 + i"
proof -
  have "tick_at t0 late i = (t0 mod 15 + late i) + (t0 div 15 + i) * 15" by (simp add: tick_at_def algebra_simps)
  then have "tick_at t0 late i div 15 = ((t0 mod 15 + late i) + (t0 div 15 + i) * 15) div 15" by (rule arg_cong)
  also have "\<dots> = t0 div 15 + i" using assms by (simp only: div_mult_self1 div_less)
  finally show ?thesis .
qed

lemma presence_loop_all_ticks:
  assumes "\<forall>(now, clk, ups, s) \<in> set ticks. snd (presence_refresh_tick L now clk privkey ups s)"
  shows "presence_refresh_loop L privkey ticks
    = concat (map (\<lambda>(now, clk, ups, s). fst (presence_refresh_tick L now clk privkey ups s)) ticks)"
  using assms by (induction ticks) (auto split: prod.splits bool.splits)

text \<open>
  C25: Every slot of 15 seconds has its announcement. The presence loop is woken every 15 seconds, each time
  less late than would carry it into the next slot, with an address known and the channel open. Then each slot from the first tick to the last has
  exactly one tick; at that tick every contact is announced once, in order, with the address of the moment. When a contact asks the relay for a hole
  punch at a time \<open>t\<close> of such a slot, the token of its request is the one announced to it at the tick of that slot: the
  announcement has been made by then, or else all ticks so far were of earlier slots and the contact is early.
\<close>

theorem punch_token_announced:
  assumes "hkdf_ok L" and "dh_ok L" and "length a = 32" and "length b = 32"
    and slot: "t0 div 15 \<le> t div 15" "t div 15 < t0 div 15 + n" and times: "t0 + 15 * n < 2 ^ 63" "t < 2 ^ 63"
    and late: "\<forall>i < n. t0 mod 15 + late i < 15"
    and tick: "\<forall>i < n. list_all (\<lambda>up. up) (ups i) \<and> fst (get_or_set_my_address None (st i)) = Some (addr i)
          \<and> fst (load_peers L (net_disk (st i))) = Inr (ps i)"
    and out: "\<forall>i. out i = fst (presence_refresh_tick L (word_of_nat (tick_at t0 late i)) (clk i) a (ups i) (st i))"
    and i: "i = t div 15 - t0 div 15"
  shows "presence_refresh_loop L a (map (\<lambda>i. (word_of_nat (tick_at t0 late i), clk i, ups i, st i)) [0..<n]) = concat (map out [0..<n])
    \<and> i < n \<and> (\<forall>j < n. tick_at t0 late j div 15 = t div 15 \<longleftrightarrow> j = i)
    \<and> (\<exists>tokens token. map cts_payload (out i) = map (\<lambda>k. Announce k (addr i)) tokens \<and> length tokens = length (ps i)
         \<and> generate_p2p_request L (word_of_nat t) (x25519_public L a) b = Inr (RequestHolePunch token)
         \<and> (\<forall>j < length (ps i). pk_public (ps i ! j) = x25519_public L b \<longrightarrow> tokens ! j = token))
    \<and> (tick_at t0 late i \<le> t \<or> (\<forall>j < n. tick_at t0 late j \<le> t \<longrightarrow> tick_at t0 late j div 15 < t div 15))"
proof -
  let ?T = "tick_at t0 late" and ?w = "\<lambda>i. word_of_nat (tick_at t0 late i) :: i64"
  have sl: "?T j div 15 = t0 div 15 + j" if "j < n" for j using tick_slot late that by blast
  have i_n: "i < n" and uniq: "\<forall>j < n. ?T j div 15 = t div 15 \<longleftrightarrow> j = i" using slot i sl by (linarith, auto)
  have go: "snd (presence_refresh_tick L (?w j) (clk j) a (ups j) (st j))" if "j < n" for j
    by (rule presence_tick_announces_all [OF assms(1), of "st j" "addr j" "ps j" "ups j" "?w j" "clk j" a]) (use tick that in simp_all)
  have loop: "presence_refresh_loop L a (map (\<lambda>i. (?w i, clk i, ups i, st i)) [0..<n]) = concat (map out [0..<n])"
    using go out by (subst presence_loop_all_ticks) (auto simp: comp_def intro!: arg_cong [of _ _ concat])
  obtain tokens where tk: "map cts_payload (out i) = map (\<lambda>k. Announce k (addr i)) tokens"
    "map (\<lambda>p. presence_token L a (pk_public p) (?w i)) (ps i) = map Inr tokens"
    using tick i_n out
    by (auto elim!: presence_tick_announces_all [OF assms(1), of "st i" "addr i" "ps i" "ups i" "?w i" "clk i" a])
  have "?T i < 2 ^ 63" using i_n times(1) late by (force simp: tick_at_def)
  moreover have "int (?T i) div 15 = int t div 15" using uniq i_n by (metis of_nat_numeral zdiv_int)
  ultimately have same: "presence_token L b (x25519_public L a) (word_of_nat t) = presence_token L a (x25519_public L b) (?w i)"
    using times(2) by (intro presence_token_slot [OF assms(2,4,3)]) (simp_all add: sint_of_nat)
  obtain ts where "map (\<lambda>p. presence_token L b (pk_public p) (word_of_nat t)) [\<lparr>pk_public = x25519_public L a, pk_verifying = []\<rparr>] = map Inr ts"
    using presence_tokens_exist [OF assms(1)] .
  then obtain token where token: "presence_token L b (x25519_public L a) (word_of_nat t) = Inr token" by auto
  then have req: "generate_p2p_request L (word_of_nat t) (x25519_public L a) b = Inr (RequestHolePunch token)"
    by (simp add: generate_p2p_request_def map_err_def)
  have len: "length tokens = length (ps i)" using tk(2) by (metis length_map)
  have "tokens ! j = token" if "j < length (ps i)" "pk_public (ps i ! j) = x25519_public L b" for j
    using arg_cong [OF tk(2), of "\<lambda>xs. xs ! j"] that len same token by simp
  moreover have "?T i \<le> t \<or> (\<forall>j < n. ?T j \<le> t \<longrightarrow> ?T j div 15 < t div 15)"
    using uniq by (metis div_le_mono le_neq_implies_less)
  ultimately show ?thesis using loop i_n uniq tk(1) len req by blast
qed

definition demo_reachable :: "demo_db net" where
  "demo_reachable = demo_home\<lparr>net_address := Some (lit ''h:7''),
     net_disk := demo_disk [(peers_dir demo_lib, DirNode), (peer_path demo_lib (key_of 1), DirNode),
       (peer_pub_path demo_lib (key_of 1), FileNode (key_of 1 @ key_of 2))]\<rparr>"

theorem punch_token_announced_witness:
  "\<exists>token. generate_p2p_request demo_lib (word_of_nat 118) (x25519_public demo_lib (key_of 2)) (key_of 1) = Inr (RequestHolePunch token)
    \<and> map cts_payload (fst (presence_refresh_tick demo_lib (word_of_nat (tick_at 100 (\<lambda>_. 1) 1)) (\<lambda>_. 117) (key_of 2) [] demo_reachable))
      = [Announce token (lit ''h:7'')]"
proof -
  have p: "fst (load_peers demo_lib (net_disk demo_reachable)) = Inr [\<lparr>pk_public = key_of 1, pk_verifying = key_of 2\<rparr>]" by code_simp
  have a: "fst (get_or_set_my_address None demo_reachable) = Some (lit ''h:7'')" by code_simp
  have "1 = 118 div 15 - (100 :: nat) div 15" by simp
  from punch_token_announced [where t = 118 and n = 3 and late = "\<lambda>_. 1" and ups = "\<lambda>_. []" and st = "\<lambda>_. demo_reachable" and clk = "\<lambda>_ _. 117"
        and addr = "\<lambda>_. lit ''h:7''" and ps = "\<lambda>_. [\<lparr>pk_public = key_of 1, pk_verifying = key_of 2\<rparr>]"
        and out = "\<lambda>i. fst (presence_refresh_tick demo_lib (word_of_nat (tick_at 100 (\<lambda>_. 1) i)) (\<lambda>_. 117) (key_of 2) [] demo_reachable)",
      OF demo_hkdf demo_dh length_key_of [of 2] length_key_of [of 1] _ _ _ _ _ _ _ this] p a
  show ?thesis by (auto simp: length_Suc_conv simp del: One_nat_def)
qed

end
