(* ===== verification/Client_Signals.thy ===== *)
theory Client_Signals
  imports Cli_App
begin

text \<open>
  Waiting for the operating system to end the program (\<^verbatim>\<open>shutdown_signal\<close> of \<^verbatim>\<open>crates/client/src/lib.rs\<close>), on every platform
  the code distinguishes, and the task of \<^verbatim>\<open>sechat-cli\<close> that waits there. Whether a handler can be installed is
  an argument; so is the list of the signals that have come since.
\<close>

section \<open>Definitions\<close>

datatype platform = Unix | Windows | OtherPlatform

datatype os_signal = Ctrl_C | Sigterm | Ctrl_Break | Sighup

text \<open>
  The future \<^verbatim>\<open>ctrl_c\<close>, after the signals \<open>sigs\<close>: it also completes when the handler cannot be
  installed, since the error is ignored.
\<close>

definition ctrl_c :: "bool \<Rightarrow> os_signal list \<Rightarrow> bool" where
  "ctrl_c ctrl_installed sigs \<longleftrightarrow> (if ctrl_installed then Ctrl_C \<in> set sigs else True)"

text \<open>Whether \<^verbatim>\<open>shutdown_signal\<close> has returned after the signals \<open>sigs\<close>.\<close>

definition shutdown_signal :: "platform \<Rightarrow> bool \<Rightarrow> bool \<Rightarrow> os_signal list \<Rightarrow> bool" where
  "shutdown_signal p ctrl_installed second_installed sigs =
     (case p of
        Unix \<Rightarrow> if second_installed then ctrl_c ctrl_installed sigs \<or> Sigterm \<in> set sigs else ctrl_c ctrl_installed sigs
      | Windows \<Rightarrow> if second_installed then ctrl_c ctrl_installed sigs \<or> Ctrl_Break \<in> set sigs else ctrl_c ctrl_installed sigs
      | OtherPlatform \<Rightarrow> ctrl_c ctrl_installed sigs)"

text \<open>The task of \<^verbatim>\<open>sechat-cli\<close>: nothing until the signal, then the shutdown and the end of the process.\<close>

definition cli_signal_task ::
  "platform \<Rightarrow> bool \<Rightarrow> bool \<Rightarrow> os_signal list \<Rightarrow> handle \<Rightarrow> 'd world \<Rightarrow> (rstr \<times> 'd world) option" where
  "cli_signal_task p ctrl_installed second_installed sigs h w =
     (if shutdown_signal p ctrl_installed second_installed sigs then Some (cli_signal h w) else None)"

section \<open>Properties\<close>

text \<open>The signals that end the program on a platform where all handlers could be installed.\<close>

fun ends_on :: "platform \<Rightarrow> os_signal \<Rightarrow> bool" where
  "ends_on _ Ctrl_C = True"
| "ends_on Unix Sigterm = True"
| "ends_on Windows Ctrl_Break = True"
| "ends_on _ _ = False"

theorem shutdown_signal_iff: "shutdown_signal p True True sigs \<longleftrightarrow> (\<exists>s \<in> set sigs. ends_on p s)"
proof -
  have "ends_on p s \<longleftrightarrow> s = Ctrl_C \<or> p = Unix \<and> s = Sigterm \<or> p = Windows \<and> s = Ctrl_Break" for s
    by (cases p; cases s) simp_all
  then show ?thesis by (cases p) (auto simp: shutdown_signal_def ctrl_c_def)
qed

lemma shutdown_signal_mono: "shutdown_signal p c s sigs \<Longrightarrow> set sigs \<subseteq> set sigs' \<Longrightarrow> shutdown_signal p c s sigs'"
  by (cases p) (auto simp: shutdown_signal_def ctrl_c_def split: if_splits)

lemma shutdown_signal_fallback: "shutdown_signal p True False sigs \<longleftrightarrow> Ctrl_C \<in> set sigs"
  by (cases p) (simp_all add: shutdown_signal_def ctrl_c_def)

text \<open>A program that cannot install the handler for Ctrl-C shuts down with no signal at all.\<close>

lemma shutdown_without_signal: "shutdown_signal p False s []"
  by (cases p) (simp_all add: shutdown_signal_def ctrl_c_def)

text \<open>The first signal that ends the program gives exactly one shutdown command to the core; any other gives none.\<close>

theorem cli_signal_task_shuts_down:
  "cli_signal_task p True True sigs h w =
     (if \<exists>s \<in> set sigs. ends_on p s
      then Some (println ([10] @ lit ''shutting down'' @ [0x2026]), w\<lparr>wo_sent := wo_sent w @ [(hd_core h, CShutdown)]\<rparr>) else None)"
  by (simp add: cli_signal_task_def shutdown_signal_iff cli_signal_def shutdown_def send_command_def)

end
