(* ===== verification/Gui_Styles.thy ===== *)
theory Gui_Styles
  imports Gui_Views
begin

text \<open>
  The style functions of the graphical interface (\<^verbatim>\<open>crates/gui/src/main.rs\<close>): which colours of the theme each
  surface and each text takes. The theme's palette, made by the library, is an argument; its colours
  are of any type \<open>'c\<close>. The sizes of the source are small whole 32-bit floats, on which arithmetic is exact; they
  are integers here.
\<close>

section \<open>Palettes and styles\<close>

record 'c color_pair =
  pr_color :: 'c
  pr_text :: 'c

record 'c palette =
  pl_primary :: 'c
  pl_danger :: 'c
  bg_base :: "'c color_pair"
  bg_weakest :: "'c color_pair"
  bg_weak :: "'c color_pair"
  bg_strong :: "'c color_pair"
  primary_strong :: "'c color_pair"
  success_strong :: "'c color_pair"

record 'c border =
  bo_color :: 'c
  bo_width :: int
  bo_radius :: int

text \<open>\<open>None\<close> is the default of \<^verbatim>\<open>container::Style\<close>: no background, the text colour of the surroundings, no border.\<close>

record 'c container_style =
  cs_background :: "'c option"
  cs_text_color :: "'c option"
  cs_border :: "'c border option"

definition CARD_RADIUS :: int where
  "CARD_RADIUS = 12"

definition default_style :: "'c container_style" where
  "default_style = \<lparr>cs_background = None, cs_text_color = None, cs_border = None\<rparr>"

definition bordered :: "'c \<Rightarrow> int \<Rightarrow> int \<Rightarrow> 'c border option" where
  "bordered c w r = Some \<lparr>bo_color = c, bo_width = w, bo_radius = r\<rparr>"

section \<open>Surfaces\<close>

definition shell_style :: "'c palette \<Rightarrow> 'c container_style" where
  "shell_style ext = default_style\<lparr>cs_background := Some (pr_color (bg_base ext))\<rparr>"

definition rail_style :: "'c palette \<Rightarrow> 'c container_style" where
  "rail_style ext = default_style\<lparr>cs_background := Some (pr_color (bg_weak ext)), cs_border := bordered (pr_color (bg_strong ext)) 1 0\<rparr>"

definition card_style :: "'c palette \<Rightarrow> 'c container_style" where
  "card_style ext =
     default_style\<lparr>cs_background := Some (pr_color (bg_weak ext)), cs_border := bordered (pr_color (bg_strong ext)) 1 CARD_RADIUS\<rparr>"

definition inset_style :: "'c palette \<Rightarrow> 'c container_style" where
  "inset_style ext =
     default_style\<lparr>cs_background := Some (pr_color (bg_weakest ext)), cs_border := bordered (pr_color (bg_strong ext)) 1 (CARD_RADIUS - 2)\<rparr>"

definition dot_style :: "bool \<Rightarrow> 'c palette \<Rightarrow> 'c container_style" where
  "dot_style on ext =
     (let color = (if on then pr_color (success_strong ext) else pr_color (bg_strong ext))
      in default_style\<lparr>cs_background := Some color, cs_border := bordered color 0 5\<rparr>)"

definition badge_style :: "'c palette \<Rightarrow> 'c container_style" where
  "badge_style ext =
     default_style\<lparr>cs_background := Some (pr_color (primary_strong ext)), cs_text_color := Some (pr_text (primary_strong ext)),
       cs_border := bordered (pr_color (primary_strong ext)) 0 8\<rparr>"

definition bubble_style :: "bool \<Rightarrow> 'c palette \<Rightarrow> 'c container_style" where
  "bubble_style from_me ext =
     (if from_me then
        default_style\<lparr>cs_background := Some (pr_color (primary_strong ext)), cs_text_color := Some (pr_text (primary_strong ext)),
          cs_border := bordered (pr_color (primary_strong ext)) 1 CARD_RADIUS\<rparr>
      else
        default_style\<lparr>cs_background := Some (pr_color (bg_weak ext)), cs_text_color := Some (pr_text (bg_base ext)),
          cs_border := bordered (pr_color (bg_strong ext)) 1 CARD_RADIUS\<rparr>)"

section \<open>Texts\<close>

definition accent_color :: "'c palette \<Rightarrow> 'c option" where
  "accent_color t = Some (pl_primary t)"

definition section_header_color :: "'c palette \<Rightarrow> 'c option" where
  "section_header_color t = Some (pr_color (primary_strong t))"

definition muted_color :: "'c palette \<Rightarrow> 'c option" where
  "muted_color t = Some (pr_color (bg_strong t))"

definition danger_color :: "'c palette \<Rightarrow> 'c option" where
  "danger_color t = Some (pl_danger t)"

section \<open>Properties\<close>

lemmas style_defs = default_style_def bordered_def shell_style_def rail_style_def card_style_def inset_style_def dot_style_def
  badge_style_def bubble_style_def CARD_RADIUS_def Let_def

text \<open>
  A text is legible on a container with a background: it is set in a colour that \<open>legible\<close> accepts on it.
  \<open>inherited\<close> is the text colour of the surroundings.
\<close>

definition reads_well :: "('c \<Rightarrow> 'c \<Rightarrow> bool) \<Rightarrow> 'c \<Rightarrow> 'c container_style \<Rightarrow> bool" where
  "reads_well legible inherited s =
     (case cs_background s of None \<Rightarrow> True | Some b \<Rightarrow> legible (case cs_text_color s of Some t \<Rightarrow> t | None \<Rightarrow> inherited) b)"

text \<open>
  The library makes every pair of the palette legible. That is enough for the shell, the badge and our own messages; the cards, the
  rail, the insets and the messages of the peer set the text of the base on a weaker shade of it, so
  these need that the one text colour is legible on the weak and the weakest shade too.
\<close>

theorem surfaces_read_well:
  assumes "\<forall>p \<in> {bg_base ext, primary_strong ext}. legible (pr_text p) (pr_color p)"
  shows "reads_well legible (pr_text (bg_base ext)) (shell_style ext)" and "reads_well legible t (badge_style ext)"
    and "reads_well legible t (bubble_style True ext)"
    and "legible (pr_text (bg_base ext)) (pr_color (bg_weak ext)) \<Longrightarrow>
      reads_well legible t (bubble_style False ext) \<and> reads_well legible (pr_text (bg_base ext)) (card_style ext)
      \<and> reads_well legible (pr_text (bg_base ext)) (rail_style ext)"
    and "legible (pr_text (bg_base ext)) (pr_color (bg_weakest ext)) \<Longrightarrow> reads_well legible (pr_text (bg_base ext)) (inset_style ext)"
  using assms by (simp_all add: reads_well_def style_defs)

text \<open>
  The user can tell the sides of a conversation and who is online by colour, whenever the theme has different colours for them.
\<close>

theorem sides_told_apart:
  "pr_color (primary_strong ext) \<noteq> pr_color (bg_weak ext) \<Longrightarrow> cs_background (bubble_style a ext) = cs_background (bubble_style b ext) \<longleftrightarrow> a = b"
  "pr_color (success_strong ext) \<noteq> pr_color (bg_strong ext) \<Longrightarrow> cs_background (dot_style a ext) = cs_background (dot_style b ext) \<longleftrightarrow> a = b"
  by (auto simp: style_defs)

text \<open>
  Dim text has the colour of the borders: on every bordered surface it is set in the colour of the line around it, and it is the colour of
  the dot of a contact that is offline.
\<close>

lemma muted_is_border_color:
  "\<forall>s \<in> {rail_style ext, card_style ext, inset_style ext, bubble_style False ext}. map_option bo_color (cs_border s) = muted_color ext"
  "cs_background (dot_style False ext) = muted_color ext"
  by (simp_all add: style_defs muted_color_def)

text \<open>Corners nest: an inset is less rounded than the card it sits in, by two units.\<close>

lemma inset_inside_card: "map_option (\<lambda>b. bo_radius b + 2) (cs_border (inset_style ext)) = map_option bo_radius (cs_border (card_style ext))"
  by (simp add: style_defs)

end
