(* ===== verification/Spec2Isabelle.thy ===== *)
theory Spec2Isabelle
  imports Gui_Secrecy Desktop P2P_Timing Client_Traffic Unit_Tests Server_Link Client_Signals Gui_Styles
begin

text \<open>
  A verification development of the \<^verbatim>\<open>sechat\<close> client, a peer-to-peer encrypted chat written in Rust.

  \<^bold>\<open>The program.\<close> A user has an identity, a pair of keys in a password-protected file, and a directory
  of contacts known by their public keys. The client logs in at a relay server, which tells who is
  online, keeps encrypted blobs for those who are not and brokers hole punches; a session with a
  peer runs over UDP or, failing that, through the relay. Each conversation is stored encrypted.
  Five crates make it up, each calling only those before it:
    \<^item> \<^verbatim>\<open>crates/crypto\<close>: identity, contacts, keys, encryption and the stored chat;
    \<^item> \<^verbatim>\<open>crates/p2p\<close>: signed frames, hole punching, handshakes, sessions;
    \<^item> \<^verbatim>\<open>crates/serverclient\<close>: the protocol with the relay server and its tasks;
    \<^item> \<^verbatim>\<open>crates/client\<close>: the core that ties them together, its handle, and the command line;
    \<^item> \<^verbatim>\<open>crates/gui\<close>: the graphical interface over the handle.

  \<^bold>\<open>The language.\<close> \<open>Sechat_Prelude\<close> has bytes and 64-bit words, results with early return (\<open>op_bind\<close> for
  \<^verbatim>\<open>?\<close> over a state), byte orders, and the interfaces \<open>wire_codec\<close>, \<open>fixed_codec\<close>, \<open>invariant_system\<close> and \<open>unwinding\<close>.
  \<open>Rust_Std\<close> has strings (lists of scalar values, UTF-8, trimming, splitting); \<open>Rust_Fs\<close> a file system in
  which any operation on any path may be given a fault, so that all error branches can be reached.
  Integers that may overflow are words and wrap around, as in a release build. A result \<open>None\<close> where
  the code has no option is a panic.

  \<^bold>\<open>Crypto.\<close> \<open>Crypto_Lib\<close> has the data and the record \<open>crypto_lib\<close> of the third-party primitives (SHA-256,
  HKDF, ChaCha20-Poly1305, X25519, Ed25519, Argon2, hex, the MessagePack form of a message, the sled
  database), with what the code relies on as named predicates (\<open>aead_ok\<close>, \<open>sled_ok\<close>, and so on);
  \<open>Crypto_Example\<close> is an instance that satisfies all of them, at which witnesses evaluate.
  \<open>Crypto_Identity\<close> has the key file and the files of a peer, \<open>Crypto_Peers\<close> shows the directory to be a
  finite map (\<open>contact_book\<close>), \<open>Crypto_Message\<close> has key derivation and encryption with their round
  trips, \<open>Crypto_Store\<close> shows the chat database to be an append-only list (\<open>chat_log\<close>).

  \<^bold>\<open>Peer to peer.\<close> \<open>P2P_Frame\<close> has what is signed, freshness and the treatment of one inbound frame, over
  a parameter \<open>p2p_codec\<close> for the encodings (\<open>P2P_Example\<close> is an instance). \<open>P2P_Session\<close> has the reader and
  the writer of a session and the relation \<open>link_step\<close>, in which the network may drop, delay, repeat,
  reorder and inject frames but not forge signatures: what the reader hands up is a subsequence of what
  was written. \<open>P2P_Timing\<close> runs both tasks by the second: heartbeats keep a session over a network that
  loses and delays some of them unless it brings an old end frame, silence ends it, and the datagrams of others keep it too.
  \<open>P2P_Handshake\<close> has the loops over sockets with a deadline (\<open>select_loop\<close>): they run over the
  list of what the loop meets, so a loop that waits forever has no result.

  \<^bold>\<open>Relay server.\<close> \<open>Server_Structs\<close> has the messages and their generators, \<open>Server_Presence\<close> the process-wide
  cache of who is online, with its poisoned mutexes, as a map with expiry (\<open>expiring_map\<close>),
  \<open>Server_Handlers\<close> the treatment of blobs and of every server message and the login, \<open>Server_Loops\<close> the
  tasks of a connection, \<open>Server_Link\<close> the opening of the web socket and the presence loop with its
  interval: every slot of 15 seconds gets one announcement of its token to every contact, as late in the slot as its tick comes. The encodings are the record \<open>server_lib\<close>.

  \<^bold>\<open>Core.\<close> \<open>Client_Retry\<close> has the retry ladder, how often it asks and how it starts anew while an attempt is in flight; \<open>Client_Connect\<close> the connection attempts as tasks that
  interleave at their locks and waits (\<open>connect_step\<close>) and the task that watches a session;
  \<open>Client_Config\<close> the files of the client, the aliases (again a \<open>contact_book\<close>), the contacts and how a
  query finds one; \<open>Client_Core\<close> the handlers of server events and commands, a turn of the inner loop,
  the outer loop with its back-off, and the whole client as the relation \<open>client_step\<close>.
  \<open>Client_Commands\<close> and \<open>Client_Peers\<close> show what sending, removing, purging and shutting down achieve,
  the first and the third across two clients; \<open>Client_Traffic\<close> what the core tells the server: well-typed
  messages about contacts, on which input, with which token, address and sealed content.

  \<^bold>\<open>Interfaces.\<close> \<open>Client_Handle\<close> has the handle (\<^verbatim>\<open>Client\<close>): a method puts a command into the channel or
  works on the files. \<open>Cli_App\<close> has \<^verbatim>\<open>sechat-cli\<close>: logging in, every command, every event printed;
  \<open>Client_Signals\<close> waits for the signals of the operating system on each platform.
  \<open>Gui_App\<close> has the state of the graphical interface and every message of \<^verbatim>\<open>update\<close>; \<open>Gui_Logic\<close> its
  invariant, which commands it gives and when, the unread counts, and logging in again; \<open>Gui_Views\<close> the
  widgets each view shows, what they say and what they send, \<open>Gui_Styles\<close> their colours and borders, \<open>Gui_Secrecy\<close> that
  passwords and private keys do not reach the screen. \<open>Desktop\<close> puts the graphical program together
  (\<open>desktop_step\<close>): the interface, the clients it starts and the channels between them, with an invariant that ties
  the keys and the events applied to the core, and follows a text from the draft in one window, through the relay, to
  the conversation in the other.
  \<open>Unit_Tests\<close> has the tests of the repository as definitions and proves that they pass at all keys, times and texts.
  This theory follows a text over a session from one client into the history of the other, and a
  session whose peer vanishes to its end.

  \<^bold>\<open>Parameters.\<close> Readings of the clock, random bytes, outcomes of network operations and the keyboard are
  arguments of the definitions (the records \<open>env\<close>, \<open>attempt\<close>, \<open>ui_env\<close>, \<open>cli_env\<close>), one per use, so
  theorems hold for all of them. \<open>iter\<close> is the order in which a hash map is iterated. No definition
  takes fuel: loops recurse over the list of what they meet. The counter of a session is below
  \<open>2 ^ 63 - 1\<close> and a database has room for the messages appended; both bounds are beyond what a program
  reaches, and appear as hypotheses where they matter.

  \<^bold>\<open>Not modelled.\<close> The web socket, TLS and signal libraries themselves, debug
  output, the prompts of passwords, paddings, widths and alignments of widgets, and the registration of the interface with its
  run-time: they only call libraries. The server is not part of the repository; only what it sends is
  a parameter. Tasks interleave at locks and waits; between them a task runs undisturbed, and takes no time.
  Relay sessions and direct sessions share the treatment of frames; the shared UDP socket of several
  direct sessions is represented only by what each of them receives. So a turn of the core is one step,
  and the handling of one server message and the wrapping of its replies use one reading of the clock. Channels
  have no bound, hence no waiting of senders; opening a database that exists does not fail on the lock of
  another process; listing a directory fails as a whole or not at all. The timers of a session fire on
  time; the presence timer comes as late as one likes within its period, and the retry timer whenever it does.
\<close>

section \<open>A text from one client to the history of the other\<close>

text \<open>
  C1: A text typed to a peer with a live session arrives in the peer's history. The writer of the
  session makes one frame per text; whichever of the frames reach the other end, in order, fresh,
  unbroken and from the expected address, the reader there hands up exactly their texts, and the
  task watching the session stores each of them, in order, as the peer's, with the time it was
  written, and reports it to the user; the session stays up.
\<close>

theorem typed_texts_arrive:
  assumes "libs_ok L C" and "ends_match L tx rx"
    and "s_writing tx" and "s_counter tx = 0" and "s_reading rx" and "s_last_counter rx = -1"
    and "\<forall>x \<in> set xs. sendable (snd x)" and "length xs < 2 ^ 63 - 1"
    and writes: "session_writes L C (map (\<lambda>(now, t). (now, True, Outgoing (Some t))) xs) tx = Some (tx', fs)"
    and order: "sorted_wrt (<) (map fst ds)"
    and arrive: "\<forall>(i, now, addr) \<in> set ds. i < length xs \<and> frame_is_fresh (fst (xs ! i)) now
           \<and> accepts_from (s_transport rx) addr \<and> handed (s_transport rx) (fs ! i) = fs ! i"
    and peer: "ch_peer c = \<lparr>pk_public = s_peer_x rx, pk_verifying = s_verifying rx\<rparr>"
    and chat: "ch_lib c = L" "ch_disk c = net_disk (co_net k)" "load_storage_key L (pk_public (ch_peer c)) (x25519_priv me) = Inr (ch_key c)"
      "chat_inv c" "length ds \<le> chat_room c"
      "\<forall>j < length ds. chat_accepts c (from_parts (snd (xs ! fst (ds ! j))) Peer (fst (xs ! fst (ds ! j))), nonce j)"
  shows "length fs = length xs
    \<and> (\<exists>rx' es k'. session_reads L C (map (\<lambda>(i, now, addr). (now, True, Received (fs ! i) addr)) ds) rx = Some (rx', es) \<and> s_reading rx'
         \<and> k' = watch_session L me n (ch_peer c) nonce 0 es k
         \<and> chat_read (c\<lparr>ch_disk := net_disk (co_net k')\<rparr>) = chat_read c @ map (\<lambda>(i, now, addr). from_parts (snd (xs ! i)) Peer (fst (xs ! i))) ds
         \<and> co_events k' = co_events k @ replicate (length ds) (AMessageArrived (identity_hash L (s_peer_x rx) (s_verifying rx)) False)
         \<and> co_sessions k' = co_sessions k)"
proof -
  obtain tx2 fs2 where d: "session_writes L C (map (\<lambda>(now, t). (now, True, Outgoing (Some t))) xs) tx = Some (tx2, fs2)"
    and len2: "length fs2 = length xs"
    and dl: "\<forall>ds. sorted_wrt (<) (map fst ds) \<longrightarrow>
         (\<forall>(i, now, addr) \<in> set ds. i < length fs2 \<and> frame_is_fresh (fst (xs ! i)) now
            \<and> accepts_from (s_transport rx) addr \<and> handed (s_transport rx) (fs2 ! i) = fs2 ! i) \<longrightarrow>
         (\<exists>rx'. session_reads L C (map (\<lambda>(i, now, addr). (now, True, Received (fs2 ! i) addr)) ds) rx
            = Some (rx', map (\<lambda>(i, now, addr). SessionMessage (snd (xs ! i)) (fst (xs ! i))) ds) \<and> s_reading rx')"
    using session_delivery [OF assms(1-8)] by blast
  have fs2: "fs2 = fs" using d writes by simp
  have len: "length fs = length xs" using len2 fs2 by simp
  let ?ms = "map (\<lambda>(i, now, addr). (snd (xs ! i), fst (xs ! i))) ds"
  obtain rx' where rx': "session_reads L C (map (\<lambda>(i, now, addr). (now, True, Received (fs ! i) addr)) ds) rx
      = Some (rx', map (\<lambda>(i, now, addr). SessionMessage (snd (xs ! i)) (fst (xs ! i))) ds)" "s_reading rx'"
    using dl [unfolded fs2 len, THEN spec, THEN mp, OF order, THEN mp, OF arrive] by blast
  have es: "map (\<lambda>(i, now, addr). SessionMessage (snd (xs ! i)) (fst (xs ! i))) ds = map (\<lambda>(t, ts). SessionMessage t ts) ?ms"
    by (auto simp: case_prod_unfold)
  have "\<forall>j < length ?ms. chat_accepts c (from_parts (fst (?ms ! j)) Peer (snd (?ms ! j)), nonce (0 + j))"
    using chat(6) by (simp add: case_prod_unfold)
  then have w: "chat_read (c\<lparr>ch_disk := net_disk (co_net k')\<rparr>) = chat_read c @ map (\<lambda>(t, ts). from_parts t Peer ts) ?ms
    \<and> co_events k' = co_events k @ replicate (length ?ms) (AMessageArrived (generate_peer_hash L (ch_peer c)) False)
    \<and> co_sessions k' = co_sessions k" if "k' = watch_session L me n (ch_peer c) nonce 0 (map (\<lambda>(t, ts). SessionMessage t ts) ?ms) k" for k'
    using chat(5) that by (intro watch_session_stores [OF chat(1-4)]) simp_all
  have "map (\<lambda>(t, ts). from_parts t Peer ts) ?ms = map (\<lambda>(i, now, addr). from_parts (snd (xs ! i)) Peer (fst (xs ! i))) ds"
    by (auto simp: case_prod_unfold)
  then show ?thesis
    using len rx' w [OF refl] by (auto simp: es generate_peer_hash_def peer)
qed

theorem typed_texts_arrive_witness:
  "\<exists>tx fs rx es. session_writes demo_lib demo_codec
       (map (\<lambda>(now, t). (now, True, Outgoing (Some t))) [(100, lit ''Hi''), (110, lit ''Hi''), (120, lit ''Hi'')]) (demo_end 2) = Some (tx, fs)
     \<and> session_reads demo_lib demo_codec (map (\<lambda>(i, now, addr). (now, True, Received (fs ! i) addr)) [(2, 125, [])]) (demo_end 1) = Some (rx, es)
     \<and> chat_read ((demo_box_chat 1 2 2)\<lparr>ch_disk := net_disk (co_net (watch_session demo_lib (hd_keys (demo_handle 1)) 0 (ch_peer (demo_box_chat 1 2 2))
          (\<lambda>_. replicate 12 5) 0 es (core0 (demo_box 2 2))))\<rparr>) = chat_read (demo_box_chat 1 2 2) @ [from_parts (lit ''Hi'') Peer 120]"
proof -
  let ?xs = "[(100, lit ''Hi''), (110, lit ''Hi''), (120, lit ''Hi'')] :: (i64 \<times> rstr) list"
  let ?ds = "[(2, 125, [])] :: (nat \<times> i64 \<times> socket_addr) list"
  let ?c = "demo_box_chat 1 2 2" and ?k = "core0 (demo_box 2 2)" and ?me = "hd_keys (demo_handle 1)"
  have s: "\<forall>x \<in> set ?xs. sendable (snd x)" using demo_sendable by simp
  have m: "ends_match demo_lib (demo_end 2) (demo_end 1)" by (simp add: ends_match_def demo_end_def)
  have e: "s_writing (demo_end 2)" "s_counter (demo_end 2) = 0" "s_reading (demo_end 1)" "s_last_counter (demo_end 1) = -1"
    "s_transport (demo_end 1) = Relay"
    by (simp_all add: demo_end_def)
  have l: "length ?xs < 2 ^ 63 - 1" by simp
  obtain tx fs where w: "session_writes demo_lib demo_codec (map (\<lambda>(now, t). (now, True, Outgoing (Some t))) ?xs) (demo_end 2) = Some (tx, fs)"
    using session_delivery [OF demo_libs m e(1-4) s l] by blast
  have arrive: "\<forall>(i, now, addr) \<in> set ?ds. i < length ?xs \<and> frame_is_fresh (fst (?xs ! i)) now
      \<and> accepts_from (s_transport (demo_end 1)) addr \<and> handed (s_transport (demo_end 1)) (fs ! i) = fs ! i"
    by (simp add: frame_is_fresh_diff demo_end_def)
  have peer: "ch_peer ?c = \<lparr>pk_public = s_peer_x (demo_end 1), pk_verifying = s_verifying (demo_end 1)\<rparr>"
    by (simp add: demo_box_chat_def demo_contact_def demo_end_def demo_lib_def)
  have r: "inbox_ready demo_lib (key_of 1) ?c (demo_box 2 2) (from_parts (lit ''Hi'') Peer 120, replicate 12 5)" by (rule demo_box_ready)
  then have chat: "ch_lib ?c = demo_lib" "ch_disk ?c = net_disk (co_net ?k)" "chat_inv ?c" "length ?ds \<le> chat_room ?c"
    "load_storage_key demo_lib (pk_public (ch_peer ?c)) (x25519_priv ?me) = Inr (ch_key ?c)"
    "\<forall>j < length ?ds. chat_accepts ?c (from_parts (snd (?xs ! fst (?ds ! j))) Peer (fst (?xs ! fst (?ds ! j))), replicate 12 5)"
    by (simp_all add: inbox_ready_def core0_def demo_handle_def)
  have o: "sorted_wrt (<) (map fst ?ds)" by simp
  show ?thesis
    using typed_texts_arrive [where n = 0 and nonce = "\<lambda>_. replicate 12 5", OF demo_libs m e(1-4) s l w o arrive peer chat(1,2,5,3,4,6)] w by auto
qed

section \<open>A peer that vanishes\<close>

lemma watch_closed:
  assumes "es \<noteq> []" and "last es = SessionClosed" and "h = generate_peer_hash L peer"
  shows "co_sessions (watch_session L me n peer nonce i es k) h = None \<and> co_events (watch_session L me n peer nonce i es k) \<noteq> []
    \<and> last (co_events (watch_session L me n peer nonce i es k)) = ASessionDown h"
  using assms(1,2)
proof (induction es arbitrary: i k)
  case (Cons e es)
  show ?case
  proof (cases e)
    case (SessionMessage t ts)
    then have "es \<noteq> []" "last es = SessionClosed" using Cons.prems by (auto split: if_splits)
    then show ?thesis using Cons.IH SessionMessage by (simp add: Let_def)
  qed (simp add: Let_def assms(3))
qed simp

text \<open>
  C15: A peer that vanishes is noticed. When nothing comes over a session for 45 seconds, its reader has ended by then,
  the task watching it has taken the session out of the map and told the user, and the next
  text for that peer is not written into the dead session but handed to the relay as a
  blob, once.
\<close>

theorem vanished_peer_noticed:
  assumes "hkdf_ok L" and "s_reading s" and "sorted (since # map fst evs)"
    and "t0 \<in> set (since # map fst evs)" and "t0 + SESSION_IDLE_TIMEOUT_SECS \<le> T"
    and "\<forall>u \<in> set (map fst evs). \<not> (t0 < u \<and> u \<le> t0 + SESSION_IDLE_TIMEOUT_SECS)"
    and h: "h = generate_peer_hash L peer" and up: "en_up env h"
  shows "\<exists>s' es. reader_task L C clk (\<lambda>_. True) T since evs s = Some (s', es) \<and> \<not> s_reading s'
    \<and> (\<forall>n nonce k. co_sessions (watch_session L me n peer nonce 0 es k) h = None
         \<and> last (co_events (watch_session L me n peer nonce 0 es k)) = ASessionDown h
         \<and> (\<forall>cl text msg. cl_core cl = watch_session L me n peer nonce 0 es k
              \<and> fst (load_peer_data L h (cl_disk cl)) = Inr peer
              \<and> generate_offline_message L V (en_now env 1) (en_now env 2) peer (x25519_pub me) (x25519_priv me) text (ed25519_signing me)
                  (en_rand env 0) (en_rand env 1) (en_rand env 2) = Inr msg
              \<longrightarrow> cl_server_tx (handle_command L V iter me env (CSend h text) cl) = cl_server_tx cl @ [msg]
                \<and> cl_outbound (handle_command L V iter me env (CSend h text) cl) = cl_outbound cl))"
proof -
  obtain s' es where r: "reader_task L C clk (\<lambda>_. True) T since evs s = Some (s', es)" "\<not> s_reading s'" "es \<noteq> []" "last es = SessionClosed"
    using silence_ends_session [OF assms(1-6)] by blast
  have out: "cl_outbound (record_sent L me env p q t c) = cl_outbound c" for p q t and c :: "'a client"
    by (auto simp: record_sent_def dest: on_cl_disk_frame split: prod.splits sum.splits)
  have "cl_server_tx (handle_command L V iter me env (CSend h w) cl) = cl_server_tx cl @ [msg]
      \<and> cl_outbound (handle_command L V iter me env (CSend h w) cl) = cl_outbound cl"
    if "co_sessions (cl_core cl) h = None" "fst (load_peer_data L h (cl_disk cl)) = Inr peer"
      "generate_offline_message L V (en_now env 1) (en_now env 2) peer (x25519_pub me) (x25519_priv me) w (ed25519_signing me)
         (en_rand env 0) (en_rand env 1) (en_rand env 2) = Inr msg" for cl :: "'a client" and w msg
    using that up by (simp add: handle_command_def command_send_def server_send_def out)
  then show ?thesis using r watch_closed [OF r(3,4) h, of me _ _ 0] by (intro exI conjI) auto
qed

theorem vanished_peer_noticed_witness:
  "\<exists>s' es. reader_task demo_lib demo_codec (\<lambda>_. 105) (\<lambda>_. True) 60 0 [(10, Received [1] [])] (demo_end 1) = Some (s', es) \<and> \<not> s_reading s'
     \<and> co_sessions (watch_session demo_lib demo_me 0 (ch_peer (demo_box_chat 2 1 1)) (\<lambda>_. []) 0 es (cl_core demo_live)) (key_of 1) = None
     \<and> co_sessions (cl_core demo_live) (key_of 1) \<noteq> None"
proof -
  have s: "s_reading (demo_end 1)" by (simp add: demo_end_def)
  have evs: "sorted (0 # map fst [(10 :: nat, Received [1] [])])" "10 \<in> set (0 # map fst [(10 :: nat, Received [1] [])])"
    "10 + SESSION_IDLE_TIMEOUT_SECS \<le> 60"
    "\<forall>u \<in> set (map fst [(10 :: nat, Received [1] [])]). \<not> (10 < u \<and> u \<le> 10 + SESSION_IDLE_TIMEOUT_SECS)"
    by (simp_all add: SESSION_IDLE_TIMEOUT_SECS_def)
  have up: "en_up demo_env (key_of 1)" by (simp add: demo_env_def)
  show ?thesis
    using vanished_peer_noticed [OF demo_hkdf s evs demo_live_state(1) up, of demo_codec "\<lambda>_. 105" demo_me demo_server rev] demo_live_state(4) by fastforce
qed

end
